theory Spec2Isabelle
  imports Complex_Main "HOL-Library.Signed_Division"
begin

unbundle bit_operations_syntax

section \<open>The GPU sweep of Legion-SNAP (gpu\_sweep.cu)\<close>

text \<open>
  The embedding follows the CUDA source. Conventions:
  \<^item> a C \<open>double\<close> is a \<open>real\<close>: the theorems are about the arithmetic the
    code writes down, not about rounding;
  \<^item> a C \<open>int\<close> is an \<open>int\<close>; the product that gives the element count of the
    \<open>ec\<close> copy, which no check bounds, wraps at 32 bits (\<open>int_mult\<close>); the other
    quantities stay inside the range of \<open>int\<close> and no wrap-around is written for them;
    \<open>/\<close> and \<open>%\<close> on \<open>int\<close> truncate towards zero (\<open>sdiv\<close>, \<open>smod\<close>);
  \<^item> an \<open>assert\<close> that fails is the error value \<open>AssertionFailure\<close>;
  \<^item> the scratch buffers \<open>yflux_pencils[MAX_CTA][MAX_X_CHUNK][MAX_ANGLES]\<close> and
    \<open>zflux_planes[MAX_CTA][MAX_Y_CHUNK][MAX_Y_CHUNK][MAX_ANGLES]\<close> are kept flat,
    indexed as C lays them out.
\<close>

subsection \<open>Compiled bounds and the device tables\<close>

definition MAX_ANGLES :: int where "MAX_ANGLES = 1024"
definition MAX_X_CHUNK :: int where "MAX_X_CHUNK = 16"
definition MAX_Y_CHUNK :: int where "MAX_Y_CHUNK = 16"
definition MAX_CTA :: nat where "MAX_CTA = 32"


datatype error = AssertionFailure | DivisionByZero

record device =
  available_chunks :: "nat list"
  device_ec :: "real list"
  device_mu :: "real list"
  device_eta :: "real list"
  device_xi :: "real list"
  device_w :: "real list"
  yflux_pencils :: "nat \<Rightarrow> real"
  zflux_planes :: "nat \<Rightarrow> real"






subsection \<open>The dispatcher\<close>

datatype kernel =
    TimeDependentWithFixup
  | TimeDependentWithoutFixup
  | TimeIndependentWithFixup
  | TimeIndependentWithoutFixup

text \<open>
  A launch \<open>kernel<THR_ANGLES><<<grid, block>>>(...)\<close>; the grid is always
  \<open>(1,1,1)\<close> and the block \<open>(threads_per_cta,1,1)\<close>. The kernel arguments are
  the dispatcher's own arguments, handed on unchanged.
\<close>

record launch =
  launched :: kernel
  THR_ANGLES :: nat
  block_x :: int

definition max_threads_per_cta :: int where "max_threads_per_cta = 1024"

definition angles_per_thread_of :: "int \<Rightarrow> int" where
  "angles_per_thread_of num_angles =
     (num_angles + max_threads_per_cta - 1) sdiv max_threads_per_cta"

text \<open>
  The four \<open>switch (angles_per_thread)\<close> statements have the same shape: case 1,
  case 2, and a default that prints and asserts false.
\<close>

definition switch_angles_per_thread :: "kernel \<Rightarrow> int \<Rightarrow> int \<Rightarrow> error + launch" where
  "switch_angles_per_thread k angles_per_thread threads_per_cta =
     (if angles_per_thread = 1 then
        Inr \<lparr>launched = k, THR_ANGLES = 1, block_x = threads_per_cta\<rparr>
      else if angles_per_thread = 2 then
        Inr \<lparr>launched = k, THR_ANGLES = 2, block_x = threads_per_cta\<rparr>
      else Inl AssertionFailure)"

text \<open>
  \<open>num_angles % angles_per_thread\<close> with a zero divisor traps on the host; it is the
  error \<open>DivisionByZero\<close>.
\<close>

definition run_gpu_sweep :: "int \<Rightarrow> bool \<Rightarrow> real \<Rightarrow> error + launch" where
  "run_gpu_sweep num_angles fixup vdelt =
     (let angles_per_thread = angles_per_thread_of num_angles in
      if angles_per_thread = 0 then Inl DivisionByZero
      else if \<not> (num_angles smod angles_per_thread = 0) then Inl AssertionFailure
      else
        let threads_per_cta = num_angles sdiv angles_per_thread in
        if fixup then
          (if vdelt \<noteq> 0 then
             switch_angles_per_thread TimeDependentWithFixup angles_per_thread threads_per_cta
           else
             switch_angles_per_thread TimeIndependentWithFixup angles_per_thread threads_per_cta)
        else
          (if vdelt \<noteq> 0 then
             switch_angles_per_thread TimeDependentWithoutFixup angles_per_thread threads_per_cta
           else
             switch_angles_per_thread TimeIndependentWithoutFixup angles_per_thread
               threads_per_cta))"

section \<open>The sweep kernels\<close>

subsection \<open>Kernel state\<close>

type_synonym point = "int \<times> int \<times> int"

record memory =
  qtot_ptr :: "point \<Rightarrow> nat \<Rightarrow> real"
  flux_ptr :: "point \<Rightarrow> real"
  fluxm_ptr :: "point \<Rightarrow> nat \<Rightarrow> real"
  dinv_ptr :: "point \<Rightarrow> nat \<Rightarrow> real"
  time_flux_in_ptr :: "point \<Rightarrow> nat \<Rightarrow> real"
  time_flux_out_ptr :: "point \<Rightarrow> nat \<Rightarrow> real"
  t_xs_ptr :: "point \<Rightarrow> real"
  ghostx_out_ptr :: "point \<Rightarrow> nat \<Rightarrow> real"
  ghosty_out_ptr :: "point \<Rightarrow> nat \<Rightarrow> real"
  ghostz_out_ptr :: "point \<Rightarrow> nat \<Rightarrow> real"
  qim_ptr :: "point \<Rightarrow> nat \<Rightarrow> real"
  ghostx_in_ptr :: "point \<Rightarrow> nat \<Rightarrow> real"
  ghosty_in_ptr :: "point \<Rightarrow> nat \<Rightarrow> real"
  ghostz_in_ptr :: "point \<Rightarrow> nat \<Rightarrow> real"

record kernel_args =
  origin :: point
  x_range :: int
  y_range :: int
  z_range :: int
  corner :: int
  stride_x_positive :: bool
  stride_y_positive :: bool
  stride_z_positive :: bool
  mms_source :: bool
  num_moments :: int
  hi :: real
  hj :: real
  hk :: real
  vdelt :: real

record cta =
  blockDim :: nat
  thr_angles :: nat
  smid :: nat
  inactive_int :: nat
  inactive_double :: real

record regs =
  psi :: real
  pc :: real
  psii :: real
  psij :: real
  psik :: real
  time_flux_in :: real
  hv_x :: real
  hv_y :: real
  hv_z :: real
  hv_t :: real
  fx_hv_x :: real
  fx_hv_y :: real
  fx_hv_z :: real
  fx_hv_t :: real

record sweep_state =
  registers :: "regs list"
  dev :: device
  mem :: memory

definition warpid :: "nat \<Rightarrow> nat" where "warpid t = t div 32"
definition laneid :: "nat \<Rightarrow> nat" where "laneid t = t mod 32"

definition num_angles :: "cta \<Rightarrow> nat" where
  "num_angles c = thr_angles c * blockDim c"

definition corner_offset :: "cta \<Rightarrow> kernel_args \<Rightarrow> int" where
  "corner_offset c a = corner a * int (num_angles c) * num_moments a"

definition for_angles :: "cta \<Rightarrow> (regs \<Rightarrow> nat \<Rightarrow> regs) \<Rightarrow> regs list \<Rightarrow> regs list" where
  "for_angles c body rs = map (\<lambda>g. body (rs ! g) g) [0..<num_angles c]"

definition thread_total :: "cta \<Rightarrow> (nat \<Rightarrow> nat \<Rightarrow> 'a::comm_monoid_add) \<Rightarrow> nat \<Rightarrow> 'a" where
  "thread_total c term t =
     sum_list (map (\<lambda>ang. term ang (ang * blockDim c + t)) [0..<thr_angles c])"

subsection \<open>Atomics\<close>

definition atomicCAS :: "('k \<Rightarrow> real) \<Rightarrow> 'k \<Rightarrow> real \<Rightarrow> real \<Rightarrow> real \<times> ('k \<Rightarrow> real)" where
  "atomicCAS m address compare val =
     (m address, if m address = compare then m(address := val) else m)"

function atomicAdd_loop :: "('k \<Rightarrow> real) \<Rightarrow> 'k \<Rightarrow> real \<Rightarrow> real \<Rightarrow> ('k \<Rightarrow> real)" where
  "atomicAdd_loop m address value assumed =
     (case atomicCAS m address assumed (value + assumed) of
        (old, m') \<Rightarrow> if assumed \<noteq> old then atomicAdd_loop m' address value old else m')"
  by pat_completeness auto
termination
  by (relation "measure (\<lambda>(m, address, value, assumed). if m address = assumed then 0 else 1)")
     (auto simp: atomicCAS_def split: if_splits)

definition atomicAdd :: "('k \<Rightarrow> real) \<Rightarrow> 'k \<Rightarrow> real \<Rightarrow> ('k \<Rightarrow> real)" where
  "atomicAdd m ptr value = atomicAdd_loop m ptr value (m ptr)"

definition atomicDec :: "nat \<Rightarrow> nat \<Rightarrow> nat" where
  "atomicDec old val = (if old = 0 \<or> old > val then val else old - 1)"

definition atomicInc :: "nat \<Rightarrow> nat \<Rightarrow> nat" where
  "atomicInc old val = (if old \<ge> val then 0 else old + 1)"

subsection \<open>The scratch pool\<close>

primrec scan_chunks :: "nat list \<Rightarrow> nat \<Rightarrow> nat list \<Rightarrow> nat option \<times> nat list" where
  "scan_chunks available sm [] = (None, available)"
| "scan_chunks available sm (i # rest) =
     (let offset = (sm + i) mod MAX_CTA;
          old = available ! offset;
          available' = available[offset := atomicDec old 0]
      in if old = 1 then (Some offset, available') else scan_chunks available' sm rest)"

definition acquire_chunk :: "nat list \<Rightarrow> nat \<Rightarrow> (nat \<times> nat list) option" where
  "acquire_chunk available sm =
     (case scan_chunks available sm [0..<MAX_CTA] of
        (Some chunk, available') \<Rightarrow> Some (chunk, available')
      | (None, available') \<Rightarrow> None)"

definition release_chunk :: "cta \<Rightarrow> nat \<Rightarrow> nat list \<Rightarrow> nat list" where
  "release_chunk c chunk available =
     fold (\<lambda>t av. av[chunk := atomicInc (av ! chunk) 1]) [0..<blockDim c] available"

subsection \<open>Collective reductions\<close>

definition shfl_xor :: "'a \<Rightarrow> 'a list \<Rightarrow> nat \<Rightarrow> nat \<Rightarrow> 'a" where
  "shfl_xor inactive vs i t =
     (let src = 32 * warpid t + (laneid t XOR i)
      in if src < length vs then vs ! src else inactive)"

definition butterfly_step :: "'a::comm_monoid_add \<Rightarrow> nat \<Rightarrow> 'a list \<Rightarrow> 'a list" where
  "butterfly_step inactive i vs =
     map (\<lambda>t. vs ! t + shfl_xor inactive vs i t) [0..<length vs]"

definition warp_butterfly :: "'a::comm_monoid_add \<Rightarrow> 'a list \<Rightarrow> 'a list" where
  "warp_butterfly inactive vs = fold (butterfly_step inactive) [16, 8, 4, 2, 1] vs"

definition trampoline :: "'a::comm_monoid_add \<Rightarrow> 'a list \<Rightarrow> 'a list" where
  "trampoline stale vs =
     map (\<lambda>slot. if 32 * slot < length vs then vs ! (32 * slot)
                 else if slot < length vs then 0 else stale) [0..<32]"

definition cta_sum :: "real \<Rightarrow> real list \<Rightarrow> real" where
  "cta_sum inactive totals =
     (let v1 = warp_butterfly inactive totals;
          tr = trampoline inactive v1;
          warp0 = map (\<lambda>t. tr ! laneid t) [0..<min (length totals) 32];
          v2 = warp_butterfly inactive warp0
      in v2 ! 0)"

text \<open>
  The count reduction of the fixup loop: every thread reads the trampoline at its own lane
  and runs the second butterfly in its own warp, so the result is one count per thread.
\<close>

definition cta_counts :: "nat \<Rightarrow> nat list \<Rightarrow> nat list" where
  "cta_counts inactive counts =
     (let v1 = warp_butterfly inactive counts;
          tr = trampoline inactive v1;
          v = map (\<lambda>t. tr ! laneid t) [0..<length counts]
      in warp_butterfly inactive v)"

definition cta_moment_totals :: "real \<Rightarrow> real list \<Rightarrow> real list" where
  "cta_moment_totals inactive totals =
     (let tr = trampoline inactive totals;
          v = map (\<lambda>t. if warpid t = 0 then tr ! laneid t else totals ! t)
                [0..<length totals]
      in warp_butterfly inactive v)"


subsection \<open>The per-cell update\<close>

definition local_point :: "kernel_args \<Rightarrow> int \<Rightarrow> int \<Rightarrow> int \<Rightarrow> point" where
  "local_point a x y z =
     (case origin a of (ox, oy, oz) \<Rightarrow>
        (if stride_x_positive a then ox + x else ox - x,
         if stride_y_positive a then oy + y else oy - y,
         if stride_z_positive a then oz + z else oz - z))"

definition ghost_point_x :: "kernel_args \<Rightarrow> point \<Rightarrow> point" where
  "ghost_point_x a p =
     (case p of (px, py, pz) \<Rightarrow> (if stride_x_positive a then px - 1 else px + 1, py, pz))"

definition ghost_point_y :: "kernel_args \<Rightarrow> point \<Rightarrow> point" where
  "ghost_point_y a p =
     (case p of (px, py, pz) \<Rightarrow> (px, if stride_y_positive a then py - 1 else py + 1, pz))"

definition ghost_point_z :: "kernel_args \<Rightarrow> point \<Rightarrow> point" where
  "ghost_point_z a p =
     (case p of (px, py, pz) \<Rightarrow> (px, py, if stride_z_positive a then pz - 1 else pz + 1))"

definition pencil_index :: "nat \<Rightarrow> int \<Rightarrow> nat \<Rightarrow> nat" where
  "pencil_index cta_chunk x g = (cta_chunk * nat MAX_X_CHUNK + nat x) * nat MAX_ANGLES + g"

definition plane_index :: "nat \<Rightarrow> int \<Rightarrow> int \<Rightarrow> nat \<Rightarrow> nat" where
  "plane_index cta_chunk y x g =
     ((cta_chunk * nat MAX_Y_CHUNK + nat y) * nat MAX_Y_CHUNK + nat x) * nat MAX_ANGLES + g"

definition angular_source :: "cta \<Rightarrow> kernel_args \<Rightarrow> device \<Rightarrow> memory \<Rightarrow> point \<Rightarrow> nat \<Rightarrow> real" where
  "angular_source c a d m p g =
     (let quad = qtot_ptr m p;
          s = fold (\<lambda>l s. s + device_ec d !
                      nat (corner_offset c a + l * int (num_angles c) + int g) * quad (nat l))
                [1..num_moments a - 1] (quad 0)
      in if mms_source a then s + qim_ptr m p g else s)"

definition initial_solution ::
  "cta \<Rightarrow> kernel_args \<Rightarrow> device \<Rightarrow> memory \<Rightarrow> nat \<Rightarrow> int \<Rightarrow> int \<Rightarrow> int \<Rightarrow> regs \<Rightarrow> nat \<Rightarrow> regs" where
  "initial_solution c a d m cta_chunk x y z r g =
     (let p = local_point a x y z;
          psi' = angular_source c a d m p g;
          psii' = (if x = 0 then ghostx_in_ptr m (ghost_point_x a p) g else psii r);
          psij' = (if y = 0 then ghosty_in_ptr m (ghost_point_y a p) g
                   else yflux_pencils d (pencil_index cta_chunk x g));
          psik' = (if z = 0 then ghostz_in_ptr m (ghost_point_z a p) g
                   else zflux_planes d (plane_index cta_chunk y x g))
      in r\<lparr>psi := psi',
            pc := psi' + psii' * device_mu d ! g * hi a
                       + psij' * device_eta d ! g * hj a
                       + psik' * device_xi d ! g * hk a,
            psii := psii', psij := psij', psik := psik'\<rparr>)"

definition time_term :: "kernel_args \<Rightarrow> memory \<Rightarrow> point \<Rightarrow> regs \<Rightarrow> nat \<Rightarrow> regs" where
  "time_term a m p r g =
     r\<lparr>time_flux_in := time_flux_in_ptr m p g,
       pc := pc r + vdelt a * time_flux_in_ptr m p g\<rparr>"

definition diagonal_solve :: "memory \<Rightarrow> point \<Rightarrow> regs \<Rightarrow> nat \<Rightarrow> regs" where
  "diagonal_solve m p r g = r\<lparr>pc := pc r * dinv_ptr m p g\<rparr>"

definition no_fixup :: "regs \<Rightarrow> regs" where
  "no_fixup r = r\<lparr>psii := 2 * pc r - psii r,
                  psij := 2 * pc r - psij r,
                  psik := 2 * pc r - psik r\<rparr>"

definition tolr :: real where "tolr = 1 / 10 ^ 12"

definition hv_init_td :: "regs \<Rightarrow> regs" where
  "hv_init_td r = r\<lparr>hv_x := 1, hv_y := 1, hv_z := 1, hv_t := 1\<rparr>"

definition hv_init_ti :: "regs \<Rightarrow> regs" where
  "hv_init_ti r = r\<lparr>hv_x := 1, hv_y := 1, hv_z := 1\<rparr>"

definition negative_pass_td :: "regs \<Rightarrow> regs" where
  "negative_pass_td r =
     r\<lparr>fx_hv_x := 2 * pc r - psii r,
       hv_x := (if 2 * pc r - psii r < 0 then 0 else hv_x r),
       fx_hv_y := 2 * pc r - psij r,
       hv_y := (if 2 * pc r - psij r < 0 then 0 else hv_y r),
       fx_hv_z := 2 * pc r - psik r,
       hv_z := (if 2 * pc r - psik r < 0 then 0 else hv_z r),
       fx_hv_t := 2 * pc r - time_flux_in r,
       hv_t := (if 2 * pc r - time_flux_in r < 0 then 0 else hv_t r)\<rparr>"

definition negative_fluxes_td :: "regs \<Rightarrow> nat" where
  "negative_fluxes_td r =
     (if 2 * pc r - psii r < 0 then 1 else 0) +
     (if 2 * pc r - psij r < 0 then 1 else 0) +
     (if 2 * pc r - psik r < 0 then 1 else 0) +
     (if 2 * pc r - time_flux_in r < 0 then 1 else 0)"

definition recompute_td :: "kernel_args \<Rightarrow> device \<Rightarrow> real \<Rightarrow> regs \<Rightarrow> nat \<Rightarrow> regs" where
  "recompute_td a d t_xs r g =
     (let pc' = psi r + 0.5 * (
            psii r * device_mu d ! g * hi a * (1 + hv_x r) +
            psij r * device_eta d ! g * hj a * (1 + hv_y r) +
            psik r * device_xi d ! g * hk a * (1 + hv_z r) +
            time_flux_in r * vdelt a * (1 + hv_t r));
          den = (if pc' \<le> 0 then 0 else (t_xs +
            device_mu d ! g * hi a * hv_x r +
            device_eta d ! g * hj a * hv_y r +
            device_xi d ! g * hk a * hv_z r +
            vdelt a * hv_t r))
      in if den < tolr then r\<lparr>pc := 0\<rparr> else r\<lparr>pc := pc' / den\<rparr>)"

definition negative_pass_ti :: "regs \<Rightarrow> regs" where
  "negative_pass_ti r =
     r\<lparr>fx_hv_x := 2 * pc r - psii r,
       hv_x := (if 2 * pc r - psii r < 0 then 0 else hv_x r),
       fx_hv_y := 2 * pc r - psij r,
       hv_y := (if 2 * pc r - psij r < 0 then 0 else hv_y r),
       fx_hv_z := 2 * pc r - psik r,
       hv_z := (if 2 * pc r - psik r < 0 then 0 else hv_z r)\<rparr>"

definition negative_fluxes_ti :: "regs \<Rightarrow> nat" where
  "negative_fluxes_ti r =
     (if 2 * pc r - psii r < 0 then 1 else 0) +
     (if 2 * pc r - psij r < 0 then 1 else 0) +
     (if 2 * pc r - psik r < 0 then 1 else 0)"

definition recompute_ti :: "kernel_args \<Rightarrow> device \<Rightarrow> real \<Rightarrow> regs \<Rightarrow> nat \<Rightarrow> regs" where
  "recompute_ti a d t_xs r g =
     (let pc' = psi r + 0.5 * (
            psii r * device_mu d ! g * hi a * (1 + hv_x r) +
            psij r * device_eta d ! g * hj a * (1 + hv_y r) +
            psik r * device_xi d ! g * hk a * (1 + hv_z r));
          den = (if pc' \<le> 0 then 0 else (t_xs +
            device_mu d ! g * hi a * hv_x r +
            device_eta d ! g * hj a * hv_y r +
            device_xi d ! g * hk a * hv_z r))
      in if den < tolr then r\<lparr>pc := 0\<rparr> else r\<lparr>pc := pc' / den\<rparr>)"

text \<open>
  One pass of the \<open>while (true)\<close> loop of the fixup: the count of negative trial fluxes
  each thread holds after the count reduction, and the registers of the next pass.
\<close>

definition negative_counts_td :: "cta \<Rightarrow> regs list \<Rightarrow> nat list" where
  "negative_counts_td c rs =
     cta_counts (inactive_int c)
       (map (thread_total c (\<lambda>ang g. negative_fluxes_td (rs ! g))) [0..<blockDim c])"

definition fixup_step_td :: "cta \<Rightarrow> kernel_args \<Rightarrow> device \<Rightarrow> real \<Rightarrow> regs list \<Rightarrow> regs list" where
  "fixup_step_td c a d t_xs rs =
     for_angles c (recompute_td a d t_xs) (map negative_pass_td rs)"

definition negative_counts_ti :: "cta \<Rightarrow> regs list \<Rightarrow> nat list" where
  "negative_counts_ti c rs =
     cta_counts (inactive_int c)
       (map (thread_total c (\<lambda>ang g. negative_fluxes_ti (rs ! g))) [0..<blockDim c])"

definition fixup_step_ti :: "cta \<Rightarrow> kernel_args \<Rightarrow> device \<Rightarrow> real \<Rightarrow> regs list \<Rightarrow> regs list" where
  "fixup_step_ti c a d t_xs rs =
     for_angles c (recompute_ti a d t_xs) (map negative_pass_ti rs)"

text \<open>
  The loop itself. Every thread has its own \<open>old_negative_fluxes\<close>, 0 at first, and
  leaves the loop when its own count equals it. The threads that stay go on to the
  \<open>__syncthreads()\<close> of the next pass, where the threads that left do not arrive: when
  some threads leave and others stay, what the block does is undefined, the fault
  \<open>DivergentBarrier\<close>. The first argument bounds the number of times the loop body is
  entered; \<open>None\<close> says that the bound was too small.
\<close>

datatype fault = DivergentBarrier

fun fixup_loop_td ::
  "nat \<Rightarrow> cta \<Rightarrow> kernel_args \<Rightarrow> device \<Rightarrow> real \<Rightarrow> regs list \<Rightarrow> nat list \<Rightarrow>
   (fault + regs list) option" where
  "fixup_loop_td 0 c a d t_xs rs old_negative_fluxes = None"
| "fixup_loop_td (Suc fuel) c a d t_xs rs old_negative_fluxes =
     (let negative_fluxes = negative_counts_td c rs;
          leaving = filter (\<lambda>t. negative_fluxes ! t = old_negative_fluxes ! t) [0..<blockDim c]
      in if length leaving = blockDim c then Some (Inr (map negative_pass_td rs))
         else if leaving \<noteq> [] then Some (Inl DivergentBarrier)
         else fixup_loop_td fuel c a d t_xs (fixup_step_td c a d t_xs rs) negative_fluxes)"

fun fixup_loop_ti ::
  "nat \<Rightarrow> cta \<Rightarrow> kernel_args \<Rightarrow> device \<Rightarrow> real \<Rightarrow> regs list \<Rightarrow> nat list \<Rightarrow>
   (fault + regs list) option" where
  "fixup_loop_ti 0 c a d t_xs rs old_negative_fluxes = None"
| "fixup_loop_ti (Suc fuel) c a d t_xs rs old_negative_fluxes =
     (let negative_fluxes = negative_counts_ti c rs;
          leaving = filter (\<lambda>t. negative_fluxes ! t = old_negative_fluxes ! t) [0..<blockDim c]
      in if length leaving = blockDim c then Some (Inr (map negative_pass_ti rs))
         else if leaving \<noteq> [] then Some (Inl DivergentBarrier)
         else fixup_loop_ti fuel c a d t_xs (fixup_step_ti c a d t_xs rs) negative_fluxes)"

definition fixup_done :: "regs \<Rightarrow> regs" where
  "fixup_done r = r\<lparr>psii := fx_hv_x r * hv_x r,
                    psij := fx_hv_y r * hv_y r,
                    psik := fx_hv_z r * hv_z r\<rparr>"


definition angle_read :: "(point \<Rightarrow> nat \<Rightarrow> real) \<Rightarrow> point \<Rightarrow> nat \<Rightarrow> real" where
  "angle_read ptr p g = ptr p g"

definition angle_write ::
  "(point \<Rightarrow> nat \<Rightarrow> real) \<Rightarrow> point \<Rightarrow> nat \<Rightarrow> real \<Rightarrow> (point \<Rightarrow> nat \<Rightarrow> real)" where
  "angle_write ptr p g val = ptr(p := (ptr p)(g := val))"

definition write_time_flux_out ::
  "cta \<Rightarrow> kernel_args \<Rightarrow> int \<Rightarrow> int \<Rightarrow> int \<Rightarrow> (regs \<Rightarrow> real) \<Rightarrow> sweep_state \<Rightarrow> sweep_state" where
  "write_time_flux_out c a x y z time_flux_out s =
     s\<lparr>mem := (mem s)\<lparr>time_flux_out_ptr :=
          fold (\<lambda>g ptr. angle_write ptr (local_point a x y z) g (time_flux_out (registers s ! g)))
            [0..<num_angles c] (time_flux_out_ptr (mem s))\<rparr>\<rparr>"

definition write_ghosts ::
  "cta \<Rightarrow> kernel_args \<Rightarrow> nat \<Rightarrow> int \<Rightarrow> int \<Rightarrow> int \<Rightarrow> sweep_state \<Rightarrow> sweep_state" where
  "write_ghosts c a cta_chunk x y z s =
     (let p = local_point a x y z;
          rs = registers s;
          gs = [0..<num_angles c];
          m0 = mem s;
          d0 = dev s;
          m1 = (if x = x_range a - 1
                then m0\<lparr>ghostx_out_ptr :=
                       fold (\<lambda>g ptr. angle_write ptr p g (psii (rs ! g))) gs (ghostx_out_ptr m0)\<rparr>
                else m0);
          m2 = (if y = y_range a - 1
                then m1\<lparr>ghosty_out_ptr :=
                       fold (\<lambda>g ptr. angle_write ptr p g (psij (rs ! g))) gs (ghosty_out_ptr m1)\<rparr>
                else m1);
          d1 = (if y = y_range a - 1 then d0
                else d0\<lparr>yflux_pencils :=
                       fold (\<lambda>g f. f(pencil_index cta_chunk x g := psij (rs ! g))) gs
                         (yflux_pencils d0)\<rparr>);
          m3 = (if z = z_range a - 1
                then m2\<lparr>ghostz_out_ptr :=
                       fold (\<lambda>g ptr. angle_write ptr p g (psik (rs ! g))) gs (ghostz_out_ptr m2)\<rparr>
                else m2);
          d2 = (if z = z_range a - 1 then d1
                else d1\<lparr>zflux_planes :=
                       fold (\<lambda>g f. f(plane_index cta_chunk y x g := psik (rs ! g))) gs
                         (zflux_planes d1)\<rparr>)
      in s\<lparr>dev := d2, mem := m3\<rparr>)"

definition moment_totals :: "cta \<Rightarrow> kernel_args \<Rightarrow> device \<Rightarrow> regs list \<Rightarrow> int \<Rightarrow> real list" where
  "moment_totals c a d rs l =
     (let offset = l * int (num_angles c) + corner a * int (num_angles c) * num_moments a
      in cta_moment_totals (inactive_double c)
           (map (thread_total c (\<lambda>ang g. device_ec d ! nat (offset + int ang) * psi (rs ! g)))
              [0..<blockDim c]))"

definition moment_reduction ::
  "cta \<Rightarrow> kernel_args \<Rightarrow> device \<Rightarrow> regs list \<Rightarrow> point \<Rightarrow> int \<Rightarrow> memory \<Rightarrow> memory" where
  "moment_reduction c a d rs p l m =
     m\<lparr>fluxm_ptr :=
         fold (\<lambda>t ptr. ptr(p := atomicAdd (ptr p) (nat (l - 1)) (moment_totals c a d rs l ! t)))
           (filter (\<lambda>t. laneid t = 0) [0..<blockDim c]) (fluxm_ptr m)\<rparr>"

definition flux_total :: "cta \<Rightarrow> regs list \<Rightarrow> real" where
  "flux_total c rs =
     cta_sum (inactive_double c)
       (map (thread_total c (\<lambda>ang g. psi (rs ! g))) [0..<blockDim c])"

definition flux_moments ::
  "cta \<Rightarrow> kernel_args \<Rightarrow> int \<Rightarrow> int \<Rightarrow> int \<Rightarrow> sweep_state \<Rightarrow> sweep_state" where
  "flux_moments c a x y z s =
     (let p = local_point a x y z;
          d = dev s;
          rs = for_angles c (\<lambda>r g. r\<lparr>psi := device_w d ! g * pc r\<rparr>) (registers s);
          m1 = (mem s)\<lparr>flux_ptr := atomicAdd (flux_ptr (mem s)) p (flux_total c rs)\<rparr>;
          m2 = fold (moment_reduction c a d rs p) [1..num_moments a - 1] m1
      in s\<lparr>registers := rs, mem := m2\<rparr>)"

subsection \<open>One cell of each kernel\<close>

text \<open>
  The registers of all angles when the fixup loop is entered. A cell of a kernel with fixup
  is \<open>None\<close> when the block does not come out of the fixup loop together: the bound on
  the passes was too small, or the threads diverged.
\<close>

definition fixup_entry_td ::
  "cta \<Rightarrow> kernel_args \<Rightarrow> nat \<Rightarrow> int \<Rightarrow> int \<Rightarrow> int \<Rightarrow> sweep_state \<Rightarrow> regs list" where
  "fixup_entry_td c a cta_chunk x y z s =
     (let p = local_point a x y z;
          rs1 = for_angles c (initial_solution c a (dev s) (mem s) cta_chunk x y z) (registers s);
          rs2 = for_angles c (time_term a (mem s) p) rs1;
          rs3 = for_angles c (diagonal_solve (mem s) p) rs2
      in map hv_init_td rs3)"

definition fixup_entry_ti ::
  "cta \<Rightarrow> kernel_args \<Rightarrow> nat \<Rightarrow> int \<Rightarrow> int \<Rightarrow> int \<Rightarrow> sweep_state \<Rightarrow> regs list" where
  "fixup_entry_ti c a cta_chunk x y z s =
     (let p = local_point a x y z;
          rs1 = for_angles c (initial_solution c a (dev s) (mem s) cta_chunk x y z) (registers s);
          rs3 = for_angles c (diagonal_solve (mem s) p) rs1
      in map hv_init_ti rs3)"

definition cell_time_dependent_with_fixup ::
  "nat \<Rightarrow> cta \<Rightarrow> kernel_args \<Rightarrow> nat \<Rightarrow> int \<times> int \<times> int \<Rightarrow> sweep_state \<Rightarrow> sweep_state option" where
  "cell_time_dependent_with_fixup fuel c a cta_chunk xyz s =
     (case xyz of (x, y, z) \<Rightarrow>
      case fixup_loop_td fuel c a (dev s) (t_xs_ptr (mem s) (local_point a x y z))
             (fixup_entry_td c a cta_chunk x y z s) (replicate (blockDim c) 0) of
        Some (Inr rs5) \<Rightarrow>
          Some (flux_moments c a x y z
                 (write_ghosts c a cta_chunk x y z
                   (write_time_flux_out c a x y z (\<lambda>r. fx_hv_t r * hv_t r)
                     (s\<lparr>registers := map fixup_done rs5\<rparr>))))
      | _ \<Rightarrow> None)"

definition cell_time_dependent_without_fixup ::
  "cta \<Rightarrow> kernel_args \<Rightarrow> nat \<Rightarrow> int \<times> int \<times> int \<Rightarrow> sweep_state \<Rightarrow> sweep_state" where
  "cell_time_dependent_without_fixup c a cta_chunk xyz s =
     (case xyz of (x, y, z) \<Rightarrow>
      let p = local_point a x y z;
          rs1 = for_angles c (initial_solution c a (dev s) (mem s) cta_chunk x y z) (registers s);
          rs2 = for_angles c (time_term a (mem s) p) rs1;
          rs3 = for_angles c (diagonal_solve (mem s) p) rs2
      in flux_moments c a x y z
           (write_ghosts c a cta_chunk x y z
             (write_time_flux_out c a x y z (\<lambda>r. 2 * pc r - time_flux_in r)
               (s\<lparr>registers := map no_fixup rs3\<rparr>))))"

definition cell_time_independent_with_fixup ::
  "nat \<Rightarrow> cta \<Rightarrow> kernel_args \<Rightarrow> nat \<Rightarrow> int \<times> int \<times> int \<Rightarrow> sweep_state \<Rightarrow> sweep_state option" where
  "cell_time_independent_with_fixup fuel c a cta_chunk xyz s =
     (case xyz of (x, y, z) \<Rightarrow>
      case fixup_loop_ti fuel c a (dev s) (t_xs_ptr (mem s) (local_point a x y z))
             (fixup_entry_ti c a cta_chunk x y z s) (replicate (blockDim c) 0) of
        Some (Inr rs5) \<Rightarrow>
          Some (flux_moments c a x y z
                 (write_ghosts c a cta_chunk x y z
                   (s\<lparr>registers := map fixup_done rs5\<rparr>)))
      | _ \<Rightarrow> None)"

definition cell_time_independent_without_fixup ::
  "cta \<Rightarrow> kernel_args \<Rightarrow> nat \<Rightarrow> int \<times> int \<times> int \<Rightarrow> sweep_state \<Rightarrow> sweep_state" where
  "cell_time_independent_without_fixup c a cta_chunk xyz s =
     (case xyz of (x, y, z) \<Rightarrow>
      let p = local_point a x y z;
          rs1 = for_angles c (initial_solution c a (dev s) (mem s) cta_chunk x y z) (registers s);
          rs3 = for_angles c (diagonal_solve (mem s) p) rs1
      in flux_moments c a x y z
           (write_ghosts c a cta_chunk x y z
             (s\<lparr>registers := map no_fixup rs3\<rparr>)))"

subsection \<open>The kernels\<close>

definition sweep_cells :: "kernel_args \<Rightarrow> (int \<times> int \<times> int) list" where
  "sweep_cells a =
     concat (map (\<lambda>z. concat (map (\<lambda>y. map (\<lambda>x. (x, y, z)) [0..x_range a - 1])
                                 [0..y_range a - 1]))
               [0..z_range a - 1])"

primrec for_cells ::
  "('c \<Rightarrow> 's \<Rightarrow> 's option) \<Rightarrow> 'c list \<Rightarrow> 's \<Rightarrow> 's option" where
  "for_cells body [] s = Some s"
| "for_cells body (xyz # rest) s =
     (case body xyz s of None \<Rightarrow> None | Some s' \<Rightarrow> for_cells body rest s')"

definition uninitialised :: regs where
  "uninitialised = \<lparr>psi = 0, pc = 0, psii = 0, psij = 0, psik = 0, time_flux_in = 0,
     hv_x = 0, hv_y = 0, hv_z = 0, hv_t = 0,
     fx_hv_x = 0, fx_hv_y = 0, fx_hv_z = 0, fx_hv_t = 0\<rparr>"

definition run_cta ::
  "cta \<Rightarrow> (nat \<Rightarrow> int \<times> int \<times> int \<Rightarrow> sweep_state \<Rightarrow> sweep_state option) \<Rightarrow> kernel_args \<Rightarrow>
   device \<Rightarrow> memory \<Rightarrow> (device \<times> memory) option" where
  "run_cta c cell a d m =
     (if blockDim c = 0 then Some (d, m)
      else case acquire_chunk (available_chunks d) (smid c) of
          None \<Rightarrow> None
        | Some (cta_chunk, available) \<Rightarrow>
            (case for_cells (cell cta_chunk) (sweep_cells a)
                    \<lparr>registers = replicate (num_angles c) uninitialised,
                     dev = d\<lparr>available_chunks := available\<rparr>, mem = m\<rparr> of
               None \<Rightarrow> None
             | Some s \<Rightarrow>
                 Some ((dev s)\<lparr>available_chunks :=
                          release_chunk c cta_chunk (available_chunks (dev s))\<rparr>, mem s)))"

definition gpu_time_dependent_sweep_with_fixup ::
  "nat \<Rightarrow> cta \<Rightarrow> kernel_args \<Rightarrow> device \<Rightarrow> memory \<Rightarrow> (device \<times> memory) option" where
  "gpu_time_dependent_sweep_with_fixup fuel c a d m =
     run_cta c (cell_time_dependent_with_fixup fuel c a) a d m"

definition gpu_time_dependent_sweep_without_fixup ::
  "cta \<Rightarrow> kernel_args \<Rightarrow> device \<Rightarrow> memory \<Rightarrow> (device \<times> memory) option" where
  "gpu_time_dependent_sweep_without_fixup c a d m =
     run_cta c (\<lambda>cta_chunk xyz s. Some (cell_time_dependent_without_fixup c a cta_chunk xyz s))
       a d m"

definition gpu_time_independent_sweep_with_fixup ::
  "nat \<Rightarrow> cta \<Rightarrow> kernel_args \<Rightarrow> device \<Rightarrow> memory \<Rightarrow> (device \<times> memory) option" where
  "gpu_time_independent_sweep_with_fixup fuel c a d m =
     run_cta c (cell_time_independent_with_fixup fuel c a) a d m"

definition gpu_time_independent_sweep_without_fixup ::
  "cta \<Rightarrow> kernel_args \<Rightarrow> device \<Rightarrow> memory \<Rightarrow> (device \<times> memory) option" where
  "gpu_time_independent_sweep_without_fixup c a d m =
     run_cta c (\<lambda>cta_chunk xyz s. Some (cell_time_independent_without_fixup c a cta_chunk xyz s))
       a d m"

subsection \<open>Example inputs\<close>


definition example_cta :: cta where
  "example_cta = \<lparr>blockDim = 2, thr_angles = 1, smid = 0, inactive_int = 0, inactive_double = 0\<rparr>"

definition example_args :: kernel_args where
  "example_args = \<lparr>origin = (0, 0, 0), x_range = 2, y_range = 2, z_range = 2, corner = 0,
     stride_x_positive = True, stride_y_positive = True, stride_z_positive = True,
     mms_source = False, num_moments = 1, hi = 1, hj = 1, hk = 1, vdelt = 0\<rparr>"

definition example_device :: device where
  "example_device = \<lparr>available_chunks = replicate 32 1, device_ec = replicate 16 0,
     device_mu = [1, 1], device_eta = [1, 1], device_xi = [1, 1], device_w = [1, 1],
     yflux_pencils = (\<lambda>_. 0), zflux_planes = (\<lambda>_. 0)\<rparr>"

definition zero_memory :: memory where
  "zero_memory = \<lparr>qtot_ptr = (\<lambda>_ _. 0), flux_ptr = (\<lambda>_. 0), fluxm_ptr = (\<lambda>_ _. 0),
     dinv_ptr = (\<lambda>_ _. 0), time_flux_in_ptr = (\<lambda>_ _. 0), time_flux_out_ptr = (\<lambda>_ _. 0),
     t_xs_ptr = (\<lambda>_. 1), ghostx_out_ptr = (\<lambda>_ _. 0), ghosty_out_ptr = (\<lambda>_ _. 0),
     ghostz_out_ptr = (\<lambda>_ _. 0), qim_ptr = (\<lambda>_ _. 0), ghostx_in_ptr = (\<lambda>_ _. 0),
     ghosty_in_ptr = (\<lambda>_ _. 0), ghostz_in_ptr = (\<lambda>_ _. 0)\<rparr>"

definition zero_state :: sweep_state where
  "zero_state = \<lparr>registers = replicate 2 uninitialised, dev = example_device, mem = zero_memory\<rparr>"

subsection \<open>Measures used in the proofs about the fixup loop\<close>

text \<open>
  A block in which every thread holds the same count after the count reduction: whole
  lockstep groups (at most 32 of them), or a single thread. On such a block
  \<open>cta_count\<close> is the count that every thread holds, and the fixup loop is the loop
  \<open>uniform_loop\<close> on that one count.
\<close>

definition agreeing_block :: "cta \<Rightarrow> bool" where
  "agreeing_block c \<longleftrightarrow>
     blockDim c = 1 \<or> (0 < blockDim c \<and> blockDim c mod 32 = 0 \<and> blockDim c \<le> 1024)"

definition cta_count :: "nat \<Rightarrow> nat list \<Rightarrow> nat" where
  "cta_count inactive counts = cta_counts inactive counts ! 0"

definition negative_count_td :: "cta \<Rightarrow> regs list \<Rightarrow> nat" where
  "negative_count_td c rs =
     cta_count (inactive_int c)
       (map (thread_total c (\<lambda>ang g. negative_fluxes_td (rs ! g))) [0..<blockDim c])"

definition negative_count_ti :: "cta \<Rightarrow> regs list \<Rightarrow> nat" where
  "negative_count_ti c rs =
     cta_count (inactive_int c)
       (map (thread_total c (\<lambda>ang g. negative_fluxes_ti (rs ! g))) [0..<blockDim c])"

fun uniform_loop_td ::
  "nat \<Rightarrow> cta \<Rightarrow> kernel_args \<Rightarrow> device \<Rightarrow> real \<Rightarrow> regs list \<Rightarrow> nat \<Rightarrow> regs list option" where
  "uniform_loop_td 0 c a d t_xs rs old_negative_fluxes = None"
| "uniform_loop_td (Suc fuel) c a d t_xs rs old_negative_fluxes =
     (let negative_fluxes = negative_count_td c rs
      in if negative_fluxes = old_negative_fluxes then Some (map negative_pass_td rs)
         else uniform_loop_td fuel c a d t_xs (fixup_step_td c a d t_xs rs) negative_fluxes)"

fun uniform_loop_ti ::
  "nat \<Rightarrow> cta \<Rightarrow> kernel_args \<Rightarrow> device \<Rightarrow> real \<Rightarrow> regs list \<Rightarrow> nat \<Rightarrow> regs list option" where
  "uniform_loop_ti 0 c a d t_xs rs old_negative_fluxes = None"
| "uniform_loop_ti (Suc fuel) c a d t_xs rs old_negative_fluxes =
     (let negative_fluxes = negative_count_ti c rs
      in if negative_fluxes = old_negative_fluxes then Some (map negative_pass_ti rs)
         else uniform_loop_ti fuel c a d t_xs (fixup_step_ti c a d t_xs rs) negative_fluxes)"

text \<open>
  The number of half-weight flags of one angle that are not yet zero, and one pass of the
  loop as one angle sees it.
\<close>

definition flags_td :: "regs \<Rightarrow> nat" where
  "flags_td r = (if hv_x r = 0 then 0 else 1) + (if hv_y r = 0 then 0 else 1)
              + (if hv_z r = 0 then 0 else 1) + (if hv_t r = 0 then 0 else 1)"

definition fixup_angle_td :: "kernel_args \<Rightarrow> device \<Rightarrow> real \<Rightarrow> nat \<Rightarrow> regs \<Rightarrow> regs" where
  "fixup_angle_td a d t_xs g r = recompute_td a d t_xs (negative_pass_td r) g"

definition flags_ti :: "regs \<Rightarrow> nat" where
  "flags_ti r = (if hv_x r = 0 then 0 else 1) + (if hv_y r = 0 then 0 else 1)
              + (if hv_z r = 0 then 0 else 1)"

definition fixup_angle_ti :: "kernel_args \<Rightarrow> device \<Rightarrow> real \<Rightarrow> nat \<Rightarrow> regs \<Rightarrow> regs" where
  "fixup_angle_ti a d t_xs g r = recompute_ti a d t_xs (negative_pass_ti r) g"

text \<open>
  Inputs for the fixup loop. One lane with one angle: source 0, incoming edge fluxes 10, 1
  and 1, cross-section 20, cosines and inverse spacings 1, and \<open>dinv = 1/23\<close>, the
  inverse of the cross-section plus the three cosine terms.
\<close>

definition one_lane :: "nat \<Rightarrow> cta" where
  "one_lane u = \<lparr>blockDim = 1, thr_angles = 1, smid = 0, inactive_int = u, inactive_double = 0\<rparr>"

definition fixup_memory :: memory where
  "fixup_memory = \<lparr>qtot_ptr = (\<lambda>_ _. 0), flux_ptr = (\<lambda>_. 0), fluxm_ptr = (\<lambda>_ _. 0),
     dinv_ptr = (\<lambda>_ _. 1 / 23), time_flux_in_ptr = (\<lambda>_ _. 0), time_flux_out_ptr = (\<lambda>_ _. 0),
     t_xs_ptr = (\<lambda>_. 20), ghostx_out_ptr = (\<lambda>_ _. 0), ghosty_out_ptr = (\<lambda>_ _. 0),
     ghostz_out_ptr = (\<lambda>_ _. 0), qim_ptr = (\<lambda>_ _. 0), ghostx_in_ptr = (\<lambda>_ _. 10),
     ghosty_in_ptr = (\<lambda>_ _. 1), ghostz_in_ptr = (\<lambda>_ _. 1)\<rparr>"

definition fixup_state :: sweep_state where
  "fixup_state = \<lparr>registers = replicate 1 uninitialised, dev = example_device,
     mem = fixup_memory\<rparr>"










text \<open>Every half-weight flag of an angle is 0 or 1.\<close>

definition half_weights_td :: "regs \<Rightarrow> bool" where
  "half_weights_td r = ((hv_x r = 0 \<or> hv_x r = 1) \<and> (hv_y r = 0 \<or> hv_y r = 1)
     \<and> (hv_z r = 0 \<or> hv_z r = 1) \<and> (hv_t r = 0 \<or> hv_t r = 1))"

definition half_weights_ti :: "regs \<Rightarrow> bool" where
  "half_weights_ti r = ((hv_x r = 0 \<or> hv_x r = 1) \<and> (hv_y r = 0 \<or> hv_y r = 1)
     \<and> (hv_z r = 0 \<or> hv_z r = 1))"

subsection \<open>An input for the moment reduction\<close>

text \<open>
  One compute unit of one full lockstep group (32 lanes, one angle each) sweeping a single
  cell with two moments; \<open>moment_state\<close> is the state of the compute unit once it has taken
  slot 0 of the scratch pool. \<open>moment_sum\<close> is the sum the specification gives for the
  value added to the field of moment \<open>l\<close>, with the table \<open>ec\<close> indexed as in the
  angular-source step.
\<close>

definition one_warp :: "nat \<Rightarrow> real \<Rightarrow> cta" where
  "one_warp ui ud =
     \<lparr>blockDim = 32, thr_angles = 1, smid = 0, inactive_int = ui, inactive_double = ud\<rparr>"

definition moment_args :: kernel_args where
  "moment_args = \<lparr>origin = (0, 0, 0), x_range = 1, y_range = 1, z_range = 1, corner = 0,
     stride_x_positive = True, stride_y_positive = True, stride_z_positive = True,
     mms_source = False, num_moments = 2, hi = 1, hj = 1, hk = 1, vdelt = 0\<rparr>"

definition moment_device :: device where
  "moment_device = \<lparr>available_chunks = replicate 32 1, device_ec = replicate 64 1,
     device_mu = replicate 32 0, device_eta = replicate 32 0, device_xi = replicate 32 0,
     device_w = replicate 32 1, yflux_pencils = (\<lambda>_. 0), zflux_planes = (\<lambda>_. 0)\<rparr>"

definition moment_memory :: memory where
  "moment_memory = \<lparr>qtot_ptr = (\<lambda>_ l. if l = 0 then 1 else 0), flux_ptr = (\<lambda>_. 0),
     fluxm_ptr = (\<lambda>_ _. 0), dinv_ptr = (\<lambda>_ _. 1), time_flux_in_ptr = (\<lambda>_ _. 0),
     time_flux_out_ptr = (\<lambda>_ _. 0), t_xs_ptr = (\<lambda>_. 1), ghostx_out_ptr = (\<lambda>_ _. 0),
     ghosty_out_ptr = (\<lambda>_ _. 0), ghostz_out_ptr = (\<lambda>_ _. 0), qim_ptr = (\<lambda>_ _. 0),
     ghostx_in_ptr = (\<lambda>_ _. 0), ghosty_in_ptr = (\<lambda>_ _. 0), ghostz_in_ptr = (\<lambda>_ _. 0)\<rparr>"

definition moment_state :: sweep_state where
  "moment_state = \<lparr>registers = replicate 32 uninitialised,
     dev = moment_device\<lparr>available_chunks := (replicate 32 1)[0 := 0]\<rparr>,
     mem = moment_memory\<rparr>"

definition moment_sum :: "cta \<Rightarrow> kernel_args \<Rightarrow> device \<Rightarrow> regs list \<Rightarrow> int \<Rightarrow> real" where
  "moment_sum c a d rs l =
     (\<Sum>g<num_angles c.
        device_ec d ! nat (corner a * num_moments a * int (num_angles c)
                            + l * int (num_angles c) + int g)
        * (device_w d ! g * pc (rs ! g)))"

subsection \<open>The kernel of a launch\<close>

text \<open>
  The kernel that a launch of the dispatcher runs; \<open>fuel\<close> bounds the passes of the
  fixup loop in the two kernels that have one.
\<close>

definition run_kernel ::
  "kernel \<Rightarrow> nat \<Rightarrow> cta \<Rightarrow> kernel_args \<Rightarrow> device \<Rightarrow> memory \<Rightarrow> (device \<times> memory) option" where
  "run_kernel k fuel =
     (case k of
        TimeDependentWithFixup \<Rightarrow> gpu_time_dependent_sweep_with_fixup fuel
      | TimeDependentWithoutFixup \<Rightarrow> gpu_time_dependent_sweep_without_fixup
      | TimeIndependentWithFixup \<Rightarrow> gpu_time_independent_sweep_with_fixup fuel
      | TimeIndependentWithoutFixup \<Rightarrow> gpu_time_independent_sweep_without_fixup)"

subsection \<open>What a kernel reads, and what it adds to\<close>

text \<open>
  The points of the chunk, the fields a kernel only reads, and the frame of one cell: the
  read-only fields are kept and the scalar flux and the flux moments of every other point
  are kept.
\<close>

definition chunk_points :: "kernel_args \<Rightarrow> point set" where
  "chunk_points a = (\<lambda>(x, y, z). local_point a x y z) ` set (sweep_cells a)"

definition read_only_inputs ::
  "memory \<Rightarrow> (point \<Rightarrow> nat \<Rightarrow> real) \<times> (point \<Rightarrow> nat \<Rightarrow> real) \<times> (point \<Rightarrow> real) \<times>
     (point \<Rightarrow> nat \<Rightarrow> real) \<times> (point \<Rightarrow> nat \<Rightarrow> real) \<times> (point \<Rightarrow> nat \<Rightarrow> real) \<times>
     (point \<Rightarrow> nat \<Rightarrow> real) \<times> (point \<Rightarrow> nat \<Rightarrow> real)" where
  "read_only_inputs m =
     (qtot_ptr m, dinv_ptr m, t_xs_ptr m, qim_ptr m, time_flux_in_ptr m,
      ghostx_in_ptr m, ghosty_in_ptr m, ghostz_in_ptr m)"

definition cell_frame :: "kernel_args \<Rightarrow> int \<times> int \<times> int \<Rightarrow> sweep_state \<Rightarrow> sweep_state \<Rightarrow> bool" where
  "cell_frame a xyz s s' \<longleftrightarrow>
     read_only_inputs (mem s') = read_only_inputs (mem s) \<and>
     (\<forall>q. q \<noteq> (case xyz of (x, y, z) \<Rightarrow> local_point a x y z) \<longrightarrow>
        flux_ptr (mem s') q = flux_ptr (mem s) q \<and> fluxm_ptr (mem s') q = fluxm_ptr (mem s) q)"

text \<open>
  A memory with the scalar flux and the flux moments set to zero, and a memory with given
  values added to them: a kernel that only ever adds to these two fields gives, on the second,
  the result it gives on the first with the same values added.
\<close>

definition cleared :: "memory \<Rightarrow> memory" where
  "cleared m = m\<lparr>flux_ptr := (\<lambda>_. 0), fluxm_ptr := (\<lambda>_ _. 0)\<rparr>"

definition shifted :: "(point \<Rightarrow> real) \<Rightarrow> (point \<Rightarrow> nat \<Rightarrow> real) \<Rightarrow> memory \<Rightarrow> memory" where
  "shifted f fm m =
     m\<lparr>flux_ptr := (\<lambda>p. f p + flux_ptr m p), fluxm_ptr := (\<lambda>p l. fm p l + fluxm_ptr m p l)\<rparr>"

definition shift_state ::
  "(point \<Rightarrow> real) \<Rightarrow> (point \<Rightarrow> nat \<Rightarrow> real) \<Rightarrow> sweep_state \<Rightarrow> sweep_state" where
  "shift_state f fm s = s\<lparr>mem := shifted f fm (mem s)\<rparr>"

subsection \<open>The end-to-end scenario\<close>

text \<open>
  Two angles on two lanes; a shuffle that reads a lane outside the block gives \<open>u\<close>.
  \<open>cell_pc\<close> is the value of the diagonal solve of a cell in the time-independent
  kernels, \<open>scenario_start\<close> the state of the compute unit once it has taken slot 0 of
  the scratch pool. The memory of the scenario has source 1 and \<open>dinv = 1/2\<close> everywhere
  and zero ghost cells; \<open>still_device\<close> has zero direction cosines.
\<close>

definition two_lanes :: "real \<Rightarrow> cta" where
  "two_lanes u = \<lparr>blockDim = 2, thr_angles = 1, smid = 0, inactive_int = 0, inactive_double = u\<rparr>"

definition cell_pc ::
  "cta \<Rightarrow> kernel_args \<Rightarrow> nat \<Rightarrow> int \<Rightarrow> int \<Rightarrow> int \<Rightarrow> sweep_state \<Rightarrow> nat \<Rightarrow> real" where
  "cell_pc c a k x y z s g =
     pc (diagonal_solve (mem s) (local_point a x y z)
          (initial_solution c a (dev s) (mem s) k x y z (registers s ! g) g) g)"

definition cosines :: "device \<Rightarrow> real list \<times> real list \<times> real list \<times> real list" where
  "cosines d = (device_mu d, device_eta d, device_xi d, device_w d)"

definition scenario_start :: "device \<Rightarrow> memory \<Rightarrow> sweep_state" where
  "scenario_start d m = \<lparr>registers = replicate 2 uninitialised,
     dev = d\<lparr>available_chunks := (available_chunks d)[0 := 0]\<rparr>, mem = m\<rparr>"

definition scenario_memory :: memory where
  "scenario_memory = zero_memory\<lparr>qtot_ptr := (\<lambda>_ _. 1), dinv_ptr := (\<lambda>_ _. 1 / 2)\<rparr>"

definition still_device :: device where
  "still_device = example_device\<lparr>device_mu := [0, 0], device_eta := [0, 0], device_xi := [0, 0]\<rparr>"

definition accumulated_memory :: memory where
  "accumulated_memory = scenario_memory\<lparr>flux_ptr := (\<lambda>_. 3), fluxm_ptr := (\<lambda>_ _. 5)\<rparr>"

section \<open>Initialisation and dispatch: properties\<close>










lemma ceil_div_1024:
  fixes na :: int
  shows "(na + 1023) div 1024 = - ((- na) div 1024)"
proof -
  define q where "q = na div 1024"
  define r where "r = na mod 1024"
  have na: "na = 1024 * q + r" and r: "0 \<le> r" "r < 1024"
    by (simp_all add: q_def r_def)
  show ?thesis
  proof (cases "r = 0")
    case True
    have "(na + 1023) div 1024 = q"
      by (rule int_div_pos_eq [where r = 1023]) (simp_all add: na True)
    moreover have "(- na) div 1024 = - q"
      by (rule int_div_pos_eq [where r = 0]) (simp_all add: na True)
    ultimately show ?thesis by simp
  next
    case False
    have "(na + 1023) div 1024 = q + 1"
      using r False by (intro int_div_pos_eq [where r = "r - 1"]) (simp_all add: na)
    moreover have "(- na) div 1024 = - q - 1"
      using r False by (intro int_div_pos_eq [where r = "1024 - r"]) (simp_all add: na)
    ultimately show ?thesis by simp
  qed
qed

lemma angles_per_thread_div:
  "0 \<le> na \<Longrightarrow> angles_per_thread_of na = (na + 1023) div 1024"
  by (simp add: angles_per_thread_of_def max_threads_per_cta_def signed_divide_int_def sgn_if)

lemma angles_per_thread_ceiling:
  assumes "0 \<le> na"
  shows "angles_per_thread_of na = \<lceil>real_of_int na / 1024\<rceil>"
proof -
  have "angles_per_thread_of na = (na + 1023) div 1024"
    using assms by (rule angles_per_thread_div)
  also have "\<dots> = - ((- na) div 1024)"
    by (rule ceil_div_1024)
  also have "\<dots> = \<lceil>real_of_int na / 1024\<rceil>"
    using ceiling_divide_eq_div [where 'a = real, of na 1024] by simp
  finally show ?thesis .
qed

lemma smod_nonneg: "0 \<le> (a::int) \<Longrightarrow> 0 < b \<Longrightarrow> a smod b = a mod b"
  by (simp add: signed_modulo_int_def sgn_if)

lemma sdiv_nonneg: "0 \<le> (a::int) \<Longrightarrow> 0 < b \<Longrightarrow> a sdiv b = a div b"
  by (simp add: signed_divide_int_def sgn_if)

text \<open>
  Claim C8. For an angle count \<open>num_angles \<ge> 0\<close>, \<open>run_gpu_sweep\<close> takes the ceiling of
  \<open>num_angles / 1024\<close> as \<open>angles_per_thread\<close>; it fails exactly when
  \<open>angles_per_thread\<close> does not divide \<open>num_angles\<close> or is neither 1 nor 2; otherwise
  it launches the one kernel chosen by \<open>fixup\<close> and by \<open>vdelt \<noteq> 0\<close>, specialised
  to \<open>angles_per_thread\<close>, on \<open>num_angles / angles_per_thread\<close> threads.
\<close>

theorem run_gpu_sweep_dispatch:
  assumes "0 \<le> na"
  shows "angles_per_thread_of na = \<lceil>real_of_int na / 1024\<rceil>
       \<and> ((\<exists>e. run_gpu_sweep na fixup vd = Inl e)
            = (na mod angles_per_thread_of na \<noteq> 0
               \<or> (angles_per_thread_of na \<noteq> 1 \<and> angles_per_thread_of na \<noteq> 2)))
       \<and> (na mod angles_per_thread_of na = 0
            \<and> (angles_per_thread_of na = 1 \<or> angles_per_thread_of na = 2) \<longrightarrow>
          run_gpu_sweep na fixup vd =
            Inr \<lparr>launched =
                   (if fixup then (if vd \<noteq> 0 then TimeDependentWithFixup
                                   else TimeIndependentWithFixup)
                    else (if vd \<noteq> 0 then TimeDependentWithoutFixup
                          else TimeIndependentWithoutFixup)),
                 THR_ANGLES = nat (angles_per_thread_of na),
                 block_x = na div angles_per_thread_of na\<rparr>)"
proof -
  define apt where "apt = angles_per_thread_of na"
  have nonneg: "0 \<le> apt"
    using assms by (simp add: apt_def angles_per_thread_div)
  have c: "angles_per_thread_of na = \<lceil>real_of_int na / 1024\<rceil>"
    using assms by (rule angles_per_thread_ceiling)
  have sm: "apt \<noteq> 0 \<Longrightarrow> na smod apt = na mod apt" and sd: "apt \<noteq> 0 \<Longrightarrow> na sdiv apt = na div apt"
    using assms nonneg by (simp_all add: smod_nonneg sdiv_nonneg)
  have e: "(\<exists>e. run_gpu_sweep na fixup vd = Inl e)
            = (na mod apt \<noteq> 0 \<or> (apt \<noteq> 1 \<and> apt \<noteq> 2))"
    using sm by (auto simp: run_gpu_sweep_def Let_def switch_angles_per_thread_def apt_def [symmetric])
  have l: "na mod apt = 0 \<and> (apt = 1 \<or> apt = 2) \<longrightarrow>
          run_gpu_sweep na fixup vd =
            Inr \<lparr>launched =
                   (if fixup then (if vd \<noteq> 0 then TimeDependentWithFixup
                                   else TimeIndependentWithFixup)
                    else (if vd \<noteq> 0 then TimeDependentWithoutFixup
                          else TimeIndependentWithoutFixup)),
                 THR_ANGLES = nat apt,
                 block_x = na div apt\<rparr>"
    using sm sd by (auto simp: run_gpu_sweep_def Let_def switch_angles_per_thread_def apt_def [symmetric])
  from c e l show ?thesis unfolding apt_def by blast
qed

theorem run_gpu_sweep_dispatch_witness:
  "angles_per_thread_of 2048 = \<lceil>real_of_int 2048 / 1024\<rceil>
   \<and> run_gpu_sweep 2048 True 1 =
       Inr \<lparr>launched = TimeDependentWithFixup, THR_ANGLES = 2, block_x = 1024\<rparr>
   \<and> run_gpu_sweep 32 False 0 =
       Inr \<lparr>launched = TimeIndependentWithoutFixup, THR_ANGLES = 1, block_x = 32\<rparr>
   \<and> (\<exists>e. run_gpu_sweep 1025 True 0 = Inl e)
   \<and> (\<exists>e. run_gpu_sweep 3072 True 0 = Inl e)"
proof -
  have a: "angles_per_thread_of 2048 = 2" "angles_per_thread_of 32 = 1"
    "angles_per_thread_of 1025 = 2" "angles_per_thread_of 3072 = 3"
    by (simp_all add: angles_per_thread_of_def max_threads_per_cta_def)
  show ?thesis
    using run_gpu_sweep_dispatch [of 2048 True 1] run_gpu_sweep_dispatch [of 32 False 0]
      run_gpu_sweep_dispatch [of 1025 True 0] run_gpu_sweep_dispatch [of 3072 True 0]
    by (simp add: a)
qed

section \<open>The per-cell update: properties\<close>

lemma for_angles_nth [simp]:
  "g < num_angles c \<Longrightarrow> for_angles c body rs ! g = body (rs ! g) g"
  by (simp add: for_angles_def)

lemma for_angles_length [simp]: "length (for_angles c body rs) = num_angles c"
  by (simp add: for_angles_def)

lemma fold_angle_write:
  "fold (\<lambda>g ptr. angle_write ptr p g (val g)) [0..<n] ptr0 =
     ptr0(p := (\<lambda>g. if g < n then val g else ptr0 p g))"
proof (induction n)
  case 0
  show ?case by (simp add: fun_eq_iff)
next
  case (Suc n)
  then show ?case by (auto simp: angle_write_def fun_eq_iff)
qed

lemma registers_write_ghosts [simp]:
  "registers (write_ghosts c a k x y z s) = registers s"
  by (simp add: write_ghosts_def Let_def)

lemma registers_write_time_flux_out [simp]:
  "registers (write_time_flux_out c a x y z v s) = registers s"
  by (simp add: write_time_flux_out_def)

lemma registers_flux_moments [simp]:
  "registers (flux_moments c a x y z s) =
     for_angles c (\<lambda>r g. r\<lparr>psi := device_w (dev s) ! g * pc r\<rparr>) (registers s)"
  by (simp add: flux_moments_def Let_def)

lemma time_flux_out_moment_reduction [simp]:
  "time_flux_out_ptr (moment_reduction c a d rs p l m) = time_flux_out_ptr m"
  by (simp add: moment_reduction_def)

lemma time_flux_out_fold_moment_reduction [simp]:
  "time_flux_out_ptr (fold (moment_reduction c a d rs p) ls m) = time_flux_out_ptr m"
  by (induction ls arbitrary: m) simp_all

lemma time_flux_out_flux_moments [simp]:
  "time_flux_out_ptr (mem (flux_moments c a x y z s)) = time_flux_out_ptr (mem s)"
  by (simp add: flux_moments_def Let_def)

lemma time_flux_out_write_ghosts [simp]:
  "time_flux_out_ptr (mem (write_ghosts c a k x y z s)) = time_flux_out_ptr (mem s)"
  by (simp add: write_ghosts_def Let_def)

text \<open>
  Claim C5. In the two kernels without fixup, for every cell \<open>(x, y, z)\<close> and every
  angle \<open>g\<close> of the compute unit, the outgoing edge values left in \<open>psii\<close>, \<open>psij\<close>
  and \<open>psik\<close> (and written to the time-flux-out field in the time-dependent kernel) are
  \<open>2 * pc\<close> minus the incoming edge value of the same axis, where \<open>pc\<close> is the value
  of the diagonal solve and the incoming values are the ghost cell or the scratch entry the
  kernel read; nothing is iterated. With zero source, zero incoming values and
  \<open>dinv = 0\<close>, every outgoing value equals \<open>pc\<close>, which is 0.
\<close>

theorem no_fixup_outgoing_edges:
  assumes "g < num_angles c"
  shows
   "(let r0 = diagonal_solve (mem s) (local_point a x y z)
                (initial_solution c a (dev s) (mem s) k x y z (registers s ! g) g) g;
         r' = registers (cell_time_independent_without_fixup c a k (x, y, z) s) ! g
     in psii r0 = (if x = 0 then ghostx_in_ptr (mem s) (ghost_point_x a (local_point a x y z)) g
                   else psii (registers s ! g))
      \<and> psij r0 = (if y = 0 then ghosty_in_ptr (mem s) (ghost_point_y a (local_point a x y z)) g
                   else yflux_pencils (dev s) (pencil_index k x g))
      \<and> psik r0 = (if z = 0 then ghostz_in_ptr (mem s) (ghost_point_z a (local_point a x y z)) g
                   else zflux_planes (dev s) (plane_index k y x g))
      \<and> pc r' = pc r0
      \<and> psii r' = 2 * pc r' - psii r0
      \<and> psij r' = 2 * pc r' - psij r0
      \<and> psik r' = 2 * pc r' - psik r0
      \<and> (angular_source c a (dev s) (mem s) (local_point a x y z) g = 0
           \<and> psii r0 = 0 \<and> psij r0 = 0 \<and> psik r0 = 0
           \<and> dinv_ptr (mem s) (local_point a x y z) g = 0
          \<longrightarrow> pc r' = 0 \<and> psii r' = pc r' \<and> psij r' = pc r' \<and> psik r' = pc r'))
  \<and> (let r0 = diagonal_solve (mem s) (local_point a x y z)
                (time_term a (mem s) (local_point a x y z)
                  (initial_solution c a (dev s) (mem s) k x y z (registers s ! g) g) g) g;
         s' = cell_time_dependent_without_fixup c a k (x, y, z) s;
         r' = registers s' ! g
     in psii r0 = (if x = 0 then ghostx_in_ptr (mem s) (ghost_point_x a (local_point a x y z)) g
                   else psii (registers s ! g))
      \<and> psij r0 = (if y = 0 then ghosty_in_ptr (mem s) (ghost_point_y a (local_point a x y z)) g
                   else yflux_pencils (dev s) (pencil_index k x g))
      \<and> psik r0 = (if z = 0 then ghostz_in_ptr (mem s) (ghost_point_z a (local_point a x y z)) g
                   else zflux_planes (dev s) (plane_index k y x g))
      \<and> time_flux_in r0 = time_flux_in_ptr (mem s) (local_point a x y z) g
      \<and> pc r' = pc r0
      \<and> psii r' = 2 * pc r' - psii r0
      \<and> psij r' = 2 * pc r' - psij r0
      \<and> psik r' = 2 * pc r' - psik r0
      \<and> time_flux_out_ptr (mem s') (local_point a x y z) g = 2 * pc r' - time_flux_in r0
      \<and> (angular_source c a (dev s) (mem s) (local_point a x y z) g = 0
           \<and> psii r0 = 0 \<and> psij r0 = 0 \<and> psik r0 = 0 \<and> time_flux_in r0 = 0
           \<and> dinv_ptr (mem s) (local_point a x y z) g = 0
          \<longrightarrow> pc r' = 0 \<and> psii r' = pc r' \<and> psij r' = pc r' \<and> psik r' = pc r'
              \<and> time_flux_out_ptr (mem s') (local_point a x y z) g = pc r'))"
proof -
  let ?p = "local_point a x y z"
  let ?i = "initial_solution c a (dev s) (mem s) k x y z (registers s ! g) g"
  have ti: "registers (cell_time_independent_without_fixup c a k (x, y, z) s) ! g =
      (no_fixup (diagonal_solve (mem s) ?p ?i g))
        \<lparr>psi := device_w (dev s) ! g * pc (diagonal_solve (mem s) ?p ?i g)\<rparr>"
    using assms
    by (simp add: cell_time_independent_without_fixup_def Let_def no_fixup_def write_ghosts_def)
  have td: "registers (cell_time_dependent_without_fixup c a k (x, y, z) s) ! g =
      (no_fixup (diagonal_solve (mem s) ?p (time_term a (mem s) ?p ?i g) g))
        \<lparr>psi := device_w (dev s) ! g *
                  pc (diagonal_solve (mem s) ?p (time_term a (mem s) ?p ?i g) g)\<rparr>"
    using assms
    by (simp add: cell_time_dependent_without_fixup_def Let_def no_fixup_def write_ghosts_def
        write_time_flux_out_def)
  have tf: "time_flux_out_ptr (mem (cell_time_dependent_without_fixup c a k (x, y, z) s)) ?p g =
      2 * pc (diagonal_solve (mem s) ?p (time_term a (mem s) ?p ?i g) g)
        - time_flux_in_ptr (mem s) ?p g"
    using assms
    by (simp add: cell_time_dependent_without_fixup_def Let_def write_time_flux_out_def
        fold_angle_write no_fixup_def diagonal_solve_def time_term_def)
  show ?thesis
    unfolding Let_def ti td tf
    by (simp add: no_fixup_def diagonal_solve_def time_term_def initial_solution_def Let_def)
qed


theorem no_fixup_outgoing_edges_witness:
  "0 < num_angles example_cta
   \<and> pc (registers (cell_time_independent_without_fixup example_cta example_args 0 (0, 0, 0)
          zero_state) ! 0) = 0
   \<and> psii (registers (cell_time_independent_without_fixup example_cta example_args 0 (0, 0, 0)
          zero_state) ! 0) = 0
   \<and> psij (registers (cell_time_dependent_without_fixup example_cta example_args 0 (0, 0, 0)
          zero_state) ! 0) = 0
   \<and> time_flux_out_ptr (mem (cell_time_dependent_without_fixup example_cta example_args 0
          (0, 0, 0) zero_state)) (0, 0, 0) 0 = 0"
proof -
  have h: "0 < num_angles example_cta"
    by (simp add: num_angles_def example_cta_def)
  have z: "angular_source example_cta example_args (dev zero_state) (mem zero_state) p 0 = 0"
    "dinv_ptr (mem zero_state) p 0 = 0"
    "ghostx_in_ptr (mem zero_state) p 0 = 0" "ghosty_in_ptr (mem zero_state) p 0 = 0"
    "ghostz_in_ptr (mem zero_state) p 0 = 0"
    "time_flux_in_ptr (mem zero_state) p 0 = 0" for p
    by (simp_all add: angular_source_def zero_state_def zero_memory_def example_args_def Let_def)
  have lp: "local_point example_args 0 0 0 = (0, 0, 0)"
    by (simp add: local_point_def example_args_def)
  show ?thesis
    using h no_fixup_outgoing_edges [OF h, of zero_state example_args 0 0 0 0]
    by (simp add: Let_def z diagonal_solve_def time_term_def initial_solution_def lp)
qed

text \<open>
  Claim C6. The recomputation of \<open>pc\<close> in the fixup loop, in both kernels with fixup:
  the denominator is 0 when the recomputed numerator is not positive, and the
  cross-section plus the flag-weighted cosine terms otherwise; below the tolerance
  \<open>1.0e-12\<close> the new \<open>pc\<close> is exactly 0, otherwise it is the numerator divided by
  the denominator. The result is always a register set, which differs from the old one in
  \<open>pc\<close> only: no error value exists on this path.
\<close>

theorem fixup_recompute_clamps:
  "pc (recompute_td a d t r g) =
     (let pc' = psi r + 0.5 * (
            psii r * device_mu d ! g * hi a * (1 + hv_x r) +
            psij r * device_eta d ! g * hj a * (1 + hv_y r) +
            psik r * device_xi d ! g * hk a * (1 + hv_z r) +
            time_flux_in r * vdelt a * (1 + hv_t r));
          den = (if pc' \<le> 0 then 0 else t +
            device_mu d ! g * hi a * hv_x r +
            device_eta d ! g * hj a * hv_y r +
            device_xi d ! g * hk a * hv_z r +
            vdelt a * hv_t r)
      in if den < 1 / 10 ^ 12 then 0 else pc' / den)
   \<and> (recompute_td a d t r g)\<lparr>pc := pc r\<rparr> = r
   \<and> pc (recompute_ti a d t r g) =
     (let pc' = psi r + 0.5 * (
            psii r * device_mu d ! g * hi a * (1 + hv_x r) +
            psij r * device_eta d ! g * hj a * (1 + hv_y r) +
            psik r * device_xi d ! g * hk a * (1 + hv_z r));
          den = (if pc' \<le> 0 then 0 else t +
            device_mu d ! g * hi a * hv_x r +
            device_eta d ! g * hj a * hv_y r +
            device_xi d ! g * hk a * hv_z r)
      in if den < 1 / 10 ^ 12 then 0 else pc' / den)
   \<and> (recompute_ti a d t r g)\<lparr>pc := pc r\<rparr> = r"
  by (simp add: recompute_td_def recompute_ti_def Let_def tolr_def)

section \<open>Collective reductions: properties\<close>

text \<open>
  On a block made of full lockstep groups no shuffle names an inactive lane, and the
  butterfly gives every lane the sum over its group.
\<close>

lemma xor_lt_32: "l < 32 \<Longrightarrow> i < 32 \<Longrightarrow> l XOR i < (32::nat)"
proof -
  assume a: "l < 32" "i < 32"
  have "take_bit 5 (l XOR i) = take_bit 5 l XOR take_bit 5 i"
    by (rule take_bit_xor)
  also have "\<dots> = l XOR i"
    using a by (simp add: take_bit_nat_eq_self)
  finally have "take_bit 5 (l XOR i) = l XOR i" .
  then have "l XOR i < 2 ^ 5"
    by (simp only: take_bit_nat_eq_self_iff)
  then show ?thesis by simp
qed

lemma butterfly_step_length [simp]: "length (butterfly_step u i vs) = length vs"
  by (simp add: butterfly_step_def)

lemma butterfly_step_nth:
  assumes "32 * q + 32 \<le> length vs" "l < 32" "i < 32"
  shows "butterfly_step u i vs ! (32 * q + l) = vs ! (32 * q + l) + vs ! (32 * q + (l XOR i))"
proof -
  have x: "l XOR i < 32"
    using assms(2,3) by (rule xor_lt_32)
  have "(32 * q + l) div 32 = q" "(32 * q + l) mod 32 = l"
    using assms(2) by simp_all
  then show ?thesis
    using assms(1,2) x
    by (simp add: butterfly_step_def shfl_xor_def warpid_def laneid_def Let_def)
qed


lemma upt_32: "[0..<32] = [0,1,2,3,4,5,6,7,8,9,10,11,12,13,14,15,16,17,18,19,20,21,22,23,24,25,26,27,28,29,30,31]"
  by (simp add: upt_rec)

lemma xor_reindex_32:
  fixes f :: "nat \<Rightarrow> 'a::comm_monoid_add"
  assumes "l < 32"
  shows "(\<Sum>m<32. f (l XOR m)) = (\<Sum>m<32. f m)"
proof -
  have inv: "l XOR (l XOR a) = a" for a
    by (simp add: xor.assoc [symmetric])
  show ?thesis
    by (rule sum.reindex_bij_witness [where i = "\<lambda>m. l XOR m" and j = "\<lambda>m. l XOR m"])
       (simp_all add: inv xor_lt_32 assms)
qed

lemma sum_32_list:
  fixes g :: "nat \<Rightarrow> 'a::comm_monoid_add"
  shows "(\<Sum>m<32. g m) = sum_list (map g [0..<32])"
  by (simp add: interv_sum_list_conv_sum_set_nat atLeast0LessThan)

lemma butterfly_lanes:
  fixes f0 :: "nat \<Rightarrow> 'a::comm_monoid_add"
  assumes s1: "\<And>l. l < 32 \<Longrightarrow> f1 l = f0 l + f0 (l XOR 16)"
    and s2: "\<And>l. l < 32 \<Longrightarrow> f2 l = f1 l + f1 (l XOR 8)"
    and s3: "\<And>l. l < 32 \<Longrightarrow> f3 l = f2 l + f2 (l XOR 4)"
    and s4: "\<And>l. l < 32 \<Longrightarrow> f4 l = f3 l + f3 (l XOR 2)"
    and s5: "\<And>l. l < 32 \<Longrightarrow> f5 l = f4 l + f4 (l XOR 1)"
    and l: "l < (32::nat)"
  shows "f5 l = (\<Sum>m<32. f0 m)"
proof -
  have t2: "f2 k = f0 k + f0 (k XOR 16) + f0 (k XOR 8) + f0 (k XOR 24)" if "k < 32" for k
    using that by (simp add: s2 s1 xor_lt_32 xor.assoc add.assoc)
  have t3: "f3 k = f0 k + f0 (k XOR 16) + f0 (k XOR 8) + f0 (k XOR 24)
      + f0 (k XOR 4) + f0 (k XOR 20) + f0 (k XOR 12) + f0 (k XOR 28)" if "k < 32" for k
    using that by (simp add: s3 t2 xor_lt_32 xor.assoc add.assoc)
  have t4: "f4 k = f0 k + f0 (k XOR 16) + f0 (k XOR 8) + f0 (k XOR 24)
      + f0 (k XOR 4) + f0 (k XOR 20) + f0 (k XOR 12) + f0 (k XOR 28)
      + f0 (k XOR 2) + f0 (k XOR 18) + f0 (k XOR 10) + f0 (k XOR 26)
      + f0 (k XOR 6) + f0 (k XOR 22) + f0 (k XOR 14) + f0 (k XOR 30)" if "k < 32" for k
    using that by (simp add: s4 t3 xor_lt_32 xor.assoc add.assoc)
  have t5: "f5 l = f0 l + f0 (l XOR 16) + f0 (l XOR 8) + f0 (l XOR 24)
      + f0 (l XOR 4) + f0 (l XOR 20) + f0 (l XOR 12) + f0 (l XOR 28)
      + f0 (l XOR 2) + f0 (l XOR 18) + f0 (l XOR 10) + f0 (l XOR 26)
      + f0 (l XOR 6) + f0 (l XOR 22) + f0 (l XOR 14) + f0 (l XOR 30)
      + f0 (l XOR 1) + f0 (l XOR 17) + f0 (l XOR 9) + f0 (l XOR 25)
      + f0 (l XOR 5) + f0 (l XOR 21) + f0 (l XOR 13) + f0 (l XOR 29)
      + f0 (l XOR 3) + f0 (l XOR 19) + f0 (l XOR 11) + f0 (l XOR 27)
      + f0 (l XOR 7) + f0 (l XOR 23) + f0 (l XOR 15) + f0 (l XOR 31)"
    using l by (simp add: s5 t4 xor_lt_32 xor.assoc add.assoc)
  have "(\<Sum>m<32. f0 m) = (\<Sum>m<32. f0 (l XOR m))"
    using l by (simp add: xor_reindex_32)
  also have "\<dots> = sum_list (map (\<lambda>m. f0 (l XOR m)) [0..<32])"
    by (rule sum_32_list)
  also have "\<dots> = f5 l"
    unfolding t5 upt_32 by (simp add: ac_simps)
  finally show ?thesis by simp
qed


lemma warp_butterfly_length [simp]: "length (warp_butterfly u vs) = length vs"
  by (simp add: warp_butterfly_def)

lemma warp_butterfly_full:
  fixes vs :: "'a::comm_monoid_add list"
  assumes "32 * q + 32 \<le> length vs" and "l < 32"
  shows "warp_butterfly u vs ! (32 * q + l) = (\<Sum>m<32. vs ! (32 * q + m))"
proof -
  define v1 where "v1 = butterfly_step u 16 vs"
  define v2 where "v2 = butterfly_step u 8 v1"
  define v3 where "v3 = butterfly_step u 4 v2"
  define v4 where "v4 = butterfly_step u 2 v3"
  define v5 where "v5 = butterfly_step u 1 v4"
  have len: "32 * q + 32 \<le> length v1" "32 * q + 32 \<le> length v2" "32 * q + 32 \<le> length v3"
    "32 * q + 32 \<le> length v4"
    using assms(1) by (simp_all add: v1_def v2_def v3_def v4_def)
  have w: "warp_butterfly u vs = v5"
    by (simp add: warp_butterfly_def v1_def v2_def v3_def v4_def v5_def)
  have "v5 ! (32 * q + l) = (\<Sum>m<32. vs ! (32 * q + m))"
  proof (rule butterfly_lanes [where ?f0.0 = "\<lambda>m. vs ! (32 * q + m)"
        and ?f1.0 = "\<lambda>m. v1 ! (32 * q + m)" and ?f2.0 = "\<lambda>m. v2 ! (32 * q + m)"
        and ?f3.0 = "\<lambda>m. v3 ! (32 * q + m)" and ?f4.0 = "\<lambda>m. v4 ! (32 * q + m)"
        and ?f5.0 = "\<lambda>m. v5 ! (32 * q + m)"])
    show "l < 32" by (rule assms(2))
  qed (simp_all add: v1_def v2_def v3_def v4_def v5_def butterfly_step_nth assms(1))
  then show ?thesis by (simp add: w)
qed


lemma sum_by_warps:
  fixes f :: "nat \<Rightarrow> 'a::comm_monoid_add"
  shows "(\<Sum>w<n. \<Sum>m<32. f (32 * w + m)) = (\<Sum>j<32 * n. f j)"
proof -
  have "(\<Sum>m<32. f (32 * w + m)) = sum f {w * 32..<w * 32 + 32}" for w
    using sum.shift_bounds_nat_ivl [of f 0 "w * 32" 32]
    by (simp add: atLeast0LessThan add.commute mult.commute)
  then have "(\<Sum>w<n. \<Sum>m<32. f (32 * w + m)) = (\<Sum>w<n. sum f {w * 32..<w * 32 + 32})"
    by simp
  also have "\<dots> = sum f {..<n * 32}"
    by (rule sum.nat_group)
  finally show ?thesis by (simp add: mult.commute)
qed

lemma sum_leading:
  fixes S :: "nat \<Rightarrow> 'a::comm_monoid_add"
  assumes "n \<le> 32"
  shows "(\<Sum>m<32. if m < n then S m else 0) = (\<Sum>m<n. S m)"
proof -
  have "(\<Sum>m<32. if m < n then S m else 0) =
      (\<Sum>m\<in>{..<32}. if m \<in> {m. m < n} then S m else 0)"
    by simp
  also have "\<dots> = sum S ({..<32} \<inter> {m. m < n})"
    by (rule sum.inter_restrict [symmetric]) simp
  also have "{..<32} \<inter> {m. m < n} = {..<n}"
    using assms by auto
  finally show ?thesis .
qed

lemma trampoline_length [simp]: "length (trampoline u vs) = 32"
  by (simp add: trampoline_def)

lemma trampoline_nth:
  "slot < 32 \<Longrightarrow> trampoline u vs ! slot =
     (if 32 * slot < length vs then vs ! (32 * slot) else if slot < length vs then 0 else u)"
  by (simp add: trampoline_def)

lemma staged_warp_sums:
  fixes totals :: "'a::comm_monoid_add list"
  assumes len: "length totals = 32 * n" and n: "0 < n" "n \<le> 32" and t: "t < 32"
  shows "trampoline u (warp_butterfly u totals) ! laneid t =
     (if t < n then (\<Sum>m<32. totals ! (32 * t + m)) else 0)"
proof -
  have "warp_butterfly u totals ! (32 * t + 0) = (\<Sum>m<32. totals ! (32 * t + m))" if "t < n"
    using that len by (intro warp_butterfly_full) simp_all
  then show ?thesis
    using t n len by (simp add: trampoline_nth laneid_def)
qed

lemma cta_sum_full_warps:
  assumes len: "length totals = 32 * n" and n: "0 < n" "n \<le> 32"
  shows "cta_sum u totals = sum_list totals"
proof -
  define warp0 where
    "warp0 = map (\<lambda>t. trampoline u (warp_butterfly u totals) ! laneid t) [0..<32]"
  have m: "min (length totals) 32 = 32"
    using len n by simp
  have "cta_sum u totals = warp_butterfly u warp0 ! (32 * 0 + 0)"
    by (simp add: cta_sum_def Let_def warp0_def m)
  also have "\<dots> = (\<Sum>m<32. warp0 ! (32 * 0 + m))"
    by (rule warp_butterfly_full) (simp_all add: warp0_def)
  also have "\<dots> = (\<Sum>t<32. if t < n then (\<Sum>m<32. totals ! (32 * t + m)) else 0)"
    using staged_warp_sums [OF len n] by (simp add: warp0_def)
  also have "\<dots> = (\<Sum>t<n. \<Sum>m<32. totals ! (32 * t + m))"
    using n(2) by (rule sum_leading)
  also have "\<dots> = (\<Sum>j<32 * n. totals ! j)"
    by (rule sum_by_warps)
  also have "\<dots> = sum_list totals"
    by (simp add: sum_list_sum_nth len atLeast0LessThan)
  finally show ?thesis .
qed

lemma cta_counts_length [simp]: "length (cta_counts u counts) = length counts"
  by (simp add: cta_counts_def Let_def)

lemma cta_counts_full_warps:
  assumes len: "length counts = 32 * n" and n: "0 < n" "n \<le> 32" and j: "j < length counts"
  shows "cta_counts u counts ! j = sum_list counts"
proof -
  define v where
    "v = map (\<lambda>t. trampoline u (warp_butterfly u counts) ! laneid t) [0..<length counts]"
  define q where "q = j div 32"
  define l where "l = j mod 32"
  have jql: "j = 32 * q + l" and l: "l < 32"
    by (simp_all add: q_def l_def)
  have q: "q < n"
    using j len by (simp add: q_def less_mult_imp_div_less mult.commute)
  have l32: "32 * q + 32 \<le> length v"
    using len q by (simp add: v_def)
  have vn: "v ! (32 * q + m) = (if m < n then (\<Sum>k<32. counts ! (32 * m + k)) else 0)"
    if "m < 32" for m
  proof -
    have "32 * q + m < length counts"
      using len q that by simp
    then have "v ! (32 * q + m) = trampoline u (warp_butterfly u counts) ! laneid (32 * q + m)"
      by (simp add: v_def)
    also have "laneid (32 * q + m) = laneid m"
      by (simp add: laneid_def)
    finally show ?thesis
      using staged_warp_sums [OF len n that] by simp
  qed
  have "cta_counts u counts ! j = warp_butterfly u v ! (32 * q + l)"
    by (simp add: cta_counts_def Let_def v_def jql)
  also have "\<dots> = (\<Sum>m<32. v ! (32 * q + m))"
    using l32 l by (rule warp_butterfly_full)
  also have "\<dots> = (\<Sum>t<32. if t < n then (\<Sum>m<32. counts ! (32 * t + m)) else 0)"
    using vn by simp
  also have "\<dots> = (\<Sum>t<n. \<Sum>m<32. counts ! (32 * t + m))"
    using n(2) by (rule sum_leading)
  also have "\<dots> = (\<Sum>j<32 * n. counts ! j)"
    by (rule sum_by_warps)
  also have "\<dots> = sum_list counts"
    by (simp add: sum_list_sum_nth len atLeast0LessThan)
  finally show ?thesis .
qed

lemma cta_count_full_warps:
  assumes len: "length counts = 32 * n" and n: "0 < n" "n \<le> 32"
  shows "cta_count u counts = sum_list counts"
  unfolding cta_count_def using len n
  by (intro cta_counts_full_warps [OF len n]) simp

lemma cta_counts_one_thread: "cta_counts u [k] = [cta_count u [k]]"
proof -
  have "length (cta_counts u [k]) = 1" by simp
  then show ?thesis
    unfolding cta_count_def by (cases "cta_counts u [k]") simp_all
qed

lemma cta_counts_agree:
  assumes "length counts = 1 \<or>
     (0 < length counts \<and> length counts mod 32 = 0 \<and> length counts \<le> 1024)"
  shows "cta_counts u counts = replicate (length counts) (cta_count u counts)"
proof (cases "length counts = 1")
  case True
  then obtain k where "counts = [k]"
    by (cases counts) simp_all
  then show ?thesis by (simp add: cta_counts_one_thread)
next
  case False
  with assms have w: "0 < length counts" "length counts mod 32 = 0" "length counts \<le> 1024"
    by simp_all
  define n where "n = length counts div 32"
  have "32 dvd length counts"
    using w(2) by (rule mod_0_imp_dvd)
  then have len: "length counts = 32 * n"
    by (simp add: n_def)
  have n: "0 < n" "n \<le> 32"
    using w(1,3) len by simp_all
  show ?thesis
  proof (rule nth_equalityI)
    show "length (cta_counts u counts) = length (replicate (length counts) (cta_count u counts))"
      by simp
  next
    fix j
    assume "j < length (cta_counts u counts)"
    then have j: "j < length counts" by simp
    show "cta_counts u counts ! j = replicate (length counts) (cta_count u counts) ! j"
      using cta_counts_full_warps [OF len n j] cta_count_full_warps [OF len n] j by simp
  qed
qed

lemma cta_moment_totals_one_warp:
  assumes len: "length totals = 32"
  shows "cta_moment_totals u totals ! 0 = totals ! 0"
proof -
  define v where "v = map (\<lambda>t. if warpid t = 0 then trampoline u totals ! laneid t
                               else totals ! t) [0..<length totals]"
  have vn: "v ! m = (if m = 0 then totals ! 0 else 0)" if "m < 32" for m
    using that len by (simp add: v_def warpid_def laneid_def trampoline_nth)
  have "cta_moment_totals u totals ! 0 = warp_butterfly u v ! (32 * 0 + 0)"
    by (simp add: cta_moment_totals_def Let_def v_def)
  also have "\<dots> = (\<Sum>m<32. v ! (32 * 0 + m))"
    by (rule warp_butterfly_full) (simp_all add: v_def len)
  also have "\<dots> = (\<Sum>m<32. if m = (0::nat) then totals ! 0 else 0)"
    using vn by simp
  also have "\<dots> = totals ! 0"
    by simp
  finally show ?thesis .
qed

section \<open>The fixup loop: properties\<close>

lemma funpow_fixed: "f y = y \<Longrightarrow> (f ^^ k) y = y"
  by (induction k) simp_all

lemma thread_total_cong:
  assumes "\<And>ang g. g < num_angles c \<Longrightarrow> f ang g = f' ang g" and "t < blockDim c"
  shows "thread_total c f t = thread_total c f' t"
proof -
  have "ang * blockDim c + t < num_angles c" if "ang < thr_angles c" for ang
  proof -
    have "ang * blockDim c + t < ang * blockDim c + blockDim c"
      using assms(2) by simp
    also have "\<dots> = Suc ang * blockDim c" by simp
    also have "\<dots> \<le> thr_angles c * blockDim c"
      using that by (intro mult_le_mono1) simp
    finally show ?thesis by (simp add: num_angles_def)
  qed
  then show ?thesis
    unfolding thread_total_def
    by (intro arg_cong [where f = sum_list] map_cong) (simp_all add: assms(1))
qed

lemma fixup_step_td_length [simp]: "length (fixup_step_td c a d t rs) = num_angles c"
  by (simp add: fixup_step_td_def)

lemma fixup_step_td_nth:
  "g < num_angles c \<Longrightarrow> length rs = num_angles c \<Longrightarrow>
   fixup_step_td c a d t rs ! g = fixup_angle_td a d t g (rs ! g)"
  by (simp add: fixup_step_td_def fixup_angle_td_def)

lemma fixup_step_td_funpow_length:
  "length rs = num_angles c \<Longrightarrow> length ((fixup_step_td c a d t ^^ k) rs) = num_angles c"
  by (induction k) simp_all

lemma fixup_step_td_funpow_nth:
  "g < num_angles c \<Longrightarrow> length rs = num_angles c \<Longrightarrow>
   ((fixup_step_td c a d t ^^ k) rs) ! g = (fixup_angle_td a d t g ^^ k) (rs ! g)"
  by (induction k) (simp_all add: fixup_step_td_nth fixup_step_td_funpow_length)

lemma recompute_td_idem:
  "recompute_td a d t (recompute_td a d t r g) g = recompute_td a d t r g"
  by (simp add: recompute_td_def Let_def)

lemma negative_pass_td_idem: "negative_pass_td (negative_pass_td r) = negative_pass_td r"
  by (simp add: negative_pass_td_def)

lemma negative_fluxes_td_pass [simp]:
  "negative_fluxes_td (negative_pass_td r) = negative_fluxes_td r"
  by (simp add: negative_pass_td_def negative_fluxes_td_def)

lemma flags_td_pass_le: "flags_td (negative_pass_td r) \<le> flags_td r"
  by (simp add: flags_td_def negative_pass_td_def)

lemma flags_td_recompute [simp]: "flags_td (recompute_td a d t r g) = flags_td r"
  by (simp add: flags_td_def recompute_td_def Let_def)

lemma flags_td_le_4: "flags_td r \<le> 4"
  by (simp add: flags_td_def)

lemma fixup_angle_td_settled:
  assumes "recompute_td a d t r g = r" and "flags_td (negative_pass_td r) = flags_td r"
  shows "fixup_angle_td a d t g r = negative_pass_td r"
proof -
  have hv: "hv_x (negative_pass_td r) = hv_x r" "hv_y (negative_pass_td r) = hv_y r"
    "hv_z (negative_pass_td r) = hv_z r" "hv_t (negative_pass_td r) = hv_t r"
    using assms(2) by (auto simp: flags_td_def negative_pass_td_def split: if_splits)
  have "pc (recompute_td a d t r g) = pc r"
    using assms(1) by simp
  then show ?thesis
    using hv
    by (simp add: fixup_angle_td_def recompute_td_def negative_pass_td_def Let_def
        split: if_splits)
qed

lemma fixup_angle_td_consistent:
  "recompute_td a d t (fixup_angle_td a d t g r) g = fixup_angle_td a d t g r"
  by (simp add: fixup_angle_td_def recompute_td_idem)

lemma flags_td_fixup_angle [simp]:
  "flags_td (fixup_angle_td a d t g r) = flags_td (negative_pass_td r)"
  by (simp add: fixup_angle_td_def)

lemma fixup_angle_td_stationary:
  "recompute_td a d t r g = r \<Longrightarrow> flags_td r \<le> n \<Longrightarrow>
   negative_fluxes_td ((fixup_angle_td a d t g ^^ Suc n) r) =
   negative_fluxes_td ((fixup_angle_td a d t g ^^ n) r)"
proof (induction n arbitrary: r)
  case 0
  then have "flags_td (negative_pass_td r) = flags_td r"
    using flags_td_pass_le [of r] by simp
  with 0 have "fixup_angle_td a d t g r = negative_pass_td r"
    by (simp add: fixup_angle_td_settled)
  then show ?case by simp
next
  case (Suc n)
  show ?case
  proof (cases "flags_td (negative_pass_td r) = flags_td r")
    case True
    with Suc.prems have s: "fixup_angle_td a d t g r = negative_pass_td r"
      by (simp add: fixup_angle_td_settled)
    have "fixup_angle_td a d t g (negative_pass_td r) = negative_pass_td r"
      using s by (simp add: fixup_angle_td_def negative_pass_td_idem)
    then have "(fixup_angle_td a d t g ^^ k) (negative_pass_td r) = negative_pass_td r" for k
      by (rule funpow_fixed)
    then have e: "(fixup_angle_td a d t g ^^ Suc k) r = negative_pass_td r" for k
      using s by (simp add: funpow_swap1)
    show ?thesis
      by (simp only: e)
  next
    case False
    then have "flags_td (fixup_angle_td a d t g r) \<le> n"
      using flags_td_pass_le [of r] Suc.prems(2) by simp
    then have "negative_fluxes_td ((fixup_angle_td a d t g ^^ Suc n) (fixup_angle_td a d t g r)) =
      negative_fluxes_td ((fixup_angle_td a d t g ^^ n) (fixup_angle_td a d t g r))"
      by (intro Suc.IH fixup_angle_td_consistent)
    then show ?thesis
      by (simp add: funpow_swap1)
  qed
qed

lemma fixup_angle_td_repeats:
  "negative_fluxes_td ((fixup_angle_td a d t g ^^ 6) r) =
   negative_fluxes_td ((fixup_angle_td a d t g ^^ 5) r)"
proof -
  have "flags_td (fixup_angle_td a d t g r) \<le> 4"
    by (rule flags_td_le_4)
  then have "negative_fluxes_td ((fixup_angle_td a d t g ^^ Suc 4) (fixup_angle_td a d t g r)) =
      negative_fluxes_td ((fixup_angle_td a d t g ^^ 4) (fixup_angle_td a d t g r))"
    by (intro fixup_angle_td_stationary fixup_angle_td_consistent)
  then show ?thesis
    by (simp add: funpow_swap1 numeral_eq_Suc)
qed

lemma negative_count_td_cong:
  assumes "\<And>g. g < num_angles c \<Longrightarrow> negative_fluxes_td (rs ! g) = negative_fluxes_td (rs' ! g)"
  shows "negative_count_td c rs = negative_count_td c rs'"
  unfolding negative_count_td_def
  by (intro arg_cong [where f = "cta_count (inactive_int c)"] map_cong thread_total_cong)
     (simp_all add: assms)

lemma negative_count_td_repeats:
  assumes "length rs = num_angles c"
  shows "negative_count_td c ((fixup_step_td c a d t ^^ 6) rs) =
         negative_count_td c ((fixup_step_td c a d t ^^ 5) rs)"
  by (rule negative_count_td_cong)
     (simp add: fixup_step_td_funpow_nth assms fixup_angle_td_repeats)

lemma uniform_loop_td_stops:
  "negative_count_td c ((fixup_step_td c a d t ^^ Suc m) rs) =
   negative_count_td c ((fixup_step_td c a d t ^^ m) rs) \<Longrightarrow>
   \<exists>rs'. uniform_loop_td (Suc (Suc m)) c a d t rs old = Some rs'"
proof (induction m arbitrary: rs old)
  case 0
  then show ?case by (simp add: Let_def)
next
  case (Suc m)
  have "\<exists>rs'. uniform_loop_td (Suc (Suc m)) c a d t (fixup_step_td c a d t rs)
               (negative_count_td c rs) = Some rs'"
    using Suc.prems by (intro Suc.IH) (simp add: funpow_swap1)
  then show ?case
    by (subst uniform_loop_td.simps) (simp add: Let_def)
qed

lemma uniform_loop_td_terminates:
  assumes "length rs = num_angles c"
  shows "\<exists>rs'. uniform_loop_td 7 c a d t rs old = Some rs'"
  using uniform_loop_td_stops [where m = 5 and rs = rs and c = c] negative_count_td_repeats [OF assms]
  by (simp add: numeral_eq_Suc)
lemma fixup_step_ti_length [simp]: "length (fixup_step_ti c a d t rs) = num_angles c"
  by (simp add: fixup_step_ti_def)

lemma fixup_step_ti_nth:
  "g < num_angles c \<Longrightarrow> length rs = num_angles c \<Longrightarrow>
   fixup_step_ti c a d t rs ! g = fixup_angle_ti a d t g (rs ! g)"
  by (simp add: fixup_step_ti_def fixup_angle_ti_def)

lemma fixup_step_ti_funpow_length:
  "length rs = num_angles c \<Longrightarrow> length ((fixup_step_ti c a d t ^^ k) rs) = num_angles c"
  by (induction k) simp_all

lemma fixup_step_ti_funpow_nth:
  "g < num_angles c \<Longrightarrow> length rs = num_angles c \<Longrightarrow>
   ((fixup_step_ti c a d t ^^ k) rs) ! g = (fixup_angle_ti a d t g ^^ k) (rs ! g)"
  by (induction k) (simp_all add: fixup_step_ti_nth fixup_step_ti_funpow_length)

lemma recompute_ti_idem:
  "recompute_ti a d t (recompute_ti a d t r g) g = recompute_ti a d t r g"
  by (simp add: recompute_ti_def Let_def)

lemma negative_pass_ti_idem: "negative_pass_ti (negative_pass_ti r) = negative_pass_ti r"
  by (simp add: negative_pass_ti_def)

lemma negative_fluxes_ti_pass [simp]:
  "negative_fluxes_ti (negative_pass_ti r) = negative_fluxes_ti r"
  by (simp add: negative_pass_ti_def negative_fluxes_ti_def)

lemma flags_ti_pass_le: "flags_ti (negative_pass_ti r) \<le> flags_ti r"
  by (simp add: flags_ti_def negative_pass_ti_def)

lemma flags_ti_recompute [simp]: "flags_ti (recompute_ti a d t r g) = flags_ti r"
  by (simp add: flags_ti_def recompute_ti_def Let_def)

lemma flags_ti_le_3: "flags_ti r \<le> 3"
  by (simp add: flags_ti_def)

lemma fixup_angle_ti_settled:
  assumes "recompute_ti a d t r g = r" and "flags_ti (negative_pass_ti r) = flags_ti r"
  shows "fixup_angle_ti a d t g r = negative_pass_ti r"
proof -
  have hv: "hv_x (negative_pass_ti r) = hv_x r" "hv_y (negative_pass_ti r) = hv_y r"
    "hv_z (negative_pass_ti r) = hv_z r"
    using assms(2) by (auto simp: flags_ti_def negative_pass_ti_def split: if_splits)
  have "pc (recompute_ti a d t r g) = pc r"
    using assms(1) by simp
  then show ?thesis
    using hv
    by (simp add: fixup_angle_ti_def recompute_ti_def negative_pass_ti_def Let_def
        split: if_splits)
qed

lemma fixup_angle_ti_consistent:
  "recompute_ti a d t (fixup_angle_ti a d t g r) g = fixup_angle_ti a d t g r"
  by (simp add: fixup_angle_ti_def recompute_ti_idem)

lemma flags_ti_fixup_angle [simp]:
  "flags_ti (fixup_angle_ti a d t g r) = flags_ti (negative_pass_ti r)"
  by (simp add: fixup_angle_ti_def)

lemma fixup_angle_ti_stationary:
  "recompute_ti a d t r g = r \<Longrightarrow> flags_ti r \<le> n \<Longrightarrow>
   negative_fluxes_ti ((fixup_angle_ti a d t g ^^ Suc n) r) =
   negative_fluxes_ti ((fixup_angle_ti a d t g ^^ n) r)"
proof (induction n arbitrary: r)
  case 0
  then have "flags_ti (negative_pass_ti r) = flags_ti r"
    using flags_ti_pass_le [of r] by simp
  with 0 have "fixup_angle_ti a d t g r = negative_pass_ti r"
    by (simp add: fixup_angle_ti_settled)
  then show ?case by simp
next
  case (Suc n)
  show ?case
  proof (cases "flags_ti (negative_pass_ti r) = flags_ti r")
    case True
    with Suc.prems have s: "fixup_angle_ti a d t g r = negative_pass_ti r"
      by (simp add: fixup_angle_ti_settled)
    have "fixup_angle_ti a d t g (negative_pass_ti r) = negative_pass_ti r"
      using s by (simp add: fixup_angle_ti_def negative_pass_ti_idem)
    then have "(fixup_angle_ti a d t g ^^ k) (negative_pass_ti r) = negative_pass_ti r" for k
      by (rule funpow_fixed)
    then have e: "(fixup_angle_ti a d t g ^^ Suc k) r = negative_pass_ti r" for k
      using s by (simp add: funpow_swap1)
    show ?thesis
      by (simp only: e)
  next
    case False
    then have "flags_ti (fixup_angle_ti a d t g r) \<le> n"
      using flags_ti_pass_le [of r] Suc.prems(2) by simp
    then have "negative_fluxes_ti ((fixup_angle_ti a d t g ^^ Suc n) (fixup_angle_ti a d t g r)) =
      negative_fluxes_ti ((fixup_angle_ti a d t g ^^ n) (fixup_angle_ti a d t g r))"
      by (intro Suc.IH fixup_angle_ti_consistent)
    then show ?thesis
      by (simp add: funpow_swap1)
  qed
qed

lemma fixup_angle_ti_repeats:
  "negative_fluxes_ti ((fixup_angle_ti a d t g ^^ 5) r) =
   negative_fluxes_ti ((fixup_angle_ti a d t g ^^ 4) r)"
proof -
  have "flags_ti (fixup_angle_ti a d t g r) \<le> 3"
    by (rule flags_ti_le_3)
  then have "negative_fluxes_ti ((fixup_angle_ti a d t g ^^ Suc 3) (fixup_angle_ti a d t g r)) =
      negative_fluxes_ti ((fixup_angle_ti a d t g ^^ 3) (fixup_angle_ti a d t g r))"
    by (intro fixup_angle_ti_stationary fixup_angle_ti_consistent)
  then show ?thesis
    by (simp add: funpow_swap1 numeral_eq_Suc)
qed

lemma negative_count_ti_cong:
  assumes "\<And>g. g < num_angles c \<Longrightarrow> negative_fluxes_ti (rs ! g) = negative_fluxes_ti (rs' ! g)"
  shows "negative_count_ti c rs = negative_count_ti c rs'"
  unfolding negative_count_ti_def
  by (intro arg_cong [where f = "cta_count (inactive_int c)"] map_cong thread_total_cong)
     (simp_all add: assms)

lemma negative_count_ti_repeats:
  assumes "length rs = num_angles c"
  shows "negative_count_ti c ((fixup_step_ti c a d t ^^ 5) rs) =
         negative_count_ti c ((fixup_step_ti c a d t ^^ 4) rs)"
  by (rule negative_count_ti_cong)
     (simp add: fixup_step_ti_funpow_nth assms fixup_angle_ti_repeats)

lemma uniform_loop_ti_stops:
  "negative_count_ti c ((fixup_step_ti c a d t ^^ Suc m) rs) =
   negative_count_ti c ((fixup_step_ti c a d t ^^ m) rs) \<Longrightarrow>
   \<exists>rs'. uniform_loop_ti (Suc (Suc m)) c a d t rs old = Some rs'"
proof (induction m arbitrary: rs old)
  case 0
  then show ?case by (simp add: Let_def)
next
  case (Suc m)
  have "\<exists>rs'. uniform_loop_ti (Suc (Suc m)) c a d t (fixup_step_ti c a d t rs)
               (negative_count_ti c rs) = Some rs'"
    using Suc.prems by (intro Suc.IH) (simp add: funpow_swap1)
  then show ?case
    by (subst uniform_loop_ti.simps) (simp add: Let_def)
qed

lemma uniform_loop_ti_terminates:
  assumes "length rs = num_angles c"
  shows "\<exists>rs'. uniform_loop_ti 6 c a d t rs old = Some rs'"
  using uniform_loop_ti_stops [where m = 4 and rs = rs and c = c] negative_count_ti_repeats [OF assms]
  by (simp add: numeral_eq_Suc)

lemma cta_count_one_lane: "cta_count u [n] = n + 10 * u"
  by (simp add: cta_count_def cta_counts_def warp_butterfly_def butterfly_step_def shfl_xor_def
      trampoline_def Let_def warpid_def laneid_def)

lemma negative_count_ti_one_lane:
  "negative_count_ti (one_lane u) [r] = negative_fluxes_ti r + 10 * u"
  by (simp add: negative_count_ti_def one_lane_def thread_total_def cta_count_one_lane)

lemma fixup_step_ti_one_lane:
  "fixup_step_ti (one_lane u) a d t [r] = [recompute_ti a d t (negative_pass_ti r) 0]"
  by (simp add: fixup_step_ti_def for_angles_def num_angles_def one_lane_def)



lemma example_args_fields:
  "origin example_args = (0, 0, 0)" "x_range example_args = 2" "y_range example_args = 2"
  "z_range example_args = 2" "corner example_args = 0" "stride_x_positive example_args"
  "stride_y_positive example_args" "stride_z_positive example_args"
  "\<not> mms_source example_args" "num_moments example_args = 1"
  "hi example_args = 1" "hj example_args = 1" "hk example_args = 1" "vdelt example_args = 0"
  by (simp_all add: example_args_def)

lemma example_device_fields:
  "available_chunks example_device = replicate 32 1" "device_ec example_device = replicate 16 0"
  "device_mu example_device = [1, 1]" "device_eta example_device = [1, 1]"
  "device_xi example_device = [1, 1]" "device_w example_device = [1, 1]"
  "yflux_pencils example_device = (\<lambda>_. 0)" "zflux_planes example_device = (\<lambda>_. 0)"
  by (simp_all add: example_device_def)

lemma fixup_state_fields:
  "registers fixup_state = [uninitialised]" "dev fixup_state = example_device"
  "qtot_ptr (mem fixup_state) = (\<lambda>_ _. 0)" "dinv_ptr (mem fixup_state) = (\<lambda>_ _. 1 / 23)"
  "t_xs_ptr (mem fixup_state) = (\<lambda>_. 20)" "ghostx_in_ptr (mem fixup_state) = (\<lambda>_ _. 10)"
  "ghosty_in_ptr (mem fixup_state) = (\<lambda>_ _. 1)" "ghostz_in_ptr (mem fixup_state) = (\<lambda>_ _. 1)"
  by (simp_all add: fixup_state_def fixup_memory_def)

lemma example_local_point: "local_point example_args 0 0 0 = (0, 0, 0)"
  by (simp add: local_point_def example_args_fields)

lemma example_angular_source:
  "angular_source c example_args d m p g = qtot_ptr m p 0"
  by (simp add: angular_source_def example_args_fields Let_def)

lemma fixup_entry_one_lane:
  "fixup_entry_ti (one_lane u) example_args 0 0 0 0 fixup_state =
     [uninitialised\<lparr>psi := 0, pc := 12 / 23, psii := 10, psij := 1, psik := 1,
        hv_x := 1, hv_y := 1, hv_z := 1\<rparr>]"
  by (simp add: fixup_entry_ti_def for_angles_def num_angles_def one_lane_def Let_def
      initial_solution_def diagonal_solve_def hv_init_ti_def example_angular_source
      example_local_point fixup_state_fields example_device_fields example_args_fields)

lemma fixup_example_counts:
  "negative_count_ti (one_lane u) (fixup_entry_ti (one_lane u) example_args 0 0 0 0 fixup_state)
     = 1 + 10 * u
   \<and> negative_count_ti (one_lane u)
        (fixup_step_ti (one_lane u) example_args example_device 20
          (fixup_entry_ti (one_lane u) example_args 0 0 0 0 fixup_state)) = 3 + 10 * u"
  by (simp add: fixup_entry_one_lane negative_count_ti_one_lane fixup_step_ti_one_lane
      negative_fluxes_ti_def negative_pass_ti_def recompute_ti_def Let_def tolr_def
      example_device_fields example_args_fields)

lemma uniform_loop_td_more_fuel:
  "uniform_loop_td n c a d t rs old = Some rs' \<Longrightarrow> uniform_loop_td (n + m) c a d t rs old = Some rs'"
proof (induction n arbitrary: rs old)
  case 0
  then show ?case by simp
next
  case (Suc n)
  then show ?case by (simp add: Let_def split: if_splits)
qed

lemma uniform_loop_ti_more_fuel:
  "uniform_loop_ti n c a d t rs old = Some rs' \<Longrightarrow> uniform_loop_ti (n + m) c a d t rs old = Some rs'"
proof (induction n arbitrary: rs old)
  case 0
  then show ?case by simp
next
  case (Suc n)
  then show ?case by (simp add: Let_def split: if_splits)
qed

lemma fixup_entry_td_length [simp]: "length (fixup_entry_td c a k x y z s) = num_angles c"
  by (simp add: fixup_entry_td_def Let_def)

lemma fixup_entry_ti_length [simp]: "length (fixup_entry_ti c a k x y z s) = num_angles c"
  by (simp add: fixup_entry_ti_def Let_def)

lemma fixup_entry_td_half_weights:
  "g < num_angles c \<Longrightarrow> half_weights_td (fixup_entry_td c a k x y z s ! g)"
  by (simp add: fixup_entry_td_def Let_def half_weights_td_def hv_init_td_def)

lemma fixup_entry_ti_half_weights:
  "g < num_angles c \<Longrightarrow> half_weights_ti (fixup_entry_ti c a k x y z s ! g)"
  by (simp add: fixup_entry_ti_def Let_def half_weights_ti_def hv_init_ti_def)

lemma agreeing_block_positive: "agreeing_block c \<Longrightarrow> 0 < blockDim c"
  by (auto simp: agreeing_block_def)

lemma negative_counts_td_agree:
  assumes "agreeing_block c"
  shows "negative_counts_td c rs = replicate (blockDim c) (negative_count_td c rs)"
  using assms
    cta_counts_agree [of "map (thread_total c (\<lambda>ang g. negative_fluxes_td (rs ! g)))
      [0..<blockDim c]" "inactive_int c"]
  by (simp add: negative_counts_td_def negative_count_td_def agreeing_block_def)

lemma negative_counts_ti_agree:
  assumes "agreeing_block c"
  shows "negative_counts_ti c rs = replicate (blockDim c) (negative_count_ti c rs)"
  using assms
    cta_counts_agree [of "map (thread_total c (\<lambda>ang g. negative_fluxes_ti (rs ! g)))
      [0..<blockDim c]" "inactive_int c"]
  by (simp add: negative_counts_ti_def negative_count_ti_def agreeing_block_def)

lemma leaving_agree:
  fixes k old :: nat
  shows "filter (\<lambda>t. replicate b k ! t = replicate b old ! t) [0..<b] =
     (if k = old then [0..<b] else [])"
proof (cases "k = old")
  case True
  then show ?thesis by simp
next
  case False
  then have "filter (\<lambda>t. replicate b k ! t = replicate b old ! t) [0..<b] = []"
    by (simp add: filter_empty_conv)
  with False show ?thesis by simp
qed

lemma fixup_loop_td_uniform:
  assumes "agreeing_block c"
  shows "fixup_loop_td fuel c a d t rs (replicate (blockDim c) old) =
     map_option Inr (uniform_loop_td fuel c a d t rs old)"
proof (induction fuel arbitrary: rs old)
  case 0
  show ?case by simp
next
  case (Suc fuel)
  have b: "0 < blockDim c"
    using assms by (rule agreeing_block_positive)
  show ?case
  proof (cases "negative_count_td c rs = old")
    case True
    then show ?thesis
      by (simp add: negative_counts_td_agree [OF assms] leaving_agree Let_def)
  next
    case False
    with b show ?thesis
      by (simp add: negative_counts_td_agree [OF assms] leaving_agree Let_def Suc.IH)
  qed
qed

lemma fixup_loop_ti_uniform:
  assumes "agreeing_block c"
  shows "fixup_loop_ti fuel c a d t rs (replicate (blockDim c) old) =
     map_option Inr (uniform_loop_ti fuel c a d t rs old)"
proof (induction fuel arbitrary: rs old)
  case 0
  show ?case by simp
next
  case (Suc fuel)
  have b: "0 < blockDim c"
    using assms by (rule agreeing_block_positive)
  show ?case
  proof (cases "negative_count_ti c rs = old")
    case True
    then show ?thesis
      by (simp add: negative_counts_ti_agree [OF assms] leaving_agree Let_def)
  next
    case False
    with b show ?thesis
      by (simp add: negative_counts_ti_agree [OF assms] leaving_agree Let_def Suc.IH)
  qed
qed

lemma fixup_loop_td_result:
  "fixup_loop_td n c a d t rs olds = Some (Inr rs') \<Longrightarrow> length rs = num_angles c \<Longrightarrow>
   (\<And>g. g < num_angles c \<Longrightarrow> half_weights_td (rs ! g)) \<Longrightarrow>
   length rs' = num_angles c \<and>
   (\<forall>g < num_angles c. \<exists>r. rs' ! g = negative_pass_td r \<and> half_weights_td r)"
proof (induction n arbitrary: rs olds)
  case 0
  then show ?case by simp
next
  case (Suc n)
  define leaving where "leaving =
    filter (\<lambda>t. negative_counts_td c rs ! t = olds ! t) [0..<blockDim c]"
  show ?case
  proof (cases "length leaving = blockDim c")
    case True
    with Suc.prems(1) have "rs' = map negative_pass_td rs"
      by (simp add: Let_def leaving_def)
    with Suc.prems(2,3) show ?thesis by auto
  next
    case False
    with Suc.prems(1) have e: "leaving = []"
      by (cases "leaving = []") (simp_all add: Let_def leaving_def)
    with False Suc.prems(1) have l:
      "fixup_loop_td n c a d t (fixup_step_td c a d t rs) (negative_counts_td c rs) =
         Some (Inr rs')"
      by (simp add: Let_def leaving_def)
    have h: "half_weights_td (fixup_step_td c a d t rs ! g)" if "g < num_angles c" for g
      using that Suc.prems(2) Suc.prems(3) [of g]
      by (simp add: fixup_step_td_nth fixup_angle_td_def half_weights_td_def
          recompute_td_def negative_pass_td_def Let_def)
    show ?thesis
      by (rule Suc.IH [OF l fixup_step_td_length h])
  qed
qed

lemma fixup_loop_ti_result:
  "fixup_loop_ti n c a d t rs olds = Some (Inr rs') \<Longrightarrow> length rs = num_angles c \<Longrightarrow>
   (\<And>g. g < num_angles c \<Longrightarrow> half_weights_ti (rs ! g)) \<Longrightarrow>
   length rs' = num_angles c \<and>
   (\<forall>g < num_angles c. \<exists>r. rs' ! g = negative_pass_ti r \<and> half_weights_ti r)"
proof (induction n arbitrary: rs olds)
  case 0
  then show ?case by simp
next
  case (Suc n)
  define leaving where "leaving =
    filter (\<lambda>t. negative_counts_ti c rs ! t = olds ! t) [0..<blockDim c]"
  show ?case
  proof (cases "length leaving = blockDim c")
    case True
    with Suc.prems(1) have "rs' = map negative_pass_ti rs"
      by (simp add: Let_def leaving_def)
    with Suc.prems(2,3) show ?thesis by auto
  next
    case False
    with Suc.prems(1) have e: "leaving = []"
      by (cases "leaving = []") (simp_all add: Let_def leaving_def)
    with False Suc.prems(1) have l:
      "fixup_loop_ti n c a d t (fixup_step_ti c a d t rs) (negative_counts_ti c rs) =
         Some (Inr rs')"
      by (simp add: Let_def leaving_def)
    have h: "half_weights_ti (fixup_step_ti c a d t rs ! g)" if "g < num_angles c" for g
      using that Suc.prems(2) Suc.prems(3) [of g]
      by (simp add: fixup_step_ti_nth fixup_angle_ti_def half_weights_ti_def
          recompute_ti_def negative_pass_ti_def Let_def)
    show ?thesis
      by (rule Suc.IH [OF l fixup_step_ti_length h])
  qed
qed

lemma cell_with_fixup_returns:
  assumes "agreeing_block c"
  shows "(\<exists>s'. cell_time_dependent_with_fixup 7 c a k xyz s = Some s')
   \<and> cell_time_dependent_with_fixup (7 + n) c a k xyz s =
       cell_time_dependent_with_fixup 7 c a k xyz s
   \<and> (\<exists>s'. cell_time_independent_with_fixup 6 c a k xyz s = Some s')
   \<and> cell_time_independent_with_fixup (6 + n) c a k xyz s =
       cell_time_independent_with_fixup 6 c a k xyz s"
proof -
  obtain x y z where xyz: "xyz = (x, y, z)"
    by (cases xyz) auto
  obtain rd where rd: "uniform_loop_td 7 c a (dev s) (t_xs_ptr (mem s) (local_point a x y z))
      (fixup_entry_td c a k x y z s) 0 = Some rd"
    using uniform_loop_td_terminates [OF fixup_entry_td_length] by blast
  obtain ri where ri: "uniform_loop_ti 6 c a (dev s) (t_xs_ptr (mem s) (local_point a x y z))
      (fixup_entry_ti c a k x y z s) 0 = Some ri"
    using uniform_loop_ti_terminates [OF fixup_entry_ti_length] by blast
  show ?thesis
    using rd ri uniform_loop_td_more_fuel [OF rd, of n] uniform_loop_ti_more_fuel [OF ri, of n]
    by (simp add: xyz cell_time_dependent_with_fixup_def cell_time_independent_with_fixup_def
        fixup_loop_td_uniform [OF assms] fixup_loop_ti_uniform [OF assms])
qed



text \<open>
  The counterexample to claim C3 as stated, for every value a shuffle may read from an
  inactive lane; the blocks have one thread. One angle with source 0, incoming fluxes 10,
  1 and 1, cross-section 20 and \<open>dinv = 1/23\<close>, the inverse of the cross-section plus
  the cosine terms: the first pass counts one negative trial flux, the second three. Two
  angles, \<open>slow_state\<close>, where \<open>dinv\<close> is not that inverse: four passes (three after
  the first, the number of axes of the time-independent kernel) do not end the loop. Two
  angles, \<open>long_state\<close>, where moreover one denominator is below the tolerance: five
  passes do not end the loop, six do, so the bound of the time-independent kernel is
  reached. A block of 33 threads, where a shuffle reads 0 from a lane that is not running:
  after the first pass the threads of the whole lockstep group hold the count 1 and thread
  32 holds 0, so thread 32 leaves the loop and the others stay.
\<close>

lemma one_lane_agreeing: "agreeing_block (one_lane u)"
  by (simp add: agreeing_block_def one_lane_def)















lemma cell_time_dependent_with_fixup_registers:
  assumes "cell_time_dependent_with_fixup fuel c a k (x, y, z) s = Some s'"
    and "g < num_angles c"
  shows "\<exists>r0. half_weights_td r0
     \<and> registers s' ! g =
         (fixup_done (negative_pass_td r0))\<lparr>psi := device_w (dev s) ! g * pc r0\<rparr>
     \<and> time_flux_out_ptr (mem s') (local_point a x y z) g =
         fx_hv_t (negative_pass_td r0) * hv_t (negative_pass_td r0)"
proof -
  obtain rs5 where l: "fixup_loop_td fuel c a (dev s) (t_xs_ptr (mem s) (local_point a x y z))
      (fixup_entry_td c a k x y z s) (replicate (blockDim c) 0) = Some (Inr rs5)"
    and s': "s' = flux_moments c a x y z (write_ghosts c a k x y z
       (write_time_flux_out c a x y z (\<lambda>r. fx_hv_t r * hv_t r)
          (s\<lparr>registers := map fixup_done rs5\<rparr>)))"
    using assms(1)
    by (auto simp: cell_time_dependent_with_fixup_def split: option.splits sum.splits)
  have r: "length rs5 = num_angles c \<and>
     (\<forall>g < num_angles c. \<exists>r. rs5 ! g = negative_pass_td r \<and> half_weights_td r)"
    by (rule fixup_loop_td_result [OF l fixup_entry_td_length fixup_entry_td_half_weights])
  then obtain r0 where r0: "rs5 ! g = negative_pass_td r0" "half_weights_td r0"
    using assms(2) by blast
  have d: "dev (write_ghosts c a k x y z s0) = d0 \<Longrightarrow> device_w d0 = device_w (dev s0)"
    for s0 d0
    by (auto simp: write_ghosts_def Let_def)
  have "registers s' ! g =
      (fixup_done (negative_pass_td r0))\<lparr>psi := device_w (dev s) ! g * pc r0\<rparr>"
    using assms(2) r r0
    by (simp add: s' fixup_done_def negative_pass_td_def write_ghosts_def Let_def
        write_time_flux_out_def)
  moreover have "time_flux_out_ptr (mem s') (local_point a x y z) g =
      fx_hv_t (negative_pass_td r0) * hv_t (negative_pass_td r0)"
    using assms(2) r r0
    by (simp add: s' write_time_flux_out_def fold_angle_write fixup_done_def)
  ultimately show ?thesis
    using r0(2) by blast
qed

lemma cell_time_independent_with_fixup_registers:
  assumes "cell_time_independent_with_fixup fuel c a k (x, y, z) s = Some s'"
    and "g < num_angles c"
  shows "\<exists>r0. half_weights_ti r0
     \<and> registers s' ! g =
         (fixup_done (negative_pass_ti r0))\<lparr>psi := device_w (dev s) ! g * pc r0\<rparr>"
proof -
  obtain rs5 where l: "fixup_loop_ti fuel c a (dev s) (t_xs_ptr (mem s) (local_point a x y z))
      (fixup_entry_ti c a k x y z s) (replicate (blockDim c) 0) = Some (Inr rs5)"
    and s': "s' = flux_moments c a x y z (write_ghosts c a k x y z
          (s\<lparr>registers := map fixup_done rs5\<rparr>))"
    using assms(1)
    by (auto simp: cell_time_independent_with_fixup_def split: option.splits sum.splits)
  have r: "length rs5 = num_angles c \<and>
     (\<forall>g < num_angles c. \<exists>r. rs5 ! g = negative_pass_ti r \<and> half_weights_ti r)"
    by (rule fixup_loop_ti_result [OF l fixup_entry_ti_length fixup_entry_ti_half_weights])
  then obtain r0 where r0: "rs5 ! g = negative_pass_ti r0" "half_weights_ti r0"
    using assms(2) by blast
  have "registers s' ! g =
      (fixup_done (negative_pass_ti r0))\<lparr>psi := device_w (dev s) ! g * pc r0\<rparr>"
    using assms(2) r r0
    by (simp add: s' fixup_done_def negative_pass_ti_def write_ghosts_def Let_def)
  then show ?thesis
    using r0(2) by blast
qed

text \<open>
  Claim C4, as amended. After a cell of a kernel with fixup, for every angle: each
  half-weight flag is 0 or 1; the outgoing edge value of an axis is its last trial flux
  times its flag, so it is 0 where the flag is 0; where the flag is 1 the last trial flux
  is not negative; hence no outgoing edge value is negative. The trial flux of an axis
  whose flag is 0 is not claimed to be non-negative: it can stay negative.
\<close>

theorem half_weights_after_fixup:
  assumes "g < num_angles c"
  shows "(\<forall>s'. cell_time_dependent_with_fixup fuel c a k (x, y, z) s = Some s' \<longrightarrow>
           (let r = registers s' ! g;
                time_flux_out = time_flux_out_ptr (mem s') (local_point a x y z) g
            in (hv_x r = 0 \<or> hv_x r = 1) \<and> (hv_y r = 0 \<or> hv_y r = 1)
             \<and> (hv_z r = 0 \<or> hv_z r = 1) \<and> (hv_t r = 0 \<or> hv_t r = 1)
             \<and> psii r = fx_hv_x r * hv_x r \<and> psij r = fx_hv_y r * hv_y r
             \<and> psik r = fx_hv_z r * hv_z r \<and> time_flux_out = fx_hv_t r * hv_t r
             \<and> (hv_x r = 0 \<longrightarrow> psii r = 0) \<and> (hv_y r = 0 \<longrightarrow> psij r = 0)
             \<and> (hv_z r = 0 \<longrightarrow> psik r = 0) \<and> (hv_t r = 0 \<longrightarrow> time_flux_out = 0)
             \<and> (hv_x r = 1 \<longrightarrow> 0 \<le> fx_hv_x r) \<and> (hv_y r = 1 \<longrightarrow> 0 \<le> fx_hv_y r)
             \<and> (hv_z r = 1 \<longrightarrow> 0 \<le> fx_hv_z r) \<and> (hv_t r = 1 \<longrightarrow> 0 \<le> fx_hv_t r)
             \<and> 0 \<le> psii r \<and> 0 \<le> psij r \<and> 0 \<le> psik r \<and> 0 \<le> time_flux_out))
       \<and> (\<forall>s'. cell_time_independent_with_fixup fuel c a k (x, y, z) s = Some s' \<longrightarrow>
           (let r = registers s' ! g
            in (hv_x r = 0 \<or> hv_x r = 1) \<and> (hv_y r = 0 \<or> hv_y r = 1)
             \<and> (hv_z r = 0 \<or> hv_z r = 1)
             \<and> psii r = fx_hv_x r * hv_x r \<and> psij r = fx_hv_y r * hv_y r
             \<and> psik r = fx_hv_z r * hv_z r
             \<and> (hv_x r = 0 \<longrightarrow> psii r = 0) \<and> (hv_y r = 0 \<longrightarrow> psij r = 0)
             \<and> (hv_z r = 0 \<longrightarrow> psik r = 0)
             \<and> (hv_x r = 1 \<longrightarrow> 0 \<le> fx_hv_x r) \<and> (hv_y r = 1 \<longrightarrow> 0 \<le> fx_hv_y r)
             \<and> (hv_z r = 1 \<longrightarrow> 0 \<le> fx_hv_z r)
             \<and> 0 \<le> psii r \<and> 0 \<le> psij r \<and> 0 \<le> psik r))"
proof (intro conjI allI impI)
  fix s'
  assume "cell_time_dependent_with_fixup fuel c a k (x, y, z) s = Some s'"
  from cell_time_dependent_with_fixup_registers [OF this assms]
  obtain r0 where h: "half_weights_td r0"
    and r: "registers s' ! g =
      (fixup_done (negative_pass_td r0))\<lparr>psi := device_w (dev s) ! g * pc r0\<rparr>"
    and tf: "time_flux_out_ptr (mem s') (local_point a x y z) g =
         fx_hv_t (negative_pass_td r0) * hv_t (negative_pass_td r0)"
    by blast
  have ax: "(hv_x (registers s' ! g) = 0 \<or> hv_x (registers s' ! g) = 1)
      \<and> psii (registers s' ! g) = fx_hv_x (registers s' ! g) * hv_x (registers s' ! g)
      \<and> (hv_x (registers s' ! g) = 0 \<longrightarrow> psii (registers s' ! g) = 0)
      \<and> (hv_x (registers s' ! g) = 1 \<longrightarrow> 0 \<le> fx_hv_x (registers s' ! g))
      \<and> 0 \<le> psii (registers s' ! g)"
    using h by (auto simp: r fixup_done_def negative_pass_td_def half_weights_td_def)
  have ay: "(hv_y (registers s' ! g) = 0 \<or> hv_y (registers s' ! g) = 1)
      \<and> psij (registers s' ! g) = fx_hv_y (registers s' ! g) * hv_y (registers s' ! g)
      \<and> (hv_y (registers s' ! g) = 0 \<longrightarrow> psij (registers s' ! g) = 0)
      \<and> (hv_y (registers s' ! g) = 1 \<longrightarrow> 0 \<le> fx_hv_y (registers s' ! g))
      \<and> 0 \<le> psij (registers s' ! g)"
    using h by (auto simp: r fixup_done_def negative_pass_td_def half_weights_td_def)
  have az: "(hv_z (registers s' ! g) = 0 \<or> hv_z (registers s' ! g) = 1)
      \<and> psik (registers s' ! g) = fx_hv_z (registers s' ! g) * hv_z (registers s' ! g)
      \<and> (hv_z (registers s' ! g) = 0 \<longrightarrow> psik (registers s' ! g) = 0)
      \<and> (hv_z (registers s' ! g) = 1 \<longrightarrow> 0 \<le> fx_hv_z (registers s' ! g))
      \<and> 0 \<le> psik (registers s' ! g)"
    using h by (auto simp: r fixup_done_def negative_pass_td_def half_weights_td_def)
  have at: "(hv_t (registers s' ! g) = 0 \<or> hv_t (registers s' ! g) = 1)
      \<and> time_flux_out_ptr (mem s') (local_point a x y z) g =
          fx_hv_t (registers s' ! g) * hv_t (registers s' ! g)
      \<and> (hv_t (registers s' ! g) = 0 \<longrightarrow> time_flux_out_ptr (mem s') (local_point a x y z) g = 0)
      \<and> (hv_t (registers s' ! g) = 1 \<longrightarrow> 0 \<le> fx_hv_t (registers s' ! g))
      \<and> 0 \<le> time_flux_out_ptr (mem s') (local_point a x y z) g"
    using h by (auto simp: r tf fixup_done_def negative_pass_td_def half_weights_td_def)
  from ax ay az at
  show "let r = registers s' ! g;
                time_flux_out = time_flux_out_ptr (mem s') (local_point a x y z) g
            in (hv_x r = 0 \<or> hv_x r = 1) \<and> (hv_y r = 0 \<or> hv_y r = 1)
             \<and> (hv_z r = 0 \<or> hv_z r = 1) \<and> (hv_t r = 0 \<or> hv_t r = 1)
             \<and> psii r = fx_hv_x r * hv_x r \<and> psij r = fx_hv_y r * hv_y r
             \<and> psik r = fx_hv_z r * hv_z r \<and> time_flux_out = fx_hv_t r * hv_t r
             \<and> (hv_x r = 0 \<longrightarrow> psii r = 0) \<and> (hv_y r = 0 \<longrightarrow> psij r = 0)
             \<and> (hv_z r = 0 \<longrightarrow> psik r = 0) \<and> (hv_t r = 0 \<longrightarrow> time_flux_out = 0)
             \<and> (hv_x r = 1 \<longrightarrow> 0 \<le> fx_hv_x r) \<and> (hv_y r = 1 \<longrightarrow> 0 \<le> fx_hv_y r)
             \<and> (hv_z r = 1 \<longrightarrow> 0 \<le> fx_hv_z r) \<and> (hv_t r = 1 \<longrightarrow> 0 \<le> fx_hv_t r)
             \<and> 0 \<le> psii r \<and> 0 \<le> psij r \<and> 0 \<le> psik r \<and> 0 \<le> time_flux_out"
    unfolding Let_def by blast
next
  fix s'
  assume "cell_time_independent_with_fixup fuel c a k (x, y, z) s = Some s'"
  from cell_time_independent_with_fixup_registers [OF this assms]
  obtain r0 where h: "half_weights_ti r0"
    and r: "registers s' ! g =
      (fixup_done (negative_pass_ti r0))\<lparr>psi := device_w (dev s) ! g * pc r0\<rparr>"
    by blast
  have ax: "(hv_x (registers s' ! g) = 0 \<or> hv_x (registers s' ! g) = 1)
      \<and> psii (registers s' ! g) = fx_hv_x (registers s' ! g) * hv_x (registers s' ! g)
      \<and> (hv_x (registers s' ! g) = 0 \<longrightarrow> psii (registers s' ! g) = 0)
      \<and> (hv_x (registers s' ! g) = 1 \<longrightarrow> 0 \<le> fx_hv_x (registers s' ! g))
      \<and> 0 \<le> psii (registers s' ! g)"
    using h by (auto simp: r fixup_done_def negative_pass_ti_def half_weights_ti_def)
  have ay: "(hv_y (registers s' ! g) = 0 \<or> hv_y (registers s' ! g) = 1)
      \<and> psij (registers s' ! g) = fx_hv_y (registers s' ! g) * hv_y (registers s' ! g)
      \<and> (hv_y (registers s' ! g) = 0 \<longrightarrow> psij (registers s' ! g) = 0)
      \<and> (hv_y (registers s' ! g) = 1 \<longrightarrow> 0 \<le> fx_hv_y (registers s' ! g))
      \<and> 0 \<le> psij (registers s' ! g)"
    using h by (auto simp: r fixup_done_def negative_pass_ti_def half_weights_ti_def)
  have az: "(hv_z (registers s' ! g) = 0 \<or> hv_z (registers s' ! g) = 1)
      \<and> psik (registers s' ! g) = fx_hv_z (registers s' ! g) * hv_z (registers s' ! g)
      \<and> (hv_z (registers s' ! g) = 0 \<longrightarrow> psik (registers s' ! g) = 0)
      \<and> (hv_z (registers s' ! g) = 1 \<longrightarrow> 0 \<le> fx_hv_z (registers s' ! g))
      \<and> 0 \<le> psik (registers s' ! g)"
    using h by (auto simp: r fixup_done_def negative_pass_ti_def half_weights_ti_def)
  from ax ay az
  show "let r = registers s' ! g
            in (hv_x r = 0 \<or> hv_x r = 1) \<and> (hv_y r = 0 \<or> hv_y r = 1)
             \<and> (hv_z r = 0 \<or> hv_z r = 1)
             \<and> psii r = fx_hv_x r * hv_x r \<and> psij r = fx_hv_y r * hv_y r
             \<and> psik r = fx_hv_z r * hv_z r
             \<and> (hv_x r = 0 \<longrightarrow> psii r = 0) \<and> (hv_y r = 0 \<longrightarrow> psij r = 0)
             \<and> (hv_z r = 0 \<longrightarrow> psik r = 0)
             \<and> (hv_x r = 1 \<longrightarrow> 0 \<le> fx_hv_x r) \<and> (hv_y r = 1 \<longrightarrow> 0 \<le> fx_hv_y r)
             \<and> (hv_z r = 1 \<longrightarrow> 0 \<le> fx_hv_z r)
             \<and> 0 \<le> psii r \<and> 0 \<le> psij r \<and> 0 \<le> psik r"
    unfolding Let_def by blast
qed

theorem half_weights_after_fixup_witness:
  "0 < num_angles (one_lane 0)
   \<and> (\<exists>s'. cell_time_independent_with_fixup 6 (one_lane 0) example_args 0 (0, 0, 0) fixup_state
              = Some s'
         \<and> (hv_x (registers s' ! 0) = 0 \<or> hv_x (registers s' ! 0) = 1)
         \<and> psii (registers s' ! 0) = fx_hv_x (registers s' ! 0) * hv_x (registers s' ! 0)
         \<and> 0 \<le> psii (registers s' ! 0))
   \<and> (\<exists>s'. cell_time_dependent_with_fixup 7 (one_lane 0) example_args 0 (0, 0, 0) fixup_state
              = Some s'
         \<and> (hv_t (registers s' ! 0) = 0 \<or> hv_t (registers s' ! 0) = 1)
         \<and> 0 \<le> time_flux_out_ptr (mem s') (local_point example_args 0 0 0) 0)"
proof -
  have n: "0 < num_angles (one_lane 0)"
    by (simp add: num_angles_def one_lane_def)
  obtain si where si: "cell_time_independent_with_fixup 6 (one_lane 0) example_args 0 (0, 0, 0)
      fixup_state = Some si"
    using cell_with_fixup_returns [OF one_lane_agreeing] by blast
  obtain sd where sd: "cell_time_dependent_with_fixup 7 (one_lane 0) example_args 0 (0, 0, 0)
      fixup_state = Some sd"
    using cell_with_fixup_returns [OF one_lane_agreeing] by blast
  show ?thesis
    using n si sd
      half_weights_after_fixup [OF n, of 6 example_args 0 0 0 0 fixup_state]
      half_weights_after_fixup [OF n, of 7 example_args 0 0 0 0 fixup_state]
    by (simp add: Let_def)
qed

text \<open>
  The counterexample to claim C4 as stated: in the one-angle input above the flag of the
  x axis is 0 after the first pass, and the trial flux of the x axis is negative in the
  second pass and in the pass that ends the loop.
\<close>

lemma fixup_example_loop:
  "uniform_loop_ti 3 (one_lane u) example_args example_device 20
     (fixup_entry_ti (one_lane u) example_args 0 0 0 0 fixup_state) 0 =
   Some [uninitialised\<lparr>psi := 0, pc := 3 / 10, psii := 10, psij := 1, psik := 1,
        hv_x := 0, hv_y := 0, hv_z := 0,
        fx_hv_x := - (47 / 5), fx_hv_y := - (2 / 5), fx_hv_z := - (2 / 5)\<rparr>]"
  by (simp add: fixup_entry_one_lane numeral_eq_Suc negative_count_ti_one_lane
      fixup_step_ti_one_lane negative_fluxes_ti_def negative_pass_ti_def recompute_ti_def
      Let_def tolr_def example_device_fields example_args_fields)

theorem half_weights_counterexample:
  "\<forall>u. hv_x (fixup_step_ti (one_lane u) example_args example_device 20
               (fixup_entry_ti (one_lane u) example_args 0 0 0 0 fixup_state) ! 0) = 0
      \<and> 2 * pc (fixup_step_ti (one_lane u) example_args example_device 20
               (fixup_entry_ti (one_lane u) example_args 0 0 0 0 fixup_state) ! 0)
          - psii (fixup_step_ti (one_lane u) example_args example_device 20
               (fixup_entry_ti (one_lane u) example_args 0 0 0 0 fixup_state) ! 0) < 0
      \<and> (\<exists>s'. cell_time_independent_with_fixup 3 (one_lane u) example_args 0 (0, 0, 0)
                 fixup_state = Some s'
            \<and> hv_x (registers s' ! 0) = 0 \<and> fx_hv_x (registers s' ! 0) < 0)"
proof
  fix u
  have n: "num_angles (one_lane u) = 1"
    by (simp add: num_angles_def one_lane_def)
  have step: "fixup_step_ti (one_lane u) example_args example_device 20
               (fixup_entry_ti (one_lane u) example_args 0 0 0 0 fixup_state) =
     [uninitialised\<lparr>psi := 0, pc := 7 / 22, psii := 10, psij := 1, psik := 1,
        hv_x := 0, hv_y := 1, hv_z := 1,
        fx_hv_x := - (206 / 23), fx_hv_y := 1 / 23, fx_hv_z := 1 / 23\<rparr>]"
    by (simp add: fixup_entry_one_lane fixup_step_ti_one_lane negative_pass_ti_def
        recompute_ti_def Let_def tolr_def example_device_fields example_args_fields)
  have cell: "\<exists>s'. cell_time_independent_with_fixup 3 (one_lane u) example_args 0 (0, 0, 0)
                 fixup_state = Some s'
            \<and> hv_x (registers s' ! 0) = 0 \<and> fx_hv_x (registers s' ! 0) < 0"
    using fixup_example_loop [of u]
    by (simp add: cell_time_independent_with_fixup_def fixup_state_fields example_local_point
        n fixup_done_def for_angles_def fixup_loop_ti_uniform [OF one_lane_agreeing])
  show "hv_x (fixup_step_ti (one_lane u) example_args example_device 20
               (fixup_entry_ti (one_lane u) example_args 0 0 0 0 fixup_state) ! 0) = 0
      \<and> 2 * pc (fixup_step_ti (one_lane u) example_args example_device 20
               (fixup_entry_ti (one_lane u) example_args 0 0 0 0 fixup_state) ! 0)
          - psii (fixup_step_ti (one_lane u) example_args example_device 20
               (fixup_entry_ti (one_lane u) example_args 0 0 0 0 fixup_state) ! 0) < 0
      \<and> (\<exists>s'. cell_time_independent_with_fixup 3 (one_lane u) example_args 0 (0, 0, 0)
                 fixup_state = Some s'
            \<and> hv_x (registers s' ! 0) = 0 \<and> fx_hv_x (registers s' ! 0) < 0)"
    using cell by (simp add: step)
qed

section \<open>The moment reduction: properties\<close>

lemma atomicAdd_adds: "atomicAdd m p v = m(p := m p + v)"
  by (simp add: atomicAdd_def atomicCAS_def add.commute)

lemma leaders_one_warp: "filter (\<lambda>t. laneid t = 0) [0..<32] = [0]"
  by (simp add: upt_32 laneid_def)

lemma moment_reduction_one_warp:
  assumes "blockDim c = 32"
  shows "fluxm_ptr (moment_reduction c a d rs p l m) p (nat (l - 1)) =
     fluxm_ptr m p (nat (l - 1)) +
     thread_total c (\<lambda>ang g. device_ec d !
         nat (l * int (num_angles c) + corner a * int (num_angles c) * num_moments a + int ang)
       * psi (rs ! g)) 0"
  using assms
  by (simp add: moment_reduction_def moment_totals_def Let_def leaders_one_warp atomicAdd_adds
      cta_moment_totals_one_warp)

lemma thread_totals_sum:
  fixes f :: "nat \<Rightarrow> 'a::comm_monoid_add"
  shows "sum_list (map (thread_total c (\<lambda>ang g. f g)) [0..<blockDim c]) =
     (\<Sum>g<num_angles c. f g)"
proof -
  have "sum_list (map (thread_total c (\<lambda>ang g. f g)) [0..<blockDim c]) =
      (\<Sum>t<blockDim c. \<Sum>ang<thr_angles c. f (ang * blockDim c + t))"
    by (simp add: thread_total_def interv_sum_list_conv_sum_set_nat atLeast0LessThan)
  also have "\<dots> = (\<Sum>ang<thr_angles c. \<Sum>t<blockDim c. f (ang * blockDim c + t))"
    by (rule sum.swap)
  also have "\<dots> = (\<Sum>ang<thr_angles c. sum f {ang * blockDim c..<ang * blockDim c + blockDim c})"
  proof -
    have "(\<Sum>t<b. f (k + t)) = sum f {k..<k + b}" for k b
      using sum.shift_bounds_nat_ivl [of f 0 k b]
      by (simp add: atLeast0LessThan add.commute)
    then show ?thesis by simp
  qed
  also have "\<dots> = sum f {..<thr_angles c * blockDim c}"
    by (rule sum.nat_group)
  finally show ?thesis by (simp add: num_angles_def)
qed

lemma flux_total_full_warps:
  assumes "blockDim c = 32 * n" "0 < n" "n \<le> 32"
  shows "flux_total c rs = (\<Sum>g<num_angles c. psi (rs ! g))"
proof -
  have "length (map (thread_total c (\<lambda>ang g. psi (rs ! g))) [0..<blockDim c]) = 32 * n"
    using assms(1) by simp
  then have "flux_total c rs =
      sum_list (map (thread_total c (\<lambda>ang g. psi (rs ! g))) [0..<blockDim c])"
    unfolding flux_total_def using assms(2,3) by (rule cta_sum_full_warps)
  then show ?thesis
    by (simp only: thread_totals_sum)
qed


lemma moment_args_fields:
  "origin moment_args = (0, 0, 0)" "x_range moment_args = 1" "y_range moment_args = 1"
  "z_range moment_args = 1" "corner moment_args = 0" "stride_x_positive moment_args"
  "stride_y_positive moment_args" "stride_z_positive moment_args"
  "\<not> mms_source moment_args" "num_moments moment_args = 2"
  "hi moment_args = 1" "hj moment_args = 1" "hk moment_args = 1" "vdelt moment_args = 0"
  by (simp_all add: moment_args_def)

lemma moment_state_fields:
  "registers moment_state = replicate 32 uninitialised"
  "device_ec (dev moment_state) = replicate 64 1" "device_mu (dev moment_state) = replicate 32 0"
  "device_eta (dev moment_state) = replicate 32 0" "device_xi (dev moment_state) = replicate 32 0"
  "device_w (dev moment_state) = replicate 32 1"
  "qtot_ptr (mem moment_state) = (\<lambda>_ l. if l = 0 then 1 else 0)"
  "dinv_ptr (mem moment_state) = (\<lambda>_ _. 1)" "flux_ptr (mem moment_state) = (\<lambda>_. 0)"
  "fluxm_ptr (mem moment_state) = (\<lambda>_ _. 0)"
  "ghostx_in_ptr (mem moment_state) = (\<lambda>_ _. 0)" "ghosty_in_ptr (mem moment_state) = (\<lambda>_ _. 0)"
  "ghostz_in_ptr (mem moment_state) = (\<lambda>_ _. 0)"
  by (simp_all add: moment_state_def moment_device_def moment_memory_def)

lemma one_warp_fields:
  "blockDim (one_warp ui ud) = 32" "thr_angles (one_warp ui ud) = 1"
  "num_angles (one_warp ui ud) = 32"
  by (simp_all add: one_warp_def num_angles_def)

lemma moment_example_registers:
  assumes "g < 32"
  shows "registers (write_ghosts (one_warp ui ud) moment_args 0 0 0 0
           (moment_state\<lparr>registers := map no_fixup
              (for_angles (one_warp ui ud) (diagonal_solve (mem moment_state) (0, 0, 0))
                (for_angles (one_warp ui ud)
                  (initial_solution (one_warp ui ud) moment_args (dev moment_state)
                     (mem moment_state) 0 0 0 0) (registers moment_state)))\<rparr>)) ! g
         = uninitialised\<lparr>psi := 1, pc := 1, psii := 2, psij := 2, psik := 2\<rparr>"
  using assms
  by (simp add: one_warp_fields no_fixup_def diagonal_solve_def initial_solution_def Let_def
      angular_source_def moment_args_fields moment_state_fields corner_offset_def
      local_point_def upto.simps)


lemma acquire_chunk_free:
  assumes "available ! (sm mod MAX_CTA) = 1"
  shows "acquire_chunk available sm = Some (sm mod MAX_CTA, available[sm mod MAX_CTA := 0])"
proof -
  have "[0..<MAX_CTA] = 0 # [1..<MAX_CTA]"
    by (simp add: MAX_CTA_def upt_conv_Cons)
  then show ?thesis
    using assms by (simp add: acquire_chunk_def Let_def atomicDec_def)
qed

lemma moment_sweep_cells: "sweep_cells moment_args = [(0, 0, 0)]"
  by (simp add: sweep_cells_def moment_args_fields upto.simps)

lemma flux_write_ghosts [simp]:
  "flux_ptr (mem (write_ghosts c a k x y z s)) = flux_ptr (mem s)"
  "fluxm_ptr (mem (write_ghosts c a k x y z s)) = fluxm_ptr (mem s)"
  by (simp_all add: write_ghosts_def Let_def)

lemma tables_write_ghosts [simp]:
  "device_ec (dev (write_ghosts c a k x y z s)) = device_ec (dev s)"
  "device_w (dev (write_ghosts c a k x y z s)) = device_w (dev s)"
  by (simp_all add: write_ghosts_def Let_def)

lemma moment_cell:
  fixes ui ud
  defines "s' \<equiv> cell_time_independent_without_fixup (one_warp ui ud) moment_args 0 (0, 0, 0)
                   moment_state"
  shows "fluxm_ptr (mem s') (0, 0, 0) 0 = 1" "flux_ptr (mem s') (0, 0, 0) = 32"
    "moment_sum (one_warp ui ud) moment_args (dev s') (registers s') 1 = 32"
proof -
  let ?c = "one_warp ui ud"
  define s0 where "s0 = write_ghosts ?c moment_args 0 0 0 0
           (moment_state\<lparr>registers := map no_fixup
              (for_angles ?c (diagonal_solve (mem moment_state) (0, 0, 0))
                (for_angles ?c
                  (initial_solution ?c moment_args (dev moment_state)
                     (mem moment_state) 0 0 0 0) (registers moment_state)))\<rparr>)"
  define rs where "rs = for_angles ?c (\<lambda>r g. r\<lparr>psi := device_w (dev s0) ! g * pc r\<rparr>) (registers s0)"
  define m1 where
    "m1 = (mem s0)\<lparr>flux_ptr := atomicAdd (flux_ptr (mem s0)) (0, 0, 0) (flux_total ?c rs)\<rparr>"
  have p: "local_point moment_args 0 0 0 = (0, 0, 0)"
    by (simp add: local_point_def moment_args_fields)
  have s': "s' = flux_moments ?c moment_args 0 0 0 s0"
    by (simp add: s'_def s0_def cell_time_independent_without_fixup_def Let_def p)
  have s0: "device_w (dev s0) = replicate 32 1" "device_ec (dev s0) = replicate 64 1"
    "flux_ptr (mem s0) = (\<lambda>_. 0)" "fluxm_ptr (mem s0) = (\<lambda>_ _. 0)"
    by (simp_all add: s0_def moment_state_fields)
  have r: "registers s0 ! g = uninitialised\<lparr>psi := 1, pc := 1, psii := 2, psij := 2, psik := 2\<rparr>"
    if "g < 32" for g
    unfolding s0_def using that by (rule moment_example_registers)
  have rs: "rs ! g = uninitialised\<lparr>psi := 1, pc := 1, psii := 2, psij := 2, psik := 2\<rparr>"
    if "g < 32" for g
    using that by (simp add: rs_def r one_warp_fields s0)
  have rs': "registers s' = rs" "dev s' = dev s0"
    by (simp_all add: s' rs_def flux_moments_def Let_def)
  have m': "mem s' = moment_reduction ?c moment_args (dev s0) rs (0, 0, 0) 1 m1"
    by (simp add: s' flux_moments_def Let_def p moment_args_fields upto.simps rs_def m1_def)
  have "fluxm_ptr (mem s') (0, 0, 0) (nat (1 - 1)) =
      fluxm_ptr m1 (0, 0, 0) (nat (1 - 1)) +
      thread_total ?c (\<lambda>ang g. device_ec (dev s0) !
         nat (1 * int (num_angles ?c) + corner moment_args * int (num_angles ?c) *
              num_moments moment_args + int ang) * psi (rs ! g)) 0"
    unfolding m' by (rule moment_reduction_one_warp) (simp add: one_warp_fields)
  then show "fluxm_ptr (mem s') (0, 0, 0) 0 = 1"
    by (simp add: thread_total_def one_warp_fields moment_args_fields s0 rs m1_def)
  have "flux_total ?c rs = (\<Sum>g<num_angles ?c. psi (rs ! g))"
    by (rule flux_total_full_warps [where n = 1]) (simp_all add: one_warp_fields)
  also have "\<dots> = (\<Sum>g<num_angles ?c. 1)"
    by (rule sum.cong) (simp_all add: rs one_warp_fields)
  finally have ft: "flux_total ?c rs = 32"
    by (simp add: one_warp_fields)
  show "flux_ptr (mem s') (0, 0, 0) = 32"
    by (simp add: m' m1_def moment_reduction_def ft atomicAdd_adds s0)
  have "moment_sum ?c moment_args (dev s') (registers s') 1 = (\<Sum>g<num_angles ?c. 1)"
    unfolding moment_sum_def rs'
    by (rule sum.cong) (simp_all add: rs one_warp_fields moment_args_fields s0)
  then show "moment_sum (one_warp ui ud) moment_args (dev s') (registers s') 1 = 32"
    by (simp add: one_warp_fields)
qed


lemma moment_kernel:
  "gpu_time_independent_sweep_without_fixup (one_warp ui ud) moment_args moment_device
     moment_memory =
   Some ((dev (cell_time_independent_without_fixup (one_warp ui ud) moment_args 0 (0, 0, 0)
                 moment_state))
          \<lparr>available_chunks := release_chunk (one_warp ui ud) 0
             (available_chunks (dev (cell_time_independent_without_fixup (one_warp ui ud)
                 moment_args 0 (0, 0, 0) moment_state)))\<rparr>,
         mem (cell_time_independent_without_fixup (one_warp ui ud) moment_args 0 (0, 0, 0)
                 moment_state))"
proof -
  have a: "acquire_chunk (available_chunks moment_device) (smid (one_warp ui ud)) =
      Some (0, (replicate 32 1)[0 := 0])"
    using acquire_chunk_free [of "replicate 32 1" 0]
    by (simp add: moment_device_def one_warp_def MAX_CTA_def)
  show ?thesis
    by (simp add: gpu_time_independent_sweep_without_fixup_def run_cta_def a
        moment_sweep_cells one_warp_fields moment_state_def)
qed

text \<open>
  Claim C1. The value added to the field of a higher moment is not the sum over all angles of
  the compute unit. On one full lockstep group of 32 lanes with one angle each, two moments,
  all weights and all entries of \<open>ec\<close> equal to 1 and \<open>pc = 1\<close> for every angle, the kernel
  returns, the scalar flux of the cell has received the sum 32 over all angles, and the sum the
  specification gives for moment 1 is 32, but the field of moment 1 has received 1: the partial
  sum of lane 0 alone, whatever a shuffle reads from a lane that is not running.
\<close>

theorem moment_reduction_drops_angles:
  "\<forall>ui ud.
     map_option (\<lambda>(d', m'). (fluxm_ptr m' (0, 0, 0) 0, flux_ptr m' (0, 0, 0)))
       (gpu_time_independent_sweep_without_fixup (one_warp ui ud) moment_args moment_device
          moment_memory) = Some (1, 32)
     \<and> (let s' = cell_time_independent_without_fixup (one_warp ui ud) moment_args 0 (0, 0, 0)
                   moment_state
        in moment_sum (one_warp ui ud) moment_args (dev s') (registers s') 1 = 32)"
  by (simp add: moment_kernel moment_cell Let_def)

section \<open>Accumulation into the flux fields: properties\<close>

lemma shifted_cleared: "shifted (flux_ptr m) (fluxm_ptr m) (cleared m) = m"
  by (simp add: shifted_def cleared_def)

lemma shift_state_fields [simp]:
  "registers (shift_state f fm s) = registers s" "dev (shift_state f fm s) = dev s"
  "mem (shift_state f fm s) = shifted f fm (mem s)"
  by (simp_all add: shift_state_def)

lemma shift_state_registers:
  "(shift_state f fm s)\<lparr>registers := rs\<rparr> = shift_state f fm (s\<lparr>registers := rs\<rparr>)"
  by (simp add: shift_state_def)

lemma shifted_inputs [simp]:
  "qtot_ptr (shifted f fm m) = qtot_ptr m" "dinv_ptr (shifted f fm m) = dinv_ptr m"
  "t_xs_ptr (shifted f fm m) = t_xs_ptr m" "qim_ptr (shifted f fm m) = qim_ptr m"
  "time_flux_in_ptr (shifted f fm m) = time_flux_in_ptr m"
  "ghostx_in_ptr (shifted f fm m) = ghostx_in_ptr m"
  "ghosty_in_ptr (shifted f fm m) = ghosty_in_ptr m"
  "ghostz_in_ptr (shifted f fm m) = ghostz_in_ptr m"
  by (simp_all add: shifted_def)

lemma initial_solution_shifted [simp]:
  "initial_solution c a d (shifted f fm m) k x y z = initial_solution c a d m k x y z"
  by (intro ext) (simp add: initial_solution_def angular_source_def Let_def)

lemma time_term_shifted [simp]: "time_term a (shifted f fm m) p = time_term a m p"
  by (intro ext) (simp add: time_term_def)

lemma diagonal_solve_shifted [simp]: "diagonal_solve (shifted f fm m) p = diagonal_solve m p"
  by (intro ext) (simp add: diagonal_solve_def)

lemma fixup_entry_shifted [simp]:
  "fixup_entry_td c a k x y z (shift_state f fm s) = fixup_entry_td c a k x y z s"
  "fixup_entry_ti c a k x y z (shift_state f fm s) = fixup_entry_ti c a k x y z s"
  by (simp_all add: fixup_entry_td_def fixup_entry_ti_def Let_def)

lemma write_time_flux_out_shifted:
  "write_time_flux_out c a x y z v (shift_state f fm s) =
     shift_state f fm (write_time_flux_out c a x y z v s)"
  by (simp add: write_time_flux_out_def shift_state_def shifted_def)

lemma write_ghosts_shifted:
  "write_ghosts c a k x y z (shift_state f fm s) = shift_state f fm (write_ghosts c a k x y z s)"
  by (simp add: write_ghosts_def shift_state_def shifted_def Let_def)

lemma fold_atomicAdd_shifted:
  "fold (\<lambda>t ptr. ptr(p := atomicAdd (ptr p) i (v t))) ts (\<lambda>q l. fm q l + g q l) =
     (\<lambda>q l. fm q l + fold (\<lambda>t ptr. ptr(p := atomicAdd (ptr p) i (v t))) ts g q l)"
proof (induction ts arbitrary: g)
  case Nil
  show ?case by simp
next
  case (Cons t ts)
  have "(\<lambda>q l. fm q l + g q l)(p := atomicAdd (\<lambda>l. fm p l + g p l) i (v t)) =
      (\<lambda>q l. fm q l + (g(p := atomicAdd (g p) i (v t))) q l)"
    by (auto simp: fun_eq_iff atomicAdd_adds)
  then show ?case
    by (simp only: fold_simps o_apply Cons.IH)
qed

lemma moment_reduction_shifted:
  "moment_reduction c a d rs p l (shifted f fm m) = shifted f fm (moment_reduction c a d rs p l m)"
  by (simp add: moment_reduction_def shifted_def fold_atomicAdd_shifted)

lemma fold_moment_reduction_shifted:
  "fold (moment_reduction c a d rs p) ls (shifted f fm m) =
     shifted f fm (fold (moment_reduction c a d rs p) ls m)"
  by (induction ls arbitrary: m) (simp_all add: moment_reduction_shifted)

lemma flux_moments_shifted:
  "flux_moments c a x y z (shift_state f fm s) = shift_state f fm (flux_moments c a x y z s)"
proof -
  have "(mem (shift_state f fm s))\<lparr>flux_ptr :=
          atomicAdd (flux_ptr (mem (shift_state f fm s))) p v\<rparr> =
        shifted f fm ((mem s)\<lparr>flux_ptr := atomicAdd (flux_ptr (mem s)) p v\<rparr>)" for p v
    by (auto simp: shifted_def atomicAdd_adds fun_eq_iff)
  then show ?thesis
    by (simp add: flux_moments_def Let_def fold_moment_reduction_shifted shift_state_def)
qed

lemma cell_time_independent_without_fixup_shifted:
  "cell_time_independent_without_fixup c a k xyz (shift_state f fm s) =
     shift_state f fm (cell_time_independent_without_fixup c a k xyz s)"
  by (simp add: cell_time_independent_without_fixup_def Let_def split_beta
      shift_state_registers write_ghosts_shifted flux_moments_shifted)

lemma cell_time_dependent_without_fixup_shifted:
  "cell_time_dependent_without_fixup c a k xyz (shift_state f fm s) =
     shift_state f fm (cell_time_dependent_without_fixup c a k xyz s)"
  by (simp add: cell_time_dependent_without_fixup_def Let_def split_beta
      shift_state_registers write_ghosts_shifted flux_moments_shifted
      write_time_flux_out_shifted)

lemma cell_time_independent_with_fixup_shifted:
  "cell_time_independent_with_fixup fuel c a k xyz (shift_state f fm s) =
     map_option (shift_state f fm) (cell_time_independent_with_fixup fuel c a k xyz s)"
  by (simp add: cell_time_independent_with_fixup_def split_beta
      shift_state_registers write_ghosts_shifted flux_moments_shifted split: option.splits sum.splits)

lemma cell_time_dependent_with_fixup_shifted:
  "cell_time_dependent_with_fixup fuel c a k xyz (shift_state f fm s) =
     map_option (shift_state f fm) (cell_time_dependent_with_fixup fuel c a k xyz s)"
  by (simp add: cell_time_dependent_with_fixup_def split_beta
      shift_state_registers write_ghosts_shifted flux_moments_shifted
      write_time_flux_out_shifted split: option.splits sum.splits)

lemma for_cells_shifted:
  assumes "\<And>xyz s. body xyz (shift_state f fm s) = map_option (shift_state f fm) (body xyz s)"
  shows "for_cells body cells (shift_state f fm s) =
     map_option (shift_state f fm) (for_cells body cells s)"
proof (induction cells arbitrary: s)
  case Nil
  show ?case by simp
next
  case (Cons xyz cells)
  show ?case
    by (cases "body xyz s") (simp_all add: assms Cons.IH)
qed

lemma run_cta_shifted:
  assumes "\<And>k xyz s. cell k xyz (shift_state f fm s) = map_option (shift_state f fm) (cell k xyz s)"
  shows "run_cta c cell a d (shifted f fm m) =
     map_option (\<lambda>(d', m'). (d', shifted f fm m')) (run_cta c cell a d m)"
proof (cases "blockDim c = 0")
  case True
  then show ?thesis by (simp add: run_cta_def)
next
  case False
  show ?thesis
  proof (cases "acquire_chunk (available_chunks d) (smid c)")
    case None
    with False show ?thesis by (simp add: run_cta_def)
  next
    case (Some ka)
    obtain k av where ka: "ka = (k, av)" by (cases ka)
    let ?s = "\<lparr>registers = replicate (num_angles c) uninitialised,
               dev = d\<lparr>available_chunks := av\<rparr>, mem = m\<rparr>"
    have s: "\<lparr>registers = replicate (num_angles c) uninitialised,
               dev = d\<lparr>available_chunks := av\<rparr>, mem = shifted f fm m\<rparr> = shift_state f fm ?s"
      by (simp add: shift_state_def)
    have "for_cells (cell k) (sweep_cells a) (shift_state f fm ?s) =
        map_option (shift_state f fm) (for_cells (cell k) (sweep_cells a) ?s)"
      by (rule for_cells_shifted) (rule assms)
    then show ?thesis
      using False Some ka
      by (cases "for_cells (cell k) (sweep_cells a) ?s") (simp_all add: run_cta_def s)
  qed
qed

lemma run_kernel_shifted:
  "run_kernel k fuel c a d (shifted f fm m) =
     map_option (\<lambda>(d', m'). (d', shifted f fm m')) (run_kernel k fuel c a d m)"
proof (cases k)
  case TimeDependentWithFixup
  then show ?thesis
    by (simp add: run_kernel_def gpu_time_dependent_sweep_with_fixup_def
        run_cta_shifted cell_time_dependent_with_fixup_shifted)
next
  case TimeDependentWithoutFixup
  then show ?thesis
    by (simp add: run_kernel_def gpu_time_dependent_sweep_without_fixup_def
        run_cta_shifted cell_time_dependent_without_fixup_shifted)
next
  case TimeIndependentWithFixup
  then show ?thesis
    by (simp add: run_kernel_def gpu_time_independent_sweep_with_fixup_def
        run_cta_shifted cell_time_independent_with_fixup_shifted)
next
  case TimeIndependentWithoutFixup
  then show ?thesis
    by (simp add: run_kernel_def gpu_time_independent_sweep_without_fixup_def
        run_cta_shifted cell_time_independent_without_fixup_shifted)
qed

lemma read_only_write_time_flux_out [simp]:
  "read_only_inputs (mem (write_time_flux_out c a x y z v s)) = read_only_inputs (mem s)"
  by (simp add: write_time_flux_out_def read_only_inputs_def)

lemma read_only_write_ghosts [simp]:
  "read_only_inputs (mem (write_ghosts c a k x y z s)) = read_only_inputs (mem s)"
  by (simp add: write_ghosts_def read_only_inputs_def Let_def)

lemma read_only_fold_moment_reduction [simp]:
  "read_only_inputs (fold (moment_reduction c a d rs p) ls m) = read_only_inputs m"
  by (induction ls arbitrary: m) (simp_all add: moment_reduction_def read_only_inputs_def)

lemma read_only_flux_moments [simp]:
  "read_only_inputs (mem (flux_moments c a x y z s)) = read_only_inputs (mem s)"
proof -
  have "read_only_inputs (m\<lparr>flux_ptr := f\<rparr>) = read_only_inputs m" for m f
    by (simp add: read_only_inputs_def)
  then show ?thesis
    by (simp add: flux_moments_def Let_def)
qed

lemma fold_leaders_elsewhere:
  "q \<noteq> p \<Longrightarrow> fold (\<lambda>t ptr. ptr(p := F t ptr)) ts ptr q = ptr q"
  by (induction ts arbitrary: ptr) simp_all

lemma fold_moment_reduction_elsewhere:
  "q \<noteq> p \<Longrightarrow>
   fluxm_ptr (fold (moment_reduction c a d rs p) ls m) q = fluxm_ptr m q
   \<and> flux_ptr (fold (moment_reduction c a d rs p) ls m) = flux_ptr m"
  by (induction ls arbitrary: m) (simp_all add: moment_reduction_def fold_leaders_elsewhere)

lemma flux_moments_elsewhere:
  assumes "q \<noteq> local_point a x y z"
  shows "flux_ptr (mem (flux_moments c a x y z s)) q = flux_ptr (mem s) q"
    and "fluxm_ptr (mem (flux_moments c a x y z s)) q = fluxm_ptr (mem s) q"
  using assms
  by (simp_all add: flux_moments_def Let_def fold_moment_reduction_elsewhere atomicAdd_adds)

lemma flux_write_time_flux_out [simp]:
  "flux_ptr (mem (write_time_flux_out c a x y z v s)) = flux_ptr (mem s)"
  "fluxm_ptr (mem (write_time_flux_out c a x y z v s)) = fluxm_ptr (mem s)"
  by (simp_all add: write_time_flux_out_def)

lemma cell_time_independent_without_fixup_frame:
  "cell_frame a xyz s (cell_time_independent_without_fixup c a k xyz s)"
  by (simp add: cell_frame_def cell_time_independent_without_fixup_def Let_def split_beta
      flux_moments_elsewhere)

lemma cell_time_dependent_without_fixup_frame:
  "cell_frame a xyz s (cell_time_dependent_without_fixup c a k xyz s)"
  by (simp add: cell_frame_def cell_time_dependent_without_fixup_def Let_def split_beta
      flux_moments_elsewhere)

lemma cell_time_independent_with_fixup_frame:
  "cell_time_independent_with_fixup fuel c a k xyz s = Some s' \<Longrightarrow> cell_frame a xyz s s'"
  by (auto simp: cell_frame_def cell_time_independent_with_fixup_def split_beta
      flux_moments_elsewhere split: option.splits sum.splits)

lemma cell_time_dependent_with_fixup_frame:
  "cell_time_dependent_with_fixup fuel c a k xyz s = Some s' \<Longrightarrow> cell_frame a xyz s s'"
  by (auto simp: cell_frame_def cell_time_dependent_with_fixup_def split_beta
      flux_moments_elsewhere split: option.splits sum.splits)

lemma for_cells_frame:
  assumes "\<And>xyz s s'. body xyz s = Some s' \<Longrightarrow> cell_frame a xyz s s'"
  shows "for_cells body cells s = Some s' \<Longrightarrow>
     read_only_inputs (mem s') = read_only_inputs (mem s) \<and>
     (\<forall>q. q \<notin> (\<lambda>(x, y, z). local_point a x y z) ` set cells \<longrightarrow>
        flux_ptr (mem s') q = flux_ptr (mem s) q \<and> fluxm_ptr (mem s') q = fluxm_ptr (mem s) q)"
proof (induction cells arbitrary: s)
  case Nil
  then show ?case by simp
next
  case (Cons xyz cells)
  from Cons.prems obtain s1 where b: "body xyz s = Some s1"
    and r: "for_cells body cells s1 = Some s'"
    by (auto split: option.splits)
  from assms [OF b] Cons.IH [OF r] show ?case
    by (auto simp: cell_frame_def)
qed

lemma run_cta_frame:
  assumes "\<And>k xyz s s'. cell k xyz s = Some s' \<Longrightarrow> cell_frame a xyz s s'"
    and "run_cta c cell a d m = Some (d', m')"
  shows "read_only_inputs m' = read_only_inputs m \<and>
     (\<forall>q. q \<notin> chunk_points a \<longrightarrow>
        flux_ptr m' q = flux_ptr m q \<and> fluxm_ptr m' q = fluxm_ptr m q)"
proof (cases "blockDim c = 0")
  case True
  with assms(2) show ?thesis by (simp add: run_cta_def)
next
  case False
  with assms(2) obtain k av s' where
    f: "for_cells (cell k) (sweep_cells a)
          \<lparr>registers = replicate (num_angles c) uninitialised,
           dev = d\<lparr>available_chunks := av\<rparr>, mem = m\<rparr> = Some s'"
    and m': "m' = mem s'"
    by (auto simp: run_cta_def split: option.splits)
  from for_cells_frame [where body = "cell k", OF assms(1) f] show ?thesis
    by (simp add: m' chunk_points_def)
qed

lemma run_kernel_frame:
  assumes "run_kernel k fuel c a d m = Some (d', m')"
  shows "read_only_inputs m' = read_only_inputs m \<and>
     (\<forall>q. q \<notin> chunk_points a \<longrightarrow>
        flux_ptr m' q = flux_ptr m q \<and> fluxm_ptr m' q = fluxm_ptr m q)"
proof (cases k)
  case TimeDependentWithFixup
  with assms have "run_cta c (cell_time_dependent_with_fixup fuel c a) a d m = Some (d', m')"
    by (simp add: run_kernel_def gpu_time_dependent_sweep_with_fixup_def)
  then show ?thesis
    by (rule run_cta_frame [rotated]) (rule cell_time_dependent_with_fixup_frame)
next
  case TimeDependentWithoutFixup
  with assms have "run_cta c
      (\<lambda>k xyz s. Some (cell_time_dependent_without_fixup c a k xyz s)) a d m = Some (d', m')"
    by (simp add: run_kernel_def gpu_time_dependent_sweep_without_fixup_def)
  then show ?thesis
    by (rule run_cta_frame [rotated]) (auto simp: cell_time_dependent_without_fixup_frame)
next
  case TimeIndependentWithFixup
  with assms have "run_cta c (cell_time_independent_with_fixup fuel c a) a d m = Some (d', m')"
    by (simp add: run_kernel_def gpu_time_independent_sweep_with_fixup_def)
  then show ?thesis
    by (rule run_cta_frame [rotated]) (rule cell_time_independent_with_fixup_frame)
next
  case TimeIndependentWithoutFixup
  with assms have "run_cta c
      (\<lambda>k xyz s. Some (cell_time_independent_without_fixup c a k xyz s)) a d m = Some (d', m')"
    by (simp add: run_kernel_def gpu_time_independent_sweep_without_fixup_def)
  then show ?thesis
    by (rule run_cta_frame [rotated]) (auto simp: cell_time_independent_without_fixup_frame)
qed

section \<open>The end-to-end scenario: properties\<close>

lemma two_lanes_fields:
  "blockDim (two_lanes u) = 2" "thr_angles (two_lanes u) = 1" "smid (two_lanes u) = 0"
  "inactive_double (two_lanes u) = u" "num_angles (two_lanes u) = 2"
  by (simp_all add: two_lanes_def num_angles_def)

lemma butterfly_step_two_lanes:
  "butterfly_step u 16 [a, b] = [a + u, b + u]"
  "butterfly_step u 8 [a, b] = [a + u, b + u]"
  "butterfly_step u 4 [a, b] = [a + u, b + u]"
  "butterfly_step u 2 [a, b] = [a + u, b + u]"
  "butterfly_step u 1 [a, b] = [a + b, b + a]"
  by (simp_all add: butterfly_step_def shfl_xor_def Let_def warpid_def laneid_def)

lemma warp_butterfly_two_lanes:
  "warp_butterfly u [a, b] = [a + u + u + u + u + (b + u + u + u + u), b + u + u + u + u + (a + u + u + u + u)]"
  by (simp only: warp_butterfly_def fold_simps o_apply id_apply butterfly_step_two_lanes)

lemma cta_sum_two_lanes: "cta_sum u [a, b] = a + b + 16 * u"
  by (simp add: cta_sum_def warp_butterfly_two_lanes trampoline_def upt_32 laneid_def Let_def)

lemma upt_2: "[0..<2] = [0, 1]"
  by (simp add: numeral_2_eq_2)

lemma flux_total_two_lanes:
  "flux_total (two_lanes u) rs = psi (rs ! 0) + psi (rs ! 1) + 16 * u"
  by (simp add: flux_total_def two_lanes_fields thread_total_def upt_2 cta_sum_two_lanes)

lemma flux_fold_moment_reduction [simp]:
  "flux_ptr (fold (moment_reduction c a d rs p) ls m) = flux_ptr m"
  by (induction ls arbitrary: m) (simp_all add: moment_reduction_def)

lemma cosines_write_ghosts [simp]:
  "cosines (dev (write_ghosts c a k x y z s)) = cosines (dev s)"
  by (simp add: write_ghosts_def Let_def cosines_def)

lemma cosines_flux_moments [simp]:
  "cosines (dev (flux_moments c a x y z s)) = cosines (dev s)"
  by (simp add: flux_moments_def Let_def)

lemma cosines_cell [simp]:
  "cosines (dev (cell_time_independent_without_fixup c a k xyz s)) = cosines (dev s)"
  by (simp add: cell_time_independent_without_fixup_def Let_def split_beta)

lemma cell_flux_two_lanes:
  "flux_ptr (mem (cell_time_independent_without_fixup (two_lanes u) a k (x, y, z) s))
     (local_point a x y z) =
   flux_ptr (mem s) (local_point a x y z) +
     (device_w (dev s) ! 0 * cell_pc (two_lanes u) a k x y z s 0 +
      device_w (dev s) ! 1 * cell_pc (two_lanes u) a k x y z s 1 + 16 * u)"
proof -
  have w: "device_w (dev (write_ghosts c a k x y z s)) = device_w (dev s)" for c s
    by (simp add: write_ghosts_def Let_def)
  show ?thesis
    by (simp add: cell_time_independent_without_fixup_def Let_def flux_moments_def
      atomicAdd_adds flux_total_two_lanes two_lanes_fields cell_pc_def no_fixup_def w)
qed

lemma cell_psii_two_lanes:
  "g < 2 \<Longrightarrow>
   psii (registers (cell_time_independent_without_fixup (two_lanes u) a k (x, y, z) s) ! g) =
     2 * cell_pc (two_lanes u) a k x y z s g -
     (if x = 0 then ghostx_in_ptr (mem s) (ghost_point_x a (local_point a x y z)) g
      else psii (registers s ! g))"
  by (simp add: cell_time_independent_without_fixup_def Let_def two_lanes_fields cell_pc_def
      no_fixup_def diagonal_solve_def initial_solution_def)

lemma cell_pc_formula:
  assumes "num_moments a = 1" "\<not> mms_source a"
  shows "cell_pc c a k x y z s g =
     (qtot_ptr (mem s) (local_point a x y z) 0
      + (if x = 0 then ghostx_in_ptr (mem s) (ghost_point_x a (local_point a x y z)) g
         else psii (registers s ! g)) * (device_mu (dev s) ! g * hi a)
      + (if y = 0 then ghosty_in_ptr (mem s) (ghost_point_y a (local_point a x y z)) g
         else yflux_pencils (dev s) (pencil_index k x g)) * (device_eta (dev s) ! g * hj a)
      + (if z = 0 then ghostz_in_ptr (mem s) (ghost_point_z a (local_point a x y z)) g
         else zflux_planes (dev s) (plane_index k y x g)) * (device_xi (dev s) ! g * hk a))
     * dinv_ptr (mem s) (local_point a x y z) g"
  using assms
  by (simp add: cell_pc_def diagonal_solve_def initial_solution_def angular_source_def Let_def
      upto.simps mult.assoc)

lemma for_cells_total:
  "for_cells (\<lambda>xyz s. Some (f xyz s)) cells s = Some (fold f cells s)"
  by (induction cells arbitrary: s) simp_all

lemma local_point_inj:
  "local_point a x y z = local_point a x' y' z' \<longleftrightarrow> x = x' \<and> y = y' \<and> z = z'"
  by (auto simp: local_point_def split: prod.splits)

lemma fold_cells_uniform:
  assumes step: "\<And>xyz s. Inv s \<Longrightarrow>
      Inv (f xyz s) \<and> fl (f xyz s) (lp xyz) = fl s (lp xyz) + K xyz s
      \<and> (\<forall>q. q \<noteq> lp xyz \<longrightarrow> fl (f xyz s) q = fl s q)"
  shows "distinct (map lp cells) \<Longrightarrow> Inv s \<Longrightarrow>
     Inv (fold f cells s)
     \<and> (\<forall>q. q \<notin> lp ` set cells \<longrightarrow> fl (fold f cells s) q = fl s q)"
proof (induction cells arbitrary: s)
  case Nil
  then show ?case by simp
next
  case (Cons xyz cells)
  from step [OF Cons.prems(2)] have i: "Inv (f xyz s)"
    and e: "\<And>q. q \<noteq> lp xyz \<Longrightarrow> fl (f xyz s) q = fl s q"
    by auto
  from Cons.prems(1) have d: "distinct (map lp cells)" by simp
  from Cons.IH [OF d i] e show ?case
    by auto
qed

lemma fold_cells_each:
  assumes step: "\<And>xyz s. Inv s \<Longrightarrow>
      Inv (f xyz s) \<and> fl (f xyz s) (lp xyz) = fl s (lp xyz) + K
      \<and> (\<forall>q. q \<noteq> lp xyz \<longrightarrow> fl (f xyz s) q = fl s q)"
  shows "distinct (map lp cells) \<Longrightarrow> Inv s \<Longrightarrow>
     (\<forall>xyz\<in>set cells. fl (fold f cells s) (lp xyz) = fl s (lp xyz) + K)"
proof (induction cells arbitrary: s)
  case Nil
  then show ?case by simp
next
  case (Cons xyz cells)
  from step [OF Cons.prems(2)] have i: "Inv (f xyz s)"
    and h: "fl (f xyz s) (lp xyz) = fl s (lp xyz) + K"
    and e: "\<And>q. q \<noteq> lp xyz \<Longrightarrow> fl (f xyz s) q = fl s q"
    by auto
  from Cons.prems(1) have d: "distinct (map lp cells)" and n: "lp xyz \<notin> lp ` set cells"
    by simp_all
  have u: "fl (fold f cells (f xyz s)) q = fl (f xyz s) q" if "q \<notin> lp ` set cells" for q
    using fold_cells_uniform [where Inv = Inv and f = f and fl = fl and lp = lp
        and K = "\<lambda>_ _. K", OF step d i] that
    by blast
  have "fl (fold f (xyz # cells) s) (lp xyz) = fl s (lp xyz) + K"
    using u [OF n] h by simp
  moreover have "fl (fold f (xyz # cells) s) (lp c) = fl s (lp c) + K" if "c \<in> set cells" for c
  proof -
    from that n have "lp c \<noteq> lp xyz" by (metis imageI)
    with Cons.IH [OF d i] that e show ?thesis by simp
  qed
  ultimately show ?case by simp
qed

lemma scenario_kernel:
  assumes "available_chunks d ! 0 = 1"
  shows "gpu_time_independent_sweep_without_fixup (two_lanes u) a d m =
     Some ((dev (fold (cell_time_independent_without_fixup (two_lanes u) a 0) (sweep_cells a)
                   (scenario_start d m)))
            \<lparr>available_chunks := release_chunk (two_lanes u) 0
               (available_chunks (dev (fold (cell_time_independent_without_fixup (two_lanes u) a 0)
                   (sweep_cells a) (scenario_start d m))))\<rparr>,
           mem (fold (cell_time_independent_without_fixup (two_lanes u) a 0) (sweep_cells a)
                   (scenario_start d m)))"
proof -
  have "acquire_chunk (available_chunks d) (smid (two_lanes u)) =
      Some (0, (available_chunks d)[0 := 0])"
    using acquire_chunk_free [of "available_chunks d" 0] assms
    by (simp add: two_lanes_fields MAX_CTA_def)
  then show ?thesis
    by (simp add: gpu_time_independent_sweep_without_fixup_def run_cta_def two_lanes_fields
        for_cells_total scenario_start_def)
qed

lemma scenario_cells:
  assumes "x_range a = 2" "y_range a = 2" "z_range a = 2"
  shows "sweep_cells a =
     [(0, 0, 0), (1, 0, 0), (0, 1, 0), (1, 1, 0), (0, 0, 1), (1, 0, 1), (0, 1, 1), (1, 1, 1)]"
  using assms by (simp add: sweep_cells_def upto.simps)

lemma scenario_cell:
  assumes a: "num_moments a = 1" "\<not> mms_source a"
    and inv: "read_only_inputs (mem s) = read_only_inputs m" "cosines (dev s) = cosines d"
    and m: "qtot_ptr m = (\<lambda>_ _. 1)" "dinv_ptr m = (\<lambda>_ _. 1 / 2)"
    and z: "\<forall>g<2. device_mu d ! g * hi a = 0 \<and> device_eta d ! g * hj a = 0
              \<and> device_xi d ! g * hk a = 0"
  shows "flux_ptr (mem (cell_time_independent_without_fixup (two_lanes u) a k (x, y, z) s))
           (local_point a x y z) =
         flux_ptr (mem s) (local_point a x y z) +
           (device_w d ! 0 * (1 / 2) + device_w d ! 1 * (1 / 2) + 16 * u)"
proof -
  from inv(1) m have q: "qtot_ptr (mem s) = (\<lambda>_ _. 1)" "dinv_ptr (mem s) = (\<lambda>_ _. 1 / 2)"
    by (simp_all add: read_only_inputs_def)
  from inv(2) have t: "device_mu (dev s) = device_mu d" "device_eta (dev s) = device_eta d"
    "device_xi (dev s) = device_xi d" "device_w (dev s) = device_w d"
    by (simp_all add: cosines_def)
  have zz: "device_mu d ! g * hi a = 0" "device_eta d ! g * hj a = 0"
    "device_xi d ! g * hk a = 0" if "g < 2" for g
    using z that by blast+
  have "cell_pc (two_lanes u) a k x y z s g = 1 / 2" if "g < 2" for g
    by (simp add: cell_pc_formula [OF a] q t zz [OF that])
  then have "cell_pc (two_lanes u) a k x y z s 0 = 1 / 2"
    "cell_pc (two_lanes u) a k x y z s 1 = 1 / 2"
    by simp_all
  then show ?thesis
    by (simp only: cell_flux_two_lanes t)
qed

lemma cell_elsewhere:
  "q \<noteq> (case xyz of (x, y, z) \<Rightarrow> local_point a x y z) \<Longrightarrow>
   flux_ptr (mem (cell_time_independent_without_fixup c a k xyz s)) q = flux_ptr (mem s) q"
  using cell_time_independent_without_fixup_frame [of a xyz s c k]
  unfolding cell_frame_def by blast

lemma fold_cells_elsewhere:
  "q \<notin> (\<lambda>(x, y, z). local_point a x y z) ` set cells \<Longrightarrow>
   flux_ptr (mem (fold (cell_time_independent_without_fixup c a k) cells s)) q =
     flux_ptr (mem s) q"
proof (induction cells arbitrary: s)
  case Nil
  show ?case by simp
next
  case (Cons xyz cells)
  from Cons show ?case
    by (simp add: cell_elsewhere)
qed

lemma scenario_invariant:
  assumes "read_only_inputs (mem s) = read_only_inputs m" "cosines (dev s) = cosines d"
  shows "read_only_inputs (mem (cell_time_independent_without_fixup c a k xyz s)) =
       read_only_inputs m
     \<and> cosines (dev (cell_time_independent_without_fixup c a k xyz s)) = cosines d"
  using assms cell_time_independent_without_fixup_frame [of a xyz s c k]
  by (simp add: cell_frame_def)

lemma scenario_flux_values:
  assumes r: "x_range a = 2" "y_range a = 2" "z_range a = 2"
    and a: "num_moments a = 1" "\<not> mms_source a"
    and av: "available_chunks d ! 0 = 1"
    and m: "qtot_ptr m = (\<lambda>_ _. 1)" "dinv_ptr m = (\<lambda>_ _. 1 / 2)"
    and gh: "ghostx_in_ptr m = (\<lambda>_ _. 0)" "ghosty_in_ptr m = (\<lambda>_ _. 0)"
      "ghostz_in_ptr m = (\<lambda>_ _. 0)"
  shows "\<exists>d' m'.
     gpu_time_independent_sweep_without_fixup (two_lanes u) a d m = Some (d', m')
     \<and> flux_ptr m' (local_point a 0 0 0) =
         flux_ptr m (local_point a 0 0 0) +
           (device_w d ! 0 * (1 / 2) + device_w d ! 1 * (1 / 2) + 16 * u)
     \<and> flux_ptr m' (local_point a 1 0 0) =
         flux_ptr m (local_point a 1 0 0) +
           (device_w d ! 0 * ((1 + device_mu d ! 0 * hi a) / 2) +
            device_w d ! 1 * ((1 + device_mu d ! 1 * hi a) / 2) + 16 * u)
     \<and> ((\<forall>g<2. device_mu d ! g * hi a = 0 \<and> device_eta d ! g * hj a = 0
               \<and> device_xi d ! g * hk a = 0) \<longrightarrow>
         (\<forall>p\<in>chunk_points a.
            flux_ptr m' p =
              flux_ptr m p + (device_w d ! 0 * (1 / 2) + device_w d ! 1 * (1 / 2) + 16 * u)))"
proof -
  let ?c = "two_lanes u"
  let ?f = "cell_time_independent_without_fixup ?c a 0"
  let ?lp = "\<lambda>(x, y, z). local_point a x y z"
  define s0 where "s0 = scenario_start d m"
  define s1 where "s1 = ?f (0, 0, 0) s0"
  define s2 where "s2 = ?f (1, 0, 0) s1"
  define sF where "sF = fold ?f (sweep_cells a) s0"
  note cells = scenario_cells [OF r]
  have i0: "read_only_inputs (mem s0) = read_only_inputs m" "cosines (dev s0) = cosines d"
    by (simp_all add: s0_def scenario_start_def cosines_def)
  have i1: "read_only_inputs (mem s1) = read_only_inputs m" "cosines (dev s1) = cosines d"
    unfolding s1_def using scenario_invariant [OF i0] by simp_all
  have f0: "flux_ptr (mem s0) = flux_ptr m"
    by (simp add: s0_def scenario_start_def)
  have q: "qtot_ptr (mem s) = (\<lambda>_ _. 1)" "dinv_ptr (mem s) = (\<lambda>_ _. 1 / 2)"
    "ghostx_in_ptr (mem s) = (\<lambda>_ _. 0)" "ghosty_in_ptr (mem s) = (\<lambda>_ _. 0)"
    "ghostz_in_ptr (mem s) = (\<lambda>_ _. 0)"
    if "read_only_inputs (mem s) = read_only_inputs m" for s
    using that m gh by (simp_all add: read_only_inputs_def)
  have t: "device_mu (dev s) = device_mu d" "device_w (dev s) = device_w d"
    if "cosines (dev s) = cosines d" for s
    using that by (simp_all add: cosines_def)
  have pc0: "cell_pc ?c a 0 0 0 0 s0 g = 1 / 2" for g
    by (simp add: cell_pc_formula [OF a] q [OF i0(1)])
  have psii1: "psii (registers s1 ! g) = 1" if "g < 2" for g
    unfolding s1_def using that by (simp add: cell_psii_two_lanes pc0 q [OF i0(1)])
  have pc1: "cell_pc ?c a 0 1 0 0 s1 g = (1 + device_mu d ! g * hi a) / 2" if "g < 2" for g
    by (simp add: cell_pc_formula [OF a] q [OF i1(1)] t [OF i1(2)] psii1 [OF that])
  have k: "gpu_time_independent_sweep_without_fixup ?c a d m =
      Some ((dev sF)\<lparr>available_chunks :=
               release_chunk ?c 0 (available_chunks (dev sF))\<rparr>, mem sF)"
    unfolding sF_def s0_def by (rule scenario_kernel [OF av])
  have sF1: "sF = fold ?f [(1, 0, 0), (0, 1, 0), (1, 1, 0), (0, 0, 1), (1, 0, 1), (0, 1, 1),
      (1, 1, 1)] s1"
    by (simp add: sF_def cells s1_def)
  have sF2: "sF = fold ?f [(0, 1, 0), (1, 1, 0), (0, 0, 1), (1, 0, 1), (0, 1, 1), (1, 1, 1)] s2"
    by (simp add: sF1 s2_def)
  have "flux_ptr (mem sF) (local_point a 0 0 0) = flux_ptr (mem s1) (local_point a 0 0 0)"
    unfolding sF1 by (rule fold_cells_elsewhere) (simp add: local_point_inj)
  also have "\<dots> = flux_ptr m (local_point a 0 0 0) +
      (device_w d ! 0 * (1 / 2) + device_w d ! 1 * (1 / 2) + 16 * u)"
    unfolding s1_def by (simp only: cell_flux_two_lanes pc0 t [OF i0(2)] f0)
  finally have c0: "flux_ptr (mem sF) (local_point a 0 0 0) =
      flux_ptr m (local_point a 0 0 0) +
        (device_w d ! 0 * (1 / 2) + device_w d ! 1 * (1 / 2) + 16 * u)" .
  have f1: "flux_ptr (mem s1) (local_point a 1 0 0) = flux_ptr m (local_point a 1 0 0)"
    unfolding s1_def by (simp add: cell_elsewhere local_point_inj f0)
  have p1: "cell_pc ?c a 0 1 0 0 s1 0 = (1 + device_mu d ! 0 * hi a) / 2"
    "cell_pc ?c a 0 1 0 0 s1 1 = (1 + device_mu d ! 1 * hi a) / 2"
    by (simp_all add: pc1)
  have "flux_ptr (mem sF) (local_point a 1 0 0) = flux_ptr (mem s2) (local_point a 1 0 0)"
    unfolding sF2 by (rule fold_cells_elsewhere) (simp add: local_point_inj)
  also have "\<dots> = flux_ptr m (local_point a 1 0 0) +
      (device_w d ! 0 * ((1 + device_mu d ! 0 * hi a) / 2) +
       device_w d ! 1 * ((1 + device_mu d ! 1 * hi a) / 2) + 16 * u)"
    unfolding s2_def by (simp only: cell_flux_two_lanes p1 t [OF i1(2)] f1)
  finally have c1: "flux_ptr (mem sF) (local_point a 1 0 0) =
      flux_ptr m (local_point a 1 0 0) +
        (device_w d ! 0 * ((1 + device_mu d ! 0 * hi a) / 2) +
         device_w d ! 1 * ((1 + device_mu d ! 1 * hi a) / 2) + 16 * u)" .
  have c2: "\<forall>p\<in>chunk_points a. flux_ptr (mem sF) p =
      flux_ptr m p + (device_w d ! 0 * (1 / 2) + device_w d ! 1 * (1 / 2) + 16 * u)"
    if z: "\<forall>g<2. device_mu d ! g * hi a = 0 \<and> device_eta d ! g * hj a = 0
               \<and> device_xi d ! g * hk a = 0"
  proof -
    let ?Inv = "\<lambda>s. read_only_inputs (mem s) = read_only_inputs m \<and> cosines (dev s) = cosines d"
    let ?K = "device_w d ! 0 * (1 / 2) + device_w d ! 1 * (1 / 2) + 16 * u"
    have step: "?Inv (?f xyz s) \<and>
        flux_ptr (mem (?f xyz s)) (?lp xyz) = flux_ptr (mem s) (?lp xyz) + ?K \<and>
        (\<forall>q. q \<noteq> ?lp xyz \<longrightarrow> flux_ptr (mem (?f xyz s)) q = flux_ptr (mem s) q)"
      if i: "?Inv s" for xyz s
    proof -
      obtain x y z where xyz: "xyz = (x, y, z)" by (cases xyz)
      from i have i': "read_only_inputs (mem s) = read_only_inputs m"
        "cosines (dev s) = cosines d" by simp_all
      have "\<forall>q. q \<noteq> ?lp xyz \<longrightarrow> flux_ptr (mem (?f xyz s)) q = flux_ptr (mem s) q"
        by (simp add: cell_elsewhere)
      moreover have "flux_ptr (mem (?f xyz s)) (?lp xyz) = flux_ptr (mem s) (?lp xyz) + ?K"
        unfolding xyz using scenario_cell [OF a i' m z] by simp
      ultimately show ?thesis
        using scenario_invariant [OF i'] by blast
    qed
    have dist: "distinct (map ?lp (sweep_cells a))"
      by (simp add: cells local_point_inj)
    have "\<forall>xyz\<in>set (sweep_cells a).
        flux_ptr (mem (fold ?f (sweep_cells a) s0)) (?lp xyz) = flux_ptr (mem s0) (?lp xyz) + ?K"
      by (rule fold_cells_each [where Inv = ?Inv and fl = "\<lambda>s. flux_ptr (mem s)", OF step dist])
        (simp_all add: i0)
    then show ?thesis
      by (simp add: chunk_points_def sF_def f0)
  qed
  show ?thesis
    unfolding k using c0 c1 c2 by blast
qed

lemma scenario_memory_fields:
  "qtot_ptr scenario_memory = (\<lambda>_ _. 1)" "dinv_ptr scenario_memory = (\<lambda>_ _. 1 / 2)"
  "ghostx_in_ptr scenario_memory = (\<lambda>_ _. 0)" "ghosty_in_ptr scenario_memory = (\<lambda>_ _. 0)"
  "ghostz_in_ptr scenario_memory = (\<lambda>_ _. 0)" "flux_ptr scenario_memory = (\<lambda>_. 0)"
  by (simp_all add: scenario_memory_def zero_memory_def)

lemma still_device_fields:
  "available_chunks still_device ! 0 = 1" "device_w still_device = [1, 1]"
  "device_mu still_device = [0, 0]" "device_eta still_device = [0, 0]"
  "device_xi still_device = [0, 0]"
  by (simp_all add: still_device_def example_device_def)

lemma example_chunk_points:
  "chunk_points example_args =
     {(0, 0, 0), (1, 0, 0), (0, 1, 0), (1, 1, 0), (0, 0, 1), (1, 0, 1), (0, 1, 1), (1, 1, 1)}"
  by (simp add: chunk_points_def scenario_cells example_args_fields local_point_def)

text \<open>
  Claim C2, as amended. The scenario: a 2 by 2 by 2 chunk, two angles on two lanes, one
  moment, no MMS source, zero ghost cells, source 1 and \<open>dinv = 1/2\<close> everywhere, slot 0
  of the scratch pool free, and a shuffle that reads 0 from a lane outside the two-lane
  block. The time-independent kernel without fixup returns, and the scalar flux a cell
  receives depends on the position of the cell: the cell at the inflow corner receives the
  sum over the angles of \<open>w * 1/2\<close>; the next cell along x receives the sum of
  \<open>w * (1 + mu * hi) / 2\<close>, because the outgoing edge value 1 of the first cell is its
  incoming edge value. If \<open>mu * hi\<close>, \<open>eta * hj\<close> and \<open>xi * hk\<close> are zero for both
  angles, every cell of the chunk receives the sum of \<open>w * 1/2\<close>.
\<close>

theorem scenario_flux_by_position:
  assumes "x_range a = 2" "y_range a = 2" "z_range a = 2"
    and "num_moments a = 1" "\<not> mms_source a"
    and "available_chunks d ! 0 = 1"
    and "qtot_ptr m = (\<lambda>_ _. 1)" "dinv_ptr m = (\<lambda>_ _. 1 / 2)"
    and "ghostx_in_ptr m = (\<lambda>_ _. 0)" "ghosty_in_ptr m = (\<lambda>_ _. 0)"
      "ghostz_in_ptr m = (\<lambda>_ _. 0)"
  shows "\<exists>d' m'.
     gpu_time_independent_sweep_without_fixup (two_lanes 0) a d m = Some (d', m')
     \<and> flux_ptr m' (local_point a 0 0 0) =
         flux_ptr m (local_point a 0 0 0) +
           (device_w d ! 0 * (1 / 2) + device_w d ! 1 * (1 / 2))
     \<and> flux_ptr m' (local_point a 1 0 0) =
         flux_ptr m (local_point a 1 0 0) +
           (device_w d ! 0 * ((1 + device_mu d ! 0 * hi a) / 2) +
            device_w d ! 1 * ((1 + device_mu d ! 1 * hi a) / 2))
     \<and> ((\<forall>g<2. device_mu d ! g * hi a = 0 \<and> device_eta d ! g * hj a = 0
               \<and> device_xi d ! g * hk a = 0) \<longrightarrow>
         (\<forall>p\<in>chunk_points a.
            flux_ptr m' p =
              flux_ptr m p + (device_w d ! 0 * (1 / 2) + device_w d ! 1 * (1 / 2))))"
  using scenario_flux_values [OF assms, of 0] by simp

theorem scenario_flux_by_position_witness:
  "\<exists>d' m'.
     gpu_time_independent_sweep_without_fixup (two_lanes 0) example_args still_device
       scenario_memory = Some (d', m')
     \<and> flux_ptr m' (0, 0, 0) = 1 \<and> flux_ptr m' (1, 0, 0) = 1
     \<and> (\<forall>p\<in>chunk_points example_args. flux_ptr m' p = 1)"
proof -
  have z: "\<forall>g<2. device_mu still_device ! g * hi example_args = 0
      \<and> device_eta still_device ! g * hj example_args = 0
      \<and> device_xi still_device ! g * hk example_args = 0"
    by (simp add: still_device_fields less_2_cases_iff)
  from scenario_flux_by_position [of example_args still_device scenario_memory]
  obtain d' m' where
    k: "gpu_time_independent_sweep_without_fixup (two_lanes 0) example_args still_device
       scenario_memory = Some (d', m')"
    and c0: "flux_ptr m' (local_point example_args 0 0 0) =
         flux_ptr scenario_memory (local_point example_args 0 0 0) +
           (device_w still_device ! 0 * (1 / 2) + device_w still_device ! 1 * (1 / 2))"
    and c1: "flux_ptr m' (local_point example_args 1 0 0) =
         flux_ptr scenario_memory (local_point example_args 1 0 0) +
           (device_w still_device ! 0 * ((1 + device_mu still_device ! 0 * hi example_args) / 2) +
            device_w still_device ! 1 * ((1 + device_mu still_device ! 1 * hi example_args) / 2))"
    and c2: "(\<forall>g<2. device_mu still_device ! g * hi example_args = 0
               \<and> device_eta still_device ! g * hj example_args = 0
               \<and> device_xi still_device ! g * hk example_args = 0) \<longrightarrow>
         (\<forall>p\<in>chunk_points example_args.
            flux_ptr m' p =
              flux_ptr scenario_memory p +
                (device_w still_device ! 0 * (1 / 2) + device_w still_device ! 1 * (1 / 2)))"
    by (auto simp: example_args_fields still_device_fields scenario_memory_fields)
  from c0 have "flux_ptr m' (0, 0, 0) = 1"
    by (simp add: local_point_def example_args_fields still_device_fields scenario_memory_fields)
  moreover from c1 have "flux_ptr m' (1, 0, 0) = 1"
    by (simp add: local_point_def example_args_fields still_device_fields scenario_memory_fields)
  moreover from c2 z have "\<forall>p\<in>chunk_points example_args. flux_ptr m' p = 1"
    by (simp add: still_device_fields scenario_memory_fields)
  ultimately show ?thesis
    using k by blast
qed

text \<open>
  With all direction cosines and all inverse spacings equal to 1 and both weights 1, the sum
  over the angles of \<open>w * 1/2\<close> is 1. When a shuffle reads 0 from a lane outside the block
  the inflow corner cell receives 1 and the next cell along x receives 2; whatever single
  value \<open>u\<close> such a read gives, the two cells receive \<open>1 + 16 * u\<close> and
  \<open>2 + 16 * u\<close>, which are not both 1.
\<close>

theorem scenario_flux_counterexample:
  "\<forall>u. \<exists>d' m'.
     gpu_time_independent_sweep_without_fixup (two_lanes u) example_args example_device
       scenario_memory = Some (d', m')
     \<and> flux_ptr scenario_memory (0, 0, 0) = 0 \<and> flux_ptr scenario_memory (1, 0, 0) = 0
     \<and> (\<Sum>g<2. device_w example_device ! g * (1 / 2)) = 1
     \<and> flux_ptr m' (0, 0, 0) = 1 + 16 * u
     \<and> flux_ptr m' (1, 0, 0) = 2 + 16 * u"
proof
  fix u
  from scenario_flux_values [of example_args example_device scenario_memory u]
  obtain d' m' where
    k: "gpu_time_independent_sweep_without_fixup (two_lanes u) example_args example_device
       scenario_memory = Some (d', m')"
    and c0: "flux_ptr m' (local_point example_args 0 0 0) =
         flux_ptr scenario_memory (local_point example_args 0 0 0) +
           (device_w example_device ! 0 * (1 / 2) + device_w example_device ! 1 * (1 / 2)
            + 16 * u)"
    and c1: "flux_ptr m' (local_point example_args 1 0 0) =
         flux_ptr scenario_memory (local_point example_args 1 0 0) +
           (device_w example_device ! 0 *
              ((1 + device_mu example_device ! 0 * hi example_args) / 2) +
            device_w example_device ! 1 *
              ((1 + device_mu example_device ! 1 * hi example_args) / 2)
            + 16 * u)"
    by (auto simp: example_args_fields example_device_fields scenario_memory_fields)
  from c0 have "flux_ptr m' (0, 0, 0) = 1 + 16 * u"
    by (simp add: local_point_def example_args_fields example_device_fields
        scenario_memory_fields)
  moreover from c1 have "flux_ptr m' (1, 0, 0) = 2 + 16 * u"
    by (simp add: local_point_def example_args_fields example_device_fields
        scenario_memory_fields)
  moreover have "(\<Sum>g<2. device_w example_device ! g * (1 / 2)) = (1::real)"
    by (simp add: example_device_fields lessThan_nat_numeral lessThan_Suc)
  ultimately show "\<exists>d' m'.
     gpu_time_independent_sweep_without_fixup (two_lanes u) example_args example_device
       scenario_memory = Some (d', m')
     \<and> flux_ptr scenario_memory (0, 0, 0) = 0 \<and> flux_ptr scenario_memory (1, 0, 0) = 0
     \<and> (\<Sum>g<2. device_w example_device ! g * (1 / 2)) = 1
     \<and> flux_ptr m' (0, 0, 0) = 1 + 16 * u
     \<and> flux_ptr m' (1, 0, 0) = 2 + 16 * u"
    using k by (simp add: scenario_memory_fields)
qed

text \<open>
  Claim C9. When a kernel returns, the scalar flux and the flux moments it leaves are the
  values they had before plus what the same kernel adds to fields that start at zero (so the
  fields are only added to, never overwritten), they are unchanged at every point outside
  the chunk, and the fields \<open>qtot\<close>, \<open>dinv\<close>, \<open>t_xs\<close>, \<open>qim\<close>, time-flux-in and the
  three ghost-in buffers are unchanged. The compare-and-swap loop \<open>atomicAdd\<close> returns
  with the addend added at the given address and nothing else changed.
\<close>

theorem flux_fields_only_accumulate:
  assumes "run_kernel k fuel c a d m = Some (d', m')"
  shows "(\<exists>mz. run_kernel k fuel c a d (cleared m) = Some (d', mz)
            \<and> (\<forall>p. flux_ptr m' p = flux_ptr m p + flux_ptr mz p)
            \<and> (\<forall>p l. fluxm_ptr m' p l = fluxm_ptr m p l + fluxm_ptr mz p l))
     \<and> (\<forall>q. q \<notin> chunk_points a \<longrightarrow>
           flux_ptr m' q = flux_ptr m q \<and> fluxm_ptr m' q = fluxm_ptr m q)
     \<and> read_only_inputs m' = read_only_inputs m
     \<and> (\<forall>ptr p v. atomicAdd ptr p v = ptr(p := ptr p + v))"
proof -
  have "run_kernel k fuel c a d (shifted (flux_ptr m) (fluxm_ptr m) (cleared m)) =
      map_option (\<lambda>(d', mz). (d', shifted (flux_ptr m) (fluxm_ptr m) mz))
        (run_kernel k fuel c a d (cleared m))"
    by (rule run_kernel_shifted)
  with assms have "map_option (\<lambda>(d', mz). (d', shifted (flux_ptr m) (fluxm_ptr m) mz))
        (run_kernel k fuel c a d (cleared m)) = Some (d', m')"
    by (simp add: shifted_cleared)
  then obtain mz where z: "run_kernel k fuel c a d (cleared m) = Some (d', mz)"
    and m': "m' = shifted (flux_ptr m) (fluxm_ptr m) mz"
    by (cases "run_kernel k fuel c a d (cleared m)") auto
  from m' have "\<forall>p. flux_ptr m' p = flux_ptr m p + flux_ptr mz p"
    "\<forall>p l. fluxm_ptr m' p l = fluxm_ptr m p l + fluxm_ptr mz p l"
    by (simp_all add: shifted_def)
  with z have "\<exists>mz. run_kernel k fuel c a d (cleared m) = Some (d', mz)
            \<and> (\<forall>p. flux_ptr m' p = flux_ptr m p + flux_ptr mz p)
            \<and> (\<forall>p l. fluxm_ptr m' p l = fluxm_ptr m p l + fluxm_ptr mz p l)"
    by blast
  moreover note run_kernel_frame [OF assms]
  moreover have "\<forall>ptr p v. atomicAdd ptr p v = ptr(p := ptr p + v)"
    by (simp add: atomicAdd_adds)
  ultimately show ?thesis
    by blast
qed

theorem flux_fields_only_accumulate_witness:
  "\<exists>d' m'.
     run_kernel TimeIndependentWithoutFixup 0 (two_lanes 0) example_args example_device
       accumulated_memory = Some (d', m')
     \<and> (\<exists>mz. run_kernel TimeIndependentWithoutFixup 0 (two_lanes 0) example_args example_device
                (cleared accumulated_memory) = Some (d', mz)
            \<and> flux_ptr mz (0, 0, 0) = 1 \<and> flux_ptr m' (0, 0, 0) = 3 + 1
            \<and> (\<forall>p. flux_ptr m' p = 3 + flux_ptr mz p)
            \<and> (\<forall>p l. fluxm_ptr m' p l = 5 + fluxm_ptr mz p l))
     \<and> flux_ptr m' (2, 0, 0) = 3 \<and> fluxm_ptr m' (2, 0, 0) = (\<lambda>_. 5)
     \<and> read_only_inputs m' = read_only_inputs accumulated_memory"
proof -
  have f: "qtot_ptr accumulated_memory = (\<lambda>_ _. 1)" "dinv_ptr accumulated_memory = (\<lambda>_ _. 1 / 2)"
    "ghostx_in_ptr accumulated_memory = (\<lambda>_ _. 0)"
    "ghosty_in_ptr accumulated_memory = (\<lambda>_ _. 0)"
    "ghostz_in_ptr accumulated_memory = (\<lambda>_ _. 0)"
    "flux_ptr accumulated_memory = (\<lambda>_. 3)" "fluxm_ptr accumulated_memory = (\<lambda>_ _. 5)"
    by (simp_all add: accumulated_memory_def scenario_memory_fields)
  from scenario_flux_values [of example_args example_device accumulated_memory 0]
  obtain d' m' where
    k: "gpu_time_independent_sweep_without_fixup (two_lanes 0) example_args example_device
       accumulated_memory = Some (d', m')"
    and c0: "flux_ptr m' (local_point example_args 0 0 0) =
         flux_ptr accumulated_memory (local_point example_args 0 0 0) +
           (device_w example_device ! 0 * (1 / 2) + device_w example_device ! 1 * (1 / 2)
            + 16 * 0)"
    by (auto simp: example_args_fields example_device_fields f)
  from k have r: "run_kernel TimeIndependentWithoutFixup 0 (two_lanes 0) example_args
      example_device accumulated_memory = Some (d', m')"
    by (simp add: run_kernel_def)
  from c0 have v: "flux_ptr m' (0, 0, 0) = 3 + 1"
    by (simp add: local_point_def example_args_fields example_device_fields f)
  from flux_fields_only_accumulate [OF r] obtain mz where
    z: "run_kernel TimeIndependentWithoutFixup 0 (two_lanes 0) example_args example_device
         (cleared accumulated_memory) = Some (d', mz)"
    and s: "\<forall>p. flux_ptr m' p = flux_ptr accumulated_memory p + flux_ptr mz p"
      "\<forall>p l. fluxm_ptr m' p l = fluxm_ptr accumulated_memory p l + fluxm_ptr mz p l"
    and e: "\<forall>q. q \<notin> chunk_points example_args \<longrightarrow>
           flux_ptr m' q = flux_ptr accumulated_memory q
           \<and> fluxm_ptr m' q = fluxm_ptr accumulated_memory q"
    and i: "read_only_inputs m' = read_only_inputs accumulated_memory"
    by blast
  from s(1) v have "flux_ptr mz (0, 0, 0) = 1"
    by (simp add: f)
  moreover from e have "flux_ptr m' (2, 0, 0) = 3 \<and> fluxm_ptr m' (2, 0, 0) = (\<lambda>_. 5)"
    by (simp add: example_chunk_points f)
  ultimately show ?thesis
    using r z s v i by (simp add: f)
qed

end
